(* ===== verification/SNES_Prelude.thy ===== *)
theory SNES_Prelude
  imports Main "HOL-Library.Word"
begin

unbundle bit_operations_syntax

text \<open>
  Shared vocabulary of the development: the machine integers of the C++ code, the
  outcome of an operation that may stop at an \<open>assert\<close>, at \<open>llvm_unreachable\<close>
  or at a fatal error, sequencing of outcomes, decimal printing, and generic lemmas
  on outcomes, lists and words that the components share.
\<close>

section \<open>Machine integers\<close>

type_synonym u8 = "8 word"
type_synonym u16 = "16 word"
type_synonym u32 = "32 word"
type_synonym u64 = "64 word"

section \<open>Outcomes\<close>

text \<open>
  \<open>Assertion\<close> is a failed \<open>assert\<close> of a build with assertions, \<open>Unreachable\<close>
  is \<open>llvm_unreachable\<close>, \<open>FatalError\<close> is \<open>MCContext::reportFatalError\<close> or
  \<open>report_fatal_error\<close> (neither returns), and \<open>Undefined\<close> is undefined
  behaviour: a call whose definition does not exist in the program, or a null dereference.
\<close>

datatype code_error =
    Assertion string
  | Unreachable string
  | FatalError string
  | Undefined string

type_synonym 'a outcome = "code_error + 'a"

named_theorems outcome_simps \<open>evaluation of outcome combinators\<close>

definition obind :: "'a outcome \<Rightarrow> ('a \<Rightarrow> 'b outcome) \<Rightarrow> 'b outcome" where
  "obind m f = (case m of Inl e \<Rightarrow> Inl e | Inr x \<Rightarrow> f x)"

definition asserting :: "bool \<Rightarrow> string \<Rightarrow> 'a outcome \<Rightarrow> 'a outcome" where
  "asserting b msg k = (if b then k else Inl (Assertion msg))"

fun omap :: "('a \<Rightarrow> 'b outcome) \<Rightarrow> 'a list \<Rightarrow> 'b list outcome" where
  "omap f [] = Inr []"
| "omap f (x # xs) = obind (f x) (\<lambda>y. obind (omap f xs) (\<lambda>ys. Inr (y # ys)))"

fun ofold :: "('a \<Rightarrow> 's \<Rightarrow> 's outcome) \<Rightarrow> 'a list \<Rightarrow> 's \<Rightarrow> 's outcome" where
  "ofold f [] s = Inr s"
| "ofold f (x # xs) s = obind (f x s) (ofold f xs)"

lemma obind_Inr [simp, outcome_simps]: "obind (Inr x) f = f x"
  by (simp add: obind_def)

lemma obind_Inl [simp, outcome_simps]: "obind (Inl e) f = Inl e"
  by (simp add: obind_def)

lemma obind_eq_Inr: "obind m f = Inr y \<longleftrightarrow> (\<exists>x. m = Inr x \<and> f x = Inr y)"
  by (cases m) auto

lemma asserting_True [simp, outcome_simps]: "asserting True msg k = k"
  by (simp add: asserting_def)

lemma asserting_False [simp, outcome_simps]: "asserting False msg k = Inl (Assertion msg)"
  by (simp add: asserting_def)

lemma asserting_eq_Inr: "asserting b msg k = Inr y \<longleftrightarrow> b \<and> k = Inr y"
  by (simp add: asserting_def)

lemmas outcome_inv = obind_eq_Inr asserting_eq_Inr

lemma omap_Inr_iff:
  "omap f xs = Inr ys \<longleftrightarrow> list_all2 (\<lambda>x y. f x = Inr y) xs ys"
  by (induction xs arbitrary: ys) (auto simp: obind_eq_Inr list_all2_Cons1)

lemma omap_total: "(\<And>x. x \<in> set xs \<Longrightarrow> f x = Inr (g x)) \<Longrightarrow> omap f xs = Inr (map g xs)"
  by (induction xs) auto

section \<open>Decimal printing\<close>

text \<open>\<open>std::to_string\<close> and \<open>raw_ostream\<close>'s integer printing.\<close>

fun nat_digits :: "nat \<Rightarrow> string" where
  "nat_digits n =
     (if n < 10 then [char_of (48 + n)]
      else nat_digits (n div 10) @ [char_of (48 + n mod 10)])"

declare nat_digits.simps [simp del]

definition to_string :: "int \<Rightarrow> string" where
  "to_string i = (if i < 0 then ''-'' @ nat_digits (nat (- i)) else nat_digits (nat i))"

text \<open>Reading the digits back: what makes printed numbers unambiguous.\<close>

definition digits_value :: "string \<Rightarrow> nat" where
  "digits_value s = foldl (\<lambda>n c. 10 * n + (of_char c - 48)) 0 s"

lemma digits_value_snoc: "digits_value (s @ [c]) = 10 * digits_value s + (of_char c - 48)"
  by (simp add: digits_value_def)

lemma digits_value_nat_digits [simp]: "digits_value (nat_digits n) = n"
proof (induction n rule: nat_digits.induct)
  case (1 n)
  show ?case
  proof (cases "n < 10")
    case True
    then show ?thesis
      by (subst nat_digits.simps) (simp add: digits_value_def)
  next
    case False
    with 1 show ?thesis
      by (subst nat_digits.simps) (simp add: digits_value_snoc)
  qed
qed

lemma nat_digits_nonempty [simp]: "nat_digits n \<noteq> []"
  by (subst nat_digits.simps) simp

lemma nat_digits_digit: "c \<in> set (nat_digits n) \<Longrightarrow> 48 \<le> (of_char c :: nat) \<and> (of_char c :: nat) \<le> 57"
proof (induction n rule: nat_digits.induct)
  case (1 n)
  have "n mod 10 \<le> 9" by (simp add: less_Suc_eq_le [symmetric])
  with 1 show ?case
    by (subst (asm) nat_digits.simps) (auto split: if_splits)
qed

section \<open>Bit fields\<close>

text \<open>Two adjacent fields of a word make one wider field.\<close>

lemma take_bit_append:
  "take_bit m w OR push_bit m (take_bit k (drop_bit m w)) = take_bit (m + k) (w :: 'a::len word)"
proof (rule bit_word_eqI)
  fix n assume "n < LENGTH('a)"
  then show "bit (take_bit m w OR push_bit m (take_bit k (drop_bit m w))) n
      = bit (take_bit (m + k) w) n"
    by (cases "n < m") (auto simp: bit_simps)
qed

lemma and_mask8: "(x :: 'a::len word) AND 0xff = take_bit 8 x"
proof -
  have "(0xff :: 'a word) = mask 8" by (simp add: mask_eq_exp_minus_1)
  then show ?thesis by (simp add: take_bit_eq_mask)
qed

end
