(* ===== verification/Fixup_Kinds.thy ===== *)
theory Fixup_Kinds
  imports SNES_Prelude
begin

text \<open>
  The fixup kinds: the generic kinds of \<open>include/llvm/MC/MCFixup.h\<close> and the target kinds
  of \<open>MCTargetDesc/SNESFixupKinds.h\<close>, in the order of the two enumerations, with their
  numeric values, and the branch target adjustment that the code emitter and the
  assembler backend share.
\<close>

datatype (plugins only: code size) fixup_kind =
    FK_Data_1 | FK_Data_2 | FK_Data_4 | FK_Data_8
  | FK_PCRel_1 | FK_PCRel_2 | FK_PCRel_4 | FK_PCRel_8
  | FK_GPRel_1 | FK_GPRel_2 | FK_GPRel_4 | FK_GPRel_8
  | FK_DTPRel_4 | FK_DTPRel_8 | FK_TPRel_4 | FK_TPRel_8
  | FK_SecRel_1 | FK_SecRel_2 | FK_SecRel_4 | FK_SecRel_8
  | fixup_32 | fixup_7_pcrel | fixup_13_pcrel | fixup_16 | fixup_16_pm
  | fixup_ldi
  | fixup_lo8_ldi | fixup_hi8_ldi | fixup_hh8_ldi | fixup_ms8_ldi
  | fixup_lo8_ldi_neg | fixup_hi8_ldi_neg | fixup_hh8_ldi_neg | fixup_ms8_ldi_neg
  | fixup_lo8_ldi_pm | fixup_hi8_ldi_pm | fixup_hh8_ldi_pm
  | fixup_lo8_ldi_pm_neg | fixup_hi8_ldi_pm_neg | fixup_hh8_ldi_pm_neg
  | fixup_call
  | fixup_6 | fixup_6_adiw
  | fixup_lo8_ldi_gs | fixup_hi8_ldi_gs
  | fixup_8 | fixup_8_lo8 | fixup_8_hi8 | fixup_8_hlo8
  | fixup_sym_diff | fixup_16_ldst | fixup_lds_sts_16
  | fixup_port6 | fixup_port5
  | LastTargetFixupKind

definition generic_fixup_kinds :: "fixup_kind list" where
  "generic_fixup_kinds =
     [FK_Data_1, FK_Data_2, FK_Data_4, FK_Data_8,
      FK_PCRel_1, FK_PCRel_2, FK_PCRel_4, FK_PCRel_8,
      FK_GPRel_1, FK_GPRel_2, FK_GPRel_4, FK_GPRel_8,
      FK_DTPRel_4, FK_DTPRel_8, FK_TPRel_4, FK_TPRel_8,
      FK_SecRel_1, FK_SecRel_2, FK_SecRel_4, FK_SecRel_8]"

definition target_fixup_kinds :: "fixup_kind list" where
  "target_fixup_kinds =
     [fixup_32, fixup_7_pcrel, fixup_13_pcrel, fixup_16, fixup_16_pm,
      fixup_ldi,
      fixup_lo8_ldi, fixup_hi8_ldi, fixup_hh8_ldi, fixup_ms8_ldi,
      fixup_lo8_ldi_neg, fixup_hi8_ldi_neg, fixup_hh8_ldi_neg, fixup_ms8_ldi_neg,
      fixup_lo8_ldi_pm, fixup_hi8_ldi_pm, fixup_hh8_ldi_pm,
      fixup_lo8_ldi_pm_neg, fixup_hi8_ldi_pm_neg, fixup_hh8_ldi_pm_neg,
      fixup_call,
      fixup_6, fixup_6_adiw,
      fixup_lo8_ldi_gs, fixup_hi8_ldi_gs,
      fixup_8, fixup_8_lo8, fixup_8_hi8, fixup_8_hlo8,
      fixup_sym_diff, fixup_16_ldst, fixup_lds_sts_16,
      fixup_port6, fixup_port5]"

definition FirstTargetFixupKind :: nat where
  "FirstTargetFixupKind = 128"

text \<open>The position of an element in a list: the value an enumerator gets from its place.\<close>

fun position :: "'a \<Rightarrow> 'a list \<Rightarrow> nat" where
  "position x [] = 0"
| "position x (y # ys) = (if x = y then 0 else Suc (position x ys))"

definition NumTargetFixupKinds :: nat where
  "NumTargetFixupKinds = length target_fixup_kinds"

definition fixup_value :: "fixup_kind \<Rightarrow> nat" where
  "fixup_value k =
     (if k \<in> set generic_fixup_kinds then position k generic_fixup_kinds
      else FirstTargetFixupKind + position k target_fixup_kinds)"

definition adjustBranchTarget :: "u64 \<Rightarrow> u64" where
  "adjustBranchTarget val = drop_bit 1 val"

text \<open>
  The same template instantiated at a signed type, as the code emitter uses it on an
  \<open>int64_t\<close> immediate: an arithmetic shift.
\<close>

definition adjustBranchTarget_signed :: "u64 \<Rightarrow> u64" where
  "adjustBranchTarget_signed val = signed_drop_bit 1 val"

lemma position_less: "x \<in> set xs \<Longrightarrow> position x xs < length xs"
  by (induction xs) auto

lemma nth_position: "x \<in> set xs \<Longrightarrow> xs ! position x xs = x"
  by (induction xs) auto

lemma position_nth: "distinct xs \<Longrightarrow> i < length xs \<Longrightarrow> position (xs ! i) xs = i"
  by (induction xs arbitrary: i) (auto simp: nth_Cons split: nat.splits)

lemma distinct_target_fixup_kinds: "distinct target_fixup_kinds"
  by (simp add: target_fixup_kinds_def)

lemma NumTargetFixupKinds_eq: "NumTargetFixupKinds = 34"
  by (simp add: NumTargetFixupKinds_def target_fixup_kinds_def)

lemma fixup_kind_cover:
  "k \<in> set generic_fixup_kinds \<or> k \<in> set target_fixup_kinds \<or> k = LastTargetFixupKind"
  by (cases k) (simp_all add: generic_fixup_kinds_def target_fixup_kinds_def)

lemma fixup_value_Last: "fixup_value LastTargetFixupKind = FirstTargetFixupKind + NumTargetFixupKinds"
  by (simp add: fixup_value_def generic_fixup_kinds_def target_fixup_kinds_def
        NumTargetFixupKinds_def)

lemma sint_adjustBranchTarget_signed:
  "sint (adjustBranchTarget_signed v) = sint v div 2"
  by (simp add: adjustBranchTarget_signed_def sint_signed_drop_bit_eq drop_bit_eq_div)

end
