(* ===== verification/MC_Expr.thy ===== *)
theory MC_Expr
  imports Fixup_Kinds "HOL-Library.Signed_Division"
begin

unbundle bit_operations_syntax

text \<open>
  Assembler expressions: the part of \<open>lib/MC/MCExpr.cpp\<close> that evaluates an expression
  to a relocatable value without a layout, and the backend's \<open>SNESMCExpr\<close>
  (\<open>MCTargetDesc/SNESMCExpr.cpp\<close>) with its modifiers \<open>lo8\<close>, \<open>hi8\<close>, \<dots>.
  Symbols are labels; variable symbols (\<open>.set\<close>) are left out. An operation whose result
  C++ leaves undefined (a shift by 64 or more, a remainder by zero, the overflowing
  quotient) is the error \<open>Undefined\<close>.
\<close>

datatype VariantKind =
    VK_SNES_None
  | VK_SNES_HI8 | VK_SNES_LO8 | VK_SNES_HH8 | VK_SNES_HHI8
  | VK_SNES_PM_LO8 | VK_SNES_PM_HI8 | VK_SNES_PM_HH8

record mcsymbol =
  sym_name :: string
  sym_temporary :: bool

datatype symref_kind = VK_None | VK_Other nat

datatype mc_unop = LNot | Minus | BNot | Plus

datatype mc_binop =
    Add | And | Div | EQ | GT | GTE | LAnd | LOr | LT | LTE | Mod | Mul | NE | Or
  | Shl | AShr | LShr | Sub | Xor

datatype mcexpr =
    MCConstantExpr u64
  | MCSymbolRefExpr mcsymbol symref_kind
  | MCUnaryExpr mc_unop mcexpr
  | MCBinaryExpr mc_binop mcexpr mcexpr
  | SNESMCExpr VariantKind mcexpr bool

record mcvalue =
  getSymA :: "(mcsymbol \<times> symref_kind) option"
  getSymB :: "(mcsymbol \<times> symref_kind) option"
  getConstant :: u64

definition isAbsolute :: "mcvalue \<Rightarrow> bool" where
  "isAbsolute v \<longleftrightarrow> getSymA v = None \<and> getSymB v = None"

definition const_value :: "u64 \<Rightarrow> mcvalue" where
  "const_value c = \<lparr>getSymA = None, getSymB = None, getConstant = c\<rparr>"

record mcfixup =
  getOffset :: u32
  getValue :: mcexpr
  getKind :: fixup_kind

section \<open>The value of a modifier\<close>

definition evaluateAsInt64 :: "VariantKind \<Rightarrow> bool \<Rightarrow> u64 \<Rightarrow> u64 outcome" where
  "evaluateAsInt64 Kind Negated V =
     (let v = (if Negated then V * (- 1) else V);
          low = (\<lambda>n. Inr (signed_drop_bit n v AND 0xff))
      in case Kind of
           VK_SNES_LO8 \<Rightarrow> low 0
         | VK_SNES_HI8 \<Rightarrow> low 8
         | VK_SNES_HH8 \<Rightarrow> low 16
         | VK_SNES_HHI8 \<Rightarrow> low 24
         | VK_SNES_PM_LO8 \<Rightarrow> low 1
         | VK_SNES_PM_HI8 \<Rightarrow> low 9
         | VK_SNES_PM_HH8 \<Rightarrow> low 17
         | VK_SNES_None \<Rightarrow> Inl (Unreachable ''Uninitialized expression.''))"

definition getFixupKind :: "VariantKind \<Rightarrow> bool \<Rightarrow> fixup_kind outcome" where
  "getFixupKind Kind Negated =
     (case Kind of
        VK_SNES_LO8 \<Rightarrow> Inr (if Negated then fixup_lo8_ldi_neg else fixup_lo8_ldi)
      | VK_SNES_HI8 \<Rightarrow> Inr (if Negated then fixup_hi8_ldi_neg else fixup_hi8_ldi)
      | VK_SNES_HH8 \<Rightarrow> Inr (if Negated then fixup_hh8_ldi_neg else fixup_hh8_ldi)
      | VK_SNES_HHI8 \<Rightarrow> Inr (if Negated then fixup_ms8_ldi_neg else fixup_ms8_ldi)
      | VK_SNES_PM_LO8 \<Rightarrow> Inr (if Negated then fixup_lo8_ldi_pm_neg else fixup_lo8_ldi_pm)
      | VK_SNES_PM_HI8 \<Rightarrow> Inr (if Negated then fixup_hi8_ldi_pm_neg else fixup_hi8_ldi_pm)
      | VK_SNES_PM_HH8 \<Rightarrow> Inr (if Negated then fixup_hh8_ldi_pm_neg else fixup_hh8_ldi_pm)
      | VK_SNES_None \<Rightarrow> Inl (Unreachable ''Uninitialized expression''))"

section \<open>Modifier names\<close>

definition ModifierNames :: "(string \<times> VariantKind) list" where
  "ModifierNames =
     [(''lo8'', VK_SNES_LO8), (''hi8'', VK_SNES_HI8),
      (''hh8'', VK_SNES_HH8),
      (''hlo8'', VK_SNES_HH8), (''hhi8'', VK_SNES_HHI8),
      (''pm_lo8'', VK_SNES_PM_LO8), (''pm_hi8'', VK_SNES_PM_HI8),
      (''pm_hh8'', VK_SNES_PM_HH8)]"

definition getName :: "VariantKind \<Rightarrow> string option" where
  "getName Kind = map_option fst (find (\<lambda>m. snd m = Kind) ModifierNames)"

definition getKindByName :: "string \<Rightarrow> VariantKind" where
  "getKindByName Name =
     (case find (\<lambda>m. fst m = Name) ModifierNames of
        Some m \<Rightarrow> snd m
      | None \<Rightarrow> VK_SNES_None)"

text \<open>
  \<open>printImpl\<close> prints the sign, the name and the sub-expression in parentheses; the text
  of the sub-expression is an argument. A kind without a name would print a null pointer.
\<close>

definition printImpl :: "VariantKind \<Rightarrow> bool \<Rightarrow> string \<Rightarrow> string outcome" where
  "printImpl Kind Negated sub =
     asserting (Kind \<noteq> VK_SNES_None) ''Kind != VK_SNES_None''
       (case getName Kind of
          None \<Rightarrow> Inl (Undefined ''null modifier name'')
        | Some nm \<Rightarrow> Inr ((if Negated then ''-'' else '''') @ nm @ ''('' @ sub @ '')''))"

section \<open>Evaluation\<close>

text \<open>
  The sum of a value and a second one given by its parts, without an assembler to fold
  differences of symbols.
\<close>

definition EvaluateSymbolicAdd ::
  "mcvalue \<Rightarrow> (mcsymbol \<times> symref_kind) option \<Rightarrow> (mcsymbol \<times> symref_kind) option \<Rightarrow> u64
   \<Rightarrow> mcvalue option" where
  "EvaluateSymbolicAdd L RHS_A RHS_B RHS_Cst =
     (let LHS_A = getSymA L; LHS_B = getSymB L; Result_Cst = getConstant L + RHS_Cst
      in if (LHS_A \<noteq> None \<and> RHS_A \<noteq> None) \<or> (LHS_B \<noteq> None \<and> RHS_B \<noteq> None) then None
         else Some \<lparr>getSymA = (if LHS_A \<noteq> None then LHS_A else RHS_A),
                    getSymB = (if LHS_B \<noteq> None then LHS_B else RHS_B),
                    getConstant = Result_Cst\<rparr>)"

definition eval_unary :: "mc_unop \<Rightarrow> mcvalue \<Rightarrow> mcvalue option" where
  "eval_unary op V =
     (case op of
        LNot \<Rightarrow> if \<not> isAbsolute V then None
                else Some (const_value (if getConstant V = 0 then 1 else 0))
      | Minus \<Rightarrow> if getSymA V \<noteq> None \<and> getSymB V = None then None
                 else Some \<lparr>getSymA = getSymB V, getSymB = getSymA V,
                            getConstant = - getConstant V\<rparr>
      | BNot \<Rightarrow> if \<not> isAbsolute V then None else Some (const_value (NOT (getConstant V)))
      | Plus \<Rightarrow> Some V)"

definition of_bool_word :: "bool \<Rightarrow> u64" where
  "of_bool_word b = (if b then 1 else 0)"

definition undefined_result :: "'a outcome" where
  "undefined_result = Inl (Undefined ''undefined arithmetic'')"

text \<open>
  The value of an operator on constants; \<open>Inr None\<close> is the failure that \<open>Div\<close> reports.
\<close>

definition eval_constants :: "mc_binop \<Rightarrow> u64 \<Rightarrow> u64 \<Rightarrow> u64 option outcome" where
  "eval_constants op LHS RHS =
     (let shift = (\<lambda>f. if uint RHS < 64 then Inr (Some (f (unat RHS) LHS)) else undefined_result);
          overflow = (sint LHS = - (2 ^ 63) \<and> sint RHS = - 1);
          truth = (\<lambda>b. Inr (Some (of_bool_word b)))
      in case op of
           AShr \<Rightarrow> shift signed_drop_bit
         | Add \<Rightarrow> Inr (Some (LHS + RHS))
         | And \<Rightarrow> Inr (Some (LHS AND RHS))
         | Div \<Rightarrow> if RHS = 0 then Inr None
                  else if overflow then undefined_result
                  else Inr (Some (word_of_int (sint LHS sdiv sint RHS)))
         | EQ \<Rightarrow> truth (LHS = RHS)
         | GT \<Rightarrow> truth (sint LHS > sint RHS)
         | GTE \<Rightarrow> truth (sint LHS \<ge> sint RHS)
         | LAnd \<Rightarrow> truth (LHS \<noteq> 0 \<and> RHS \<noteq> 0)
         | LOr \<Rightarrow> truth (LHS \<noteq> 0 \<or> RHS \<noteq> 0)
         | LShr \<Rightarrow> shift drop_bit
         | LT \<Rightarrow> truth (sint LHS < sint RHS)
         | LTE \<Rightarrow> truth (sint LHS \<le> sint RHS)
         | Mod \<Rightarrow> if RHS = 0 \<or> overflow then undefined_result
                  else Inr (Some (word_of_int (sint LHS smod sint RHS)))
         | Mul \<Rightarrow> Inr (Some (LHS * RHS))
         | NE \<Rightarrow> truth (LHS \<noteq> RHS)
         | Or \<Rightarrow> Inr (Some (LHS OR RHS))
         | Shl \<Rightarrow> shift push_bit
         | Sub \<Rightarrow> Inr (Some (LHS - RHS))
         | Xor \<Rightarrow> Inr (Some (LHS XOR RHS)))"

definition eval_binary :: "mc_binop \<Rightarrow> mcvalue \<Rightarrow> mcvalue \<Rightarrow> mcvalue option outcome" where
  "eval_binary op L R =
     (if \<not> isAbsolute L \<or> \<not> isAbsolute R then
        (case op of
           Sub \<Rightarrow> Inr (EvaluateSymbolicAdd L (getSymB R) (getSymA R) (- getConstant R))
         | Add \<Rightarrow> Inr (EvaluateSymbolicAdd L (getSymA R) (getSymB R) (getConstant R))
         | _ \<Rightarrow> Inr None)
      else obind (eval_constants op (getConstant L) (getConstant R))
             (\<lambda>r. Inr (map_option const_value r)))"

text \<open>
  \<open>SNESMCExpr::evaluateAsRelocatableImpl\<close> on the value of its sub-expression; without a
  layout only an absolute value can be evaluated.
\<close>

definition snes_evaluateAsRelocatable ::
  "bool \<Rightarrow> VariantKind \<Rightarrow> bool \<Rightarrow> mcvalue option \<Rightarrow> mcvalue option outcome" where
  "snes_evaluateAsRelocatable has_layout Kind Negated sub =
     (case sub of
        None \<Rightarrow> Inr None
      | Some V \<Rightarrow>
          if isAbsolute V then
            obind (evaluateAsInt64 Kind Negated (getConstant V))
              (\<lambda>r. Inr (Some (const_value r)))
          else if \<not> has_layout then Inr None
          else (case getSymA V of
                  None \<Rightarrow> Inl (Undefined ''null symbol'')
                | Some (s, Modifier) \<Rightarrow>
                    if Modifier \<noteq> VK_None then Inr None
                    else Inr (Some \<lparr>getSymA = Some (s, Modifier), getSymB = getSymB V,
                                    getConstant = getConstant V\<rparr>)))"

fun evaluateAsRelocatable :: "mcexpr \<Rightarrow> mcvalue option outcome" where
  "evaluateAsRelocatable (MCConstantExpr c) = Inr (Some (const_value c))"
| "evaluateAsRelocatable (MCSymbolRefExpr s k) =
     Inr (Some \<lparr>getSymA = Some (s, k), getSymB = None, getConstant = 0\<rparr>)"
| "evaluateAsRelocatable (MCUnaryExpr op e) =
     obind (evaluateAsRelocatable e) (\<lambda>v. Inr (Option.bind v (eval_unary op)))"
| "evaluateAsRelocatable (MCBinaryExpr op l r) =
     obind (evaluateAsRelocatable l) (\<lambda>lv.
       case lv of None \<Rightarrow> Inr None
       | Some L \<Rightarrow> obind (evaluateAsRelocatable r) (\<lambda>rv.
           case rv of None \<Rightarrow> Inr None | Some R \<Rightarrow> eval_binary op L R))"
| "evaluateAsRelocatable (SNESMCExpr k e n) =
     obind (evaluateAsRelocatable e) (snes_evaluateAsRelocatable False k n)"

definition evaluateAsConstant :: "VariantKind \<Rightarrow> mcexpr \<Rightarrow> bool \<Rightarrow> u64 option outcome" where
  "evaluateAsConstant Kind SubExpr Negated =
     obind (evaluateAsRelocatable SubExpr) (\<lambda>v.
       case v of
         None \<Rightarrow> Inr None
       | Some V \<Rightarrow> if isAbsolute V
                   then obind (evaluateAsInt64 Kind Negated (getConstant V)) (\<lambda>r. Inr (Some r))
                   else Inr None)"

section \<open>Properties\<close>

text \<open>The bits of a modifier: eight bits of the (negated) value from the modifier's position.\<close>

fun modifier_shift :: "VariantKind \<Rightarrow> nat" where
  "modifier_shift VK_SNES_None = 0"
| "modifier_shift VK_SNES_LO8 = 0"
| "modifier_shift VK_SNES_HI8 = 8"
| "modifier_shift VK_SNES_HH8 = 16"
| "modifier_shift VK_SNES_HHI8 = 24"
| "modifier_shift VK_SNES_PM_LO8 = 1"
| "modifier_shift VK_SNES_PM_HI8 = 9"
| "modifier_shift VK_SNES_PM_HH8 = 17"

lemma modifier_shift_le: "modifier_shift k \<le> 24"
  by (cases k) simp_all

lemma low_byte_signed:
  "n \<le> 24 \<Longrightarrow> take_bit 8 (signed_drop_bit n v) = take_bit 8 (drop_bit n (v :: u64))"
  by (intro bit_word_eqI) (auto simp: bit_simps)

lemma evaluateAsInt64_byte:
  "k \<noteq> VK_SNES_None \<Longrightarrow> evaluateAsInt64 k neg v
     = Inr (take_bit 8 (drop_bit (modifier_shift k) (if neg then - v else v)))"
  by (cases k) (simp_all add: evaluateAsInt64_def and_mask8 low_byte_signed)

lemma four_bytes:
  "take_bit 8 w OR push_bit 8 (take_bit 8 (drop_bit 8 w))
   OR push_bit 16 (take_bit 8 (drop_bit 16 w)) OR push_bit 24 (take_bit 8 (drop_bit 24 w))
   = take_bit 32 (w :: u64)"
  by (simp only: or.assoc [symmetric] take_bit_append) (simp add: take_bit_append)

lemma three_bytes:
  "take_bit 8 w OR push_bit 8 (take_bit 8 (drop_bit 8 w))
   OR push_bit 16 (take_bit 8 (drop_bit 16 w)) = take_bit 24 (w :: u64)"
  by (simp only: or.assoc [symmetric] take_bit_append) (simp add: take_bit_append)

text \<open>
  The four byte modifiers \<open>lo8\<close>, \<open>hi8\<close>, \<open>hh8\<close> and \<open>hhi8\<close> of
  \<open>SNESMCExpr::evaluateAsInt64\<close> cut a value, negated or not, into four bytes that
  reassemble to its low 32 bits, and the three program memory modifiers reassemble to 24
  bits of half the value.
\<close>

theorem modifiers_partition_value:
  "\<exists>b0 b1 b2 b3 p0 p1 p2.
     evaluateAsInt64 VK_SNES_LO8 neg v = Inr b0 \<and> evaluateAsInt64 VK_SNES_HI8 neg v = Inr b1
     \<and> evaluateAsInt64 VK_SNES_HH8 neg v = Inr b2 \<and> evaluateAsInt64 VK_SNES_HHI8 neg v = Inr b3
     \<and> b0 OR push_bit 8 b1 OR push_bit 16 b2 OR push_bit 24 b3
         = take_bit 32 (if neg then - v else v)
     \<and> evaluateAsInt64 VK_SNES_PM_LO8 neg v = Inr p0
     \<and> evaluateAsInt64 VK_SNES_PM_HI8 neg v = Inr p1
     \<and> evaluateAsInt64 VK_SNES_PM_HH8 neg v = Inr p2
     \<and> p0 OR push_bit 8 p1 OR push_bit 16 p2
         = take_bit 24 (drop_bit 1 (if neg then - v else v))"
  using four_bytes [of "if neg then - v else v"]
    three_bytes [of "drop_bit 1 (if neg then - v else v)"]
  by (simp add: evaluateAsInt64_byte)

text \<open>
  The modifier table is a round trip: the name that \<open>getName\<close> gives to a
  kind, other than the uninitialised one, is read back by \<open>getKindByName\<close> as that kind,
  although \<open>hh8\<close> and \<open>hlo8\<close> are two spellings of one kind.
\<close>

theorem modifier_name_roundtrip:
  "(getName k = None \<longleftrightarrow> k = VK_SNES_None)
   \<and> (case getName k of None \<Rightarrow> True | Some nm \<Rightarrow> getKindByName nm = k)
   \<and> getKindByName ''hlo8'' = getKindByName ''hh8''"
  by (cases k) (simp_all add: getName_def getKindByName_def ModifierNames_def)

text \<open>
  The constant evaluation of the code emitter agrees with the general evaluation of the
  expression.
\<close>

lemma evaluateAsConstant_agrees:
  "evaluateAsConstant k e neg
   = obind (evaluateAsRelocatable (SNESMCExpr k e neg)) (\<lambda>v. Inr (map_option getConstant v))"
  by (cases "evaluateAsRelocatable e")
    (auto simp: evaluateAsConstant_def snes_evaluateAsRelocatable_def const_value_def obind_def
      split: option.splits sum.splits)

end
