(* ===== verification/Math_Extras.thy ===== *)
theory Math_Extras
  imports SNES_Prelude
begin

unbundle bit_operations_syntax

text \<open>
  The width tests of \<open>include/llvm/Support/MathExtras.h\<close> that the backend uses to
  reject operands, over 64-bit words: \<open>uint64_t\<close> values are read with \<open>uint\<close>,
  \<open>int64_t\<close> values with \<open>sint\<close>. The asserted range of the width is part of each
  definition. The lemmas give the mathematical meaning of each test.
\<close>

definition width_msg :: string where
  "width_msg = ''integer width out of range''"

definition maxUIntN :: "nat \<Rightarrow> u64 outcome" where
  "maxUIntN N = asserting (0 < N \<and> N \<le> 64) width_msg (Inr (drop_bit (64 - N) (- 1)))"

definition minIntN :: "nat \<Rightarrow> u64 outcome" where
  "minIntN N = asserting (0 < N \<and> N \<le> 64) width_msg (Inr (- push_bit (N - 1) 1))"

definition maxIntN :: "nat \<Rightarrow> u64 outcome" where
  "maxIntN N = asserting (0 < N \<and> N \<le> 64) width_msg (Inr (push_bit (N - 1) 1 - 1))"

definition isUIntN :: "nat \<Rightarrow> u64 \<Rightarrow> bool outcome" where
  "isUIntN N x = (if 64 \<le> N then Inr True
     else obind (maxUIntN N) (\<lambda>m. Inr (x \<le> m)))"

definition isIntN :: "nat \<Rightarrow> u64 \<Rightarrow> bool outcome" where
  "isIntN N x = (if 64 \<le> N then Inr True
     else obind (minIntN N) (\<lambda>mn.
          if sint mn \<le> sint x then obind (maxIntN N) (\<lambda>mx. Inr (sint x \<le> sint mx))
          else Inr False))"

text \<open>The template \<open>isUInt<N>\<close>, whose width is a compile-time constant.\<close>

definition isUInt :: "nat \<Rightarrow> u64 \<Rightarrow> bool" where
  "isUInt N X = (if 64 \<le> N then True else X < push_bit N 1)"

section \<open>What the tests mean\<close>

lemma drop_bit_minus_one_eq_mask: "N \<le> 64 \<Longrightarrow> drop_bit (64 - N) (- 1 :: u64) = mask N"
  by (rule bit_word_eqI) (auto simp: bit_simps)

lemma maxUIntN_value: "0 < N \<Longrightarrow> N \<le> 64 \<Longrightarrow> maxUIntN N = Inr (mask N)"
  by (simp add: maxUIntN_def drop_bit_minus_one_eq_mask)

lemma power2_less: "n < m \<Longrightarrow> (2::int) ^ n < 2 ^ m"
  by (rule power_strict_increasing) simp_all

lemma sint_of_int_u64:
  assumes "- (2 ^ 63) \<le> k" and "k < 2 ^ 63"
  shows "sint (word_of_int k :: u64) = k"
proof -
  have "signed_take_bit 63 k = k"
    using assms by (rule signed_take_bit_int_eq_self)
  then show ?thesis by (simp add: signed_of_int)
qed

lemma sint_power2: "n < 63 \<Longrightarrow> sint (2 ^ n :: u64) = 2 ^ n"
proof -
  assume n: "n < 63"
  have "- (2 ^ 63) \<le> (2::int) ^ n"
    by (rule order_trans [of _ 0]) simp_all
  from sint_of_int_u64 [OF this power2_less [OF n]] show ?thesis by simp
qed

lemma sint_minus_power2: "n < 63 \<Longrightarrow> sint (- (2 ^ n) :: u64) = - (2 ^ n)"
proof -
  assume n: "n < 63"
  have "- (2 ^ 63) \<le> - ((2::int) ^ n)"
    using power2_less [OF n] by simp
  moreover have "- ((2::int) ^ n) < 2 ^ 63"
    by (rule less_le_trans [of _ 0]) simp_all
  ultimately show ?thesis using sint_of_int_u64 [of "- (2 ^ n)"] by simp
qed

lemma sint_power2_minus_1: "n < 63 \<Longrightarrow> sint (2 ^ n - 1 :: u64) = 2 ^ n - 1"
proof -
  assume n: "n < 63"
  have "- (2 ^ 63) \<le> (2::int) ^ n - 1"
    by (rule order_trans [of _ 0]) simp_all
  moreover have "(2::int) ^ n - 1 < 2 ^ 63"
    using power2_less [OF n] by linarith
  ultimately show ?thesis using sint_of_int_u64 [of "2 ^ n - 1"] by simp
qed

lemma uint_power2: "n < 64 \<Longrightarrow> uint (2 ^ n :: u64) = 2 ^ n"
proof -
  assume n: "n < 64"
  have "uint (word_of_int (2 ^ n) :: u64) = 2 ^ n mod 2 ^ 64"
    by (subst uint_word_of_int) simp
  also have "\<dots> = 2 ^ n"
    by (rule mod_pos_pos_trivial) (simp, rule power2_less [OF n])
  finally show ?thesis by simp
qed

lemma isUIntN_iff: "0 < N \<Longrightarrow> N < 64 \<Longrightarrow> isUIntN N x = Inr (uint x < 2 ^ N)"
proof -
  assume N: "0 < N" "N < 64"
  have "uint (mask N :: u64) = 2 ^ N - 1"
    using N by (subst uint_mask_eq) (simp add: min_def mask_eq_exp_minus_1)
  then show ?thesis
    using N by (simp del: mask_eq_exp_minus_1 add: isUIntN_def maxUIntN_value word_le_def)
qed

lemma isIntN_iff:
  "0 < N \<Longrightarrow> N < 64 \<Longrightarrow> isIntN N x = Inr (- (2 ^ (N - 1)) \<le> sint x \<and> sint x < 2 ^ (N - 1))"
  by (simp add: isIntN_def minIntN_def maxIntN_def sint_minus_power2 sint_power2_minus_1)

lemma isUInt_iff: "N < 64 \<Longrightarrow> isUInt N x \<longleftrightarrow> uint x < 2 ^ N"
proof -
  assume N: "N < 64"
  then have "uint (push_bit N 1 :: u64) = 2 ^ N"
    by (simp add: push_bit_eq_mult uint_power2)
  with N show ?thesis by (simp add: isUInt_def word_less_def)
qed

lemmas width_tests = isUIntN_iff isIntN_iff isUInt_iff

text \<open>A value inside a signed or unsigned range is determined by its low bits.\<close>

lemma uint_bound_take_bit: "uint (x :: u64) < 2 ^ N \<Longrightarrow> take_bit N x = x"
  by (rule word_uint_eqI) (simp add: unsigned_take_bit_eq take_bit_int_eq_self)

end
