(* ===== verification/Asm_Backend.thy ===== *)
theory Asm_Backend
  imports MC_Expr Math_Extras
begin

unbundle bit_operations_syntax

text \<open>
  The assembler backend, \<open>MCTargetDesc/SNESAsmBackend.cpp\<close>: how the value of a fixup is
  checked, moved into the shape of the instruction field and combined with the bytes of
  the fragment. Values are \<open>uint64_t\<close>; \<open>ctx\<close> says whether an \<open>MCContext\<close> is at
  hand to report an error to, as the last parameter of the C++ functions does.
\<close>

section \<open>Range checks\<close>

definition report :: "bool \<Rightarrow> string \<Rightarrow> 'a outcome" where
  "report ctx Diagnostic = Inl (if ctx then FatalError Diagnostic else Unreachable Diagnostic)"

definition signed_width :: "nat \<Rightarrow> u64 \<Rightarrow> string \<Rightarrow> bool \<Rightarrow> unit outcome" where
  "signed_width Width V Description ctx =
     obind (isIntN Width V) (\<lambda>ok.
       if ok then Inr ()
       else obind (minIntN Width) (\<lambda>Min. obind (maxIntN Width) (\<lambda>Max.
         report ctx (''out of range '' @ Description @ '' (expected an integer in the range ''
           @ to_string (sint Min) @ '' to '' @ to_string (sint Max) @ '')''))))"

definition unsigned_width :: "nat \<Rightarrow> u64 \<Rightarrow> string \<Rightarrow> bool \<Rightarrow> unit outcome" where
  "unsigned_width Width V Description ctx =
     obind (isUIntN Width V) (\<lambda>ok.
       if ok then Inr ()
       else obind (maxUIntN Width) (\<lambda>Max.
         report ctx (''out of range '' @ Description @ '' (expected an integer in the range 0 to ''
           @ to_string (sint Max) @ '')'')))"

section \<open>Field adjustments\<close>

definition adjustBranch :: "nat \<Rightarrow> u64 \<Rightarrow> bool \<Rightarrow> u64 outcome" where
  "adjustBranch Size V ctx =
     obind (unsigned_width (Size + 1) V ''branch target'' ctx)
       (\<lambda>_. Inr (adjustBranchTarget V))"

definition adjustRelativeBranch :: "nat \<Rightarrow> u64 \<Rightarrow> bool \<Rightarrow> u64 outcome" where
  "adjustRelativeBranch Size V ctx =
     obind (signed_width (Size + 1) V ''branch target'' ctx)
       (\<lambda>_. Inr (adjustBranchTarget (V - 2)))"

definition adjust_fixup_call :: "nat \<Rightarrow> u64 \<Rightarrow> bool \<Rightarrow> u64 outcome" where
  "adjust_fixup_call Size V ctx =
     obind (adjustBranch Size V ctx) (\<lambda>W.
       let top = W AND push_bit 6 0xf00000;
           middle = W AND push_bit 5 0x1ffff;
           bottom = W AND 0x1f
       in Inr (push_bit 6 top OR push_bit 3 middle OR push_bit 0 bottom))"

definition adjust_fixup_7_pcrel :: "nat \<Rightarrow> u64 \<Rightarrow> bool \<Rightarrow> u64 outcome" where
  "adjust_fixup_7_pcrel Size V ctx =
     obind (adjustRelativeBranch Size V ctx) (\<lambda>W. Inr (W AND 0x7f))"

definition adjust_fixup_13_pcrel :: "nat \<Rightarrow> u64 \<Rightarrow> bool \<Rightarrow> u64 outcome" where
  "adjust_fixup_13_pcrel Size V ctx =
     obind (adjustRelativeBranch Size V ctx) (\<lambda>W. Inr (W AND 0xfff))"

definition adjust_fixup_6_adiw :: "u64 \<Rightarrow> bool \<Rightarrow> u64 outcome" where
  "adjust_fixup_6_adiw V ctx =
     obind (unsigned_width 6 V ''immediate'' ctx)
       (\<lambda>_. Inr (push_bit 2 (V AND 0x30) OR (V AND 0x0f)))"

definition adjust_fixup_port5 :: "u64 \<Rightarrow> bool \<Rightarrow> u64 outcome" where
  "adjust_fixup_port5 V ctx =
     obind (unsigned_width 5 V ''port number'' ctx)
       (\<lambda>_. Inr (push_bit 3 (V AND 0x1f)))"

definition adjust_fixup_port6 :: "u64 \<Rightarrow> bool \<Rightarrow> u64 outcome" where
  "adjust_fixup_port6 V ctx =
     obind (unsigned_width 6 V ''port number'' ctx)
       (\<lambda>_. Inr (push_bit 5 (V AND 0x30) OR (V AND 0x0f)))"

definition adjust_pm :: "u64 \<Rightarrow> u64" where
  "adjust_pm V = drop_bit 1 V"

definition ldi_fixup :: "u64 \<Rightarrow> u64" where
  "ldi_fixup V = push_bit 4 (V AND 0xf0) OR (V AND 0x0f)"

definition ldi_neg :: "u64 \<Rightarrow> u64" where
  "ldi_neg V = V * (- 1)"

definition ldi_lo8 :: "u64 \<Rightarrow> u64" where
  "ldi_lo8 V = ldi_fixup (V AND 0xff)"

definition ldi_hi8 :: "u64 \<Rightarrow> u64" where
  "ldi_hi8 V = ldi_fixup (drop_bit 8 (V AND 0xff00))"

definition ldi_hh8 :: "u64 \<Rightarrow> u64" where
  "ldi_hh8 V = ldi_fixup (drop_bit 16 (V AND 0xff0000))"

definition ldi_ms8 :: "u64 \<Rightarrow> u64" where
  "ldi_ms8 V = ldi_fixup (drop_bit 24 (V AND 0xff000000))"

section \<open>Fixup kind information\<close>

record fixup_info =
  Name :: string
  TargetOffset :: nat
  TargetSize :: nat
  FKF_IsPCRel :: bool

definition info :: "string \<Rightarrow> nat \<Rightarrow> nat \<Rightarrow> bool \<Rightarrow> fixup_info" where
  "info n off sz pc = \<lparr>Name = n, TargetOffset = off, TargetSize = sz, FKF_IsPCRel = pc\<rparr>"

definition Builtins :: "fixup_info list" where
  "Builtins =
     [info ''FK_Data_1'' 0 8 False, info ''FK_Data_2'' 0 16 False,
      info ''FK_Data_4'' 0 32 False, info ''FK_Data_8'' 0 64 False,
      info ''FK_PCRel_1'' 0 8 True, info ''FK_PCRel_2'' 0 16 True,
      info ''FK_PCRel_4'' 0 32 True, info ''FK_PCRel_8'' 0 64 True,
      info ''FK_GPRel_1'' 0 8 False, info ''FK_GPRel_2'' 0 16 False,
      info ''FK_GPRel_4'' 0 32 False, info ''FK_GPRel_8'' 0 64 False,
      info ''FK_DTPRel_4'' 0 32 False, info ''FK_DTPRel_8'' 0 64 False,
      info ''FK_TPRel_4'' 0 32 False, info ''FK_TPRel_8'' 0 64 False,
      info ''FK_SecRel_1'' 0 8 False, info ''FK_SecRel_2'' 0 16 False,
      info ''FK_SecRel_4'' 0 32 False, info ''FK_SecRel_8'' 0 64 False]"

definition Infos :: "fixup_info list" where
  "Infos =
     [info ''fixup_32'' 0 32 False,
      info ''fixup_7_pcrel'' 3 7 True,
      info ''fixup_13_pcrel'' 0 12 True,
      info ''fixup_16'' 0 16 False,
      info ''fixup_16_pm'' 0 16 False,
      info ''fixup_ldi'' 0 8 False,
      info ''fixup_lo8_ldi'' 0 8 False,
      info ''fixup_hi8_ldi'' 0 8 False,
      info ''fixup_hh8_ldi'' 0 8 False,
      info ''fixup_ms8_ldi'' 0 8 False,
      info ''fixup_lo8_ldi_neg'' 0 8 False,
      info ''fixup_hi8_ldi_neg'' 0 8 False,
      info ''fixup_hh8_ldi_neg'' 0 8 False,
      info ''fixup_ms8_ldi_neg'' 0 8 False,
      info ''fixup_lo8_ldi_pm'' 0 8 False,
      info ''fixup_hi8_ldi_pm'' 0 8 False,
      info ''fixup_hh8_ldi_pm'' 0 8 False,
      info ''fixup_lo8_ldi_pm_neg'' 0 8 False,
      info ''fixup_hi8_ldi_pm_neg'' 0 8 False,
      info ''fixup_hh8_ldi_pm_neg'' 0 8 False,
      info ''fixup_call'' 0 22 False,
      info ''fixup_6'' 0 16 False,
      info ''fixup_6_adiw'' 0 6 False,
      info ''fixup_lo8_ldi_gs'' 0 8 False,
      info ''fixup_hi8_ldi_gs'' 0 8 False,
      info ''fixup_8'' 0 8 False,
      info ''fixup_8_lo8'' 0 8 False,
      info ''fixup_8_hi8'' 0 8 False,
      info ''fixup_8_hlo8'' 0 8 False,
      info ''fixup_sym_diff'' 0 32 False,
      info ''fixup_16_ldst'' 0 16 False,
      info ''fixup_lds_sts_16'' 0 16 False,
      info ''fixup_port6'' 0 16 False,
      info ''fixup_port5'' 3 5 False]"

definition getNumFixupKinds :: nat where
  "getNumFixupKinds = NumTargetFixupKinds"

definition base_getFixupKindInfo :: "fixup_kind \<Rightarrow> fixup_info outcome" where
  "base_getFixupKindInfo Kind =
     asserting (fixup_value Kind \<le> length Builtins) ''Unknown fixup kind''
       (if fixup_value Kind < length Builtins then Inr (Builtins ! fixup_value Kind)
        else Inl (Undefined ''read past the end of Builtins''))"

definition getFixupKindInfo :: "fixup_kind \<Rightarrow> fixup_info outcome" where
  "getFixupKindInfo Kind =
     (if fixup_value Kind < FirstTargetFixupKind then base_getFixupKindInfo Kind
      else asserting (fixup_value Kind - FirstTargetFixupKind < getNumFixupKinds)
             ''Invalid kind!'' (Inr (Infos ! (fixup_value Kind - FirstTargetFixupKind))))"

section \<open>Adjusting a fixup value\<close>

text \<open>
  \<open>symA\<close> is the additive symbol of the target value, if there is one. The cases of the
  switch keep the order of the source; the kinds that no case names stop at \<open>default\<close>.
\<close>

definition ldi_kind :: "bool \<Rightarrow> bool \<Rightarrow> (u64 \<Rightarrow> u64) \<Rightarrow> u64 \<Rightarrow> u64 outcome" where
  "ldi_kind is_pm is_neg part V =
     (let V1 = (if is_pm then adjust_pm V else V);
          V2 = (if is_neg then ldi_neg V1 else V1)
      in Inr (part V2))"

definition adjustFixupValue ::
  "fixup_kind \<Rightarrow> mcsymbol option \<Rightarrow> u64 \<Rightarrow> bool \<Rightarrow> u64 outcome" where
  "adjustFixupValue Kind symA V0 ctx =
     obind (getFixupKindInfo Kind) (\<lambda>i.
       let Size = TargetSize i;
           V = (case symA of Some A \<Rightarrow> if sym_temporary A then V0 + 2 else V0 | None \<Rightarrow> V0)
       in case Kind of
            fixup_7_pcrel \<Rightarrow> adjust_fixup_7_pcrel Size V ctx
          | fixup_13_pcrel \<Rightarrow> adjust_fixup_13_pcrel Size V ctx
          | fixup_call \<Rightarrow> adjust_fixup_call Size V ctx
          | fixup_ldi \<Rightarrow> Inr (ldi_fixup V)
          | fixup_lo8_ldi \<Rightarrow> ldi_kind False False ldi_lo8 V
          | fixup_lo8_ldi_pm \<Rightarrow> ldi_kind True False ldi_lo8 V
          | fixup_hi8_ldi \<Rightarrow> ldi_kind False False ldi_hi8 V
          | fixup_hi8_ldi_pm \<Rightarrow> ldi_kind True False ldi_hi8 V
          | fixup_hh8_ldi \<Rightarrow> ldi_kind False False ldi_hh8 V
          | fixup_hh8_ldi_pm \<Rightarrow> ldi_kind True False ldi_hh8 V
          | fixup_ms8_ldi \<Rightarrow> ldi_kind False False ldi_ms8 V
          | fixup_lo8_ldi_neg \<Rightarrow> ldi_kind False True ldi_lo8 V
          | fixup_lo8_ldi_pm_neg \<Rightarrow> ldi_kind True True ldi_lo8 V
          | fixup_hi8_ldi_neg \<Rightarrow> ldi_kind False True ldi_hi8 V
          | fixup_hi8_ldi_pm_neg \<Rightarrow> ldi_kind True True ldi_hi8 V
          | fixup_hh8_ldi_neg \<Rightarrow> ldi_kind False True ldi_hh8 V
          | fixup_hh8_ldi_pm_neg \<Rightarrow> ldi_kind True True ldi_hh8 V
          | fixup_ms8_ldi_neg \<Rightarrow> ldi_kind False True ldi_ms8 V
          | fixup_16 \<Rightarrow> obind (unsigned_width 16 V ''port number'' ctx) (\<lambda>_. Inr (V AND 0xffff))
          | fixup_6_adiw \<Rightarrow> adjust_fixup_6_adiw V ctx
          | fixup_port5 \<Rightarrow> adjust_fixup_port5 V ctx
          | fixup_port6 \<Rightarrow> adjust_fixup_port6 V ctx
          | FK_Data_2 \<Rightarrow> Inr V
          | FK_Data_4 \<Rightarrow> Inr V
          | FK_Data_8 \<Rightarrow> Inr V
          | FK_GPRel_4 \<Rightarrow> Inl (Unreachable ''don't know how to adjust this fixup'')
          | _ \<Rightarrow> Inl (Unreachable ''unhandled fixup''))"

section \<open>Applying a fixup\<close>

text \<open>The loop that combines the bytes of the value with the fragment.\<close>

fun or_bytes :: "u64 \<Rightarrow> nat \<Rightarrow> nat \<Rightarrow> nat \<Rightarrow> u8 list \<Rightarrow> u8 list" where
  "or_bytes V Offset i 0 Data = Data"
| "or_bytes V Offset i (Suc n) Data =
     (let mask = (ucast (drop_bit (i * 8) V AND 0xff) :: u8)
      in or_bytes V Offset (Suc i) n (Data[Offset + i := (Data ! (Offset + i)) OR mask]))"

definition applyFixup ::
  "mcfixup \<Rightarrow> mcsymbol option \<Rightarrow> u8 list \<Rightarrow> u64 \<Rightarrow> u8 list outcome" where
  "applyFixup Fixup symA Data V =
     obind (adjustFixupValue (getKind Fixup) symA V True) (\<lambda>W.
       if W = 0 then Inr Data
       else obind (getFixupKindInfo (getKind Fixup)) (\<lambda>Info.
         let NumBits = TargetSize Info + TargetOffset Info;
             NumBytes = NumBits div 8 + (if NumBits mod 8 = 0 then 0 else 1);
             U = push_bit (TargetOffset Info) W;
             Offset = unat (getOffset Fixup)
         in asserting (Offset + NumBytes \<le> length Data) ''Invalid fixup offset!''
              (Inr (or_bytes U Offset 0 NumBytes Data))))"

definition writeNopData :: "nat \<Rightarrow> u8 list outcome" where
  "writeNopData Count =
     asserting (Count mod 2 = 0) ''NOP instructions must be 2 bytes'' (Inr (replicate Count 0))"

definition shouldForceRelocation :: "fixup_kind \<Rightarrow> bool" where
  "shouldForceRelocation Kind =
     (case Kind of
        fixup_7_pcrel \<Rightarrow> True
      | fixup_13_pcrel \<Rightarrow> True
      | fixup_call \<Rightarrow> True
      | _ \<Rightarrow> False)"

section \<open>Range checks, solved\<close>

lemma unsigned_width_iff:
  "0 < w \<Longrightarrow> w < 64 \<Longrightarrow>
   unsigned_width w V d ctx = Inr () \<longleftrightarrow> uint V < 2 ^ w"
  by (simp add: unsigned_width_def width_tests maxUIntN_value report_def)

lemma signed_width_iff:
  "0 < w \<Longrightarrow> w < 64 \<Longrightarrow>
   signed_width w V d ctx = Inr () \<longleftrightarrow> - (2 ^ (w - 1)) \<le> sint V \<and> sint V < 2 ^ (w - 1)"
  by (simp add: signed_width_def width_tests minIntN_def maxIntN_def report_def)

lemma unsigned_width_ok:
  "0 < w \<Longrightarrow> w < 64 \<Longrightarrow> uint V < 2 ^ w \<Longrightarrow> unsigned_width w V d ctx = Inr ()"
  by (simp add: unsigned_width_iff)

lemma signed_width_ok:
  "0 < w \<Longrightarrow> w < 64 \<Longrightarrow> - (2 ^ (w - 1)) \<le> sint V \<Longrightarrow> sint V < 2 ^ (w - 1)
   \<Longrightarrow> signed_width w V d ctx = Inr ()"
  by (simp add: signed_width_iff)

section \<open>The immediate fields as bytes\<close>

lemma byte_masks:
  "(0xff :: u64) = mask 8" "(0xff00 :: u64) = push_bit 8 (mask 8)"
  "(0xff0000 :: u64) = push_bit 16 (mask 8)" "(0xff000000 :: u64) = push_bit 24 (mask 8)"
  "(0x0f :: u64) = mask 4" "(0xf0 :: u64) = push_bit 4 (mask 4)"
  by (simp_all add: mask_eq_exp_minus_1)

lemma drop_and_field:
  "drop_bit n (V AND push_bit n (mask 8)) = take_bit 8 (drop_bit n V)"
  if "n + 8 \<le> 64" for V :: u64
  using that by (intro bit_word_eqI) (auto simp: bit_simps)

lemma drop_and_fields:
  "drop_bit 8 (V AND push_bit 8 (mask 8)) = take_bit 8 (drop_bit 8 (V :: u64))"
  "drop_bit 16 (V AND push_bit 16 (mask 8)) = take_bit 8 (drop_bit 16 (V :: u64))"
  "drop_bit 24 (V AND push_bit 24 (mask 8)) = take_bit 8 (drop_bit 24 (V :: u64))"
  by (rule drop_and_field, simp)+

lemma ldi_parts:
  "ldi_lo8 V = ldi_fixup (take_bit 8 V)"
  "ldi_hi8 V = ldi_fixup (take_bit 8 (drop_bit 8 V))"
  "ldi_hh8 V = ldi_fixup (take_bit 8 (drop_bit 16 V))"
  "ldi_ms8 V = ldi_fixup (take_bit 8 (drop_bit 24 V))"
  unfolding ldi_lo8_def ldi_hi8_def ldi_hh8_def ldi_ms8_def byte_masks
  by (simp_all only: drop_and_fields take_bit_eq_mask)

lemma ldi_fixup_alt: "ldi_fixup V = push_bit 8 (take_bit 4 (drop_bit 4 V)) OR take_bit 4 V"
  unfolding ldi_fixup_def byte_masks by (intro bit_word_eqI) (auto simp: bit_simps)

text \<open>
  Halving and negating in either order: the bytes are equal unless the value has a one
  followed by zeros up to the byte.
\<close>

lemma uint_byte_neg:
  assumes "n + 8 \<le> 64"
  shows "uint (take_bit 8 (drop_bit n (- v :: u64))) = (- uint v) div 2 ^ n mod 256"
proof -
  have "uint (- v) = take_bit 64 (- uint v)" by (simp add: uint_word_ariths take_bit_eq_mod)
  then have "uint (take_bit 8 (drop_bit n (- v))) = take_bit 8 (drop_bit n (take_bit 64 (- uint v)))"
    by (simp only: unsigned_take_bit_eq unsigned_drop_bit_eq) 
      (simp add: take_bit_drop_bit take_bit_take_bit min_def)
  also have "\<dots> = take_bit 8 (drop_bit n (- uint v))"
    using assms by (simp add: take_bit_drop_bit take_bit_take_bit min_def)
  finally show ?thesis by (simp add: take_bit_eq_mod drop_bit_eq_div)
qed

lemma pred_div:
  fixes x p :: int
  assumes p: "0 < p"
  shows "(x - 1) div p = (if x mod p = 0 then x div p - 1 else x div p)"
proof (cases "x mod p = 0")
  case True
  then obtain q where x: "x = p * q" by auto
  have "x - 1 = (p - 1) + p * (q - 1)" by (simp add: x algebra_simps)
  then have "(x - 1) div p = ((p - 1) + p * (q - 1)) div p" by (rule arg_cong)
  also have "\<dots> = (q - 1) + (p - 1) div p" using p by (intro div_mult_self2) simp
  also have "(p - 1) div p = 0" using p by (intro div_pos_pos_trivial) auto
  finally show ?thesis using True p by (simp add: x)
next
  case False
  have r: "0 \<le> x mod p" "x mod p < p" using p by simp_all
  have "x - 1 = (x mod p - 1) + p * (x div p)" using mult_div_mod_eq [of p x] by linarith
  then have "(x - 1) div p = ((x mod p - 1) + p * (x div p)) div p" by (rule arg_cong)
  also have "\<dots> = x div p + (x mod p - 1) div p" using p by (intro div_mult_self2) simp
  also have "(x mod p - 1) div p = 0" using r False by (intro div_pos_pos_trivial) auto
  finally show ?thesis using False by simp
qed

lemma neg_half:
  fixes V :: int
  shows "even V \<Longrightarrow> (- V) div 2 = - (V div 2)" "odd V \<Longrightarrow> (- V) div 2 = - (V div 2) - 1"
  by presburger+

lemma odd_mod_one:
  fixes V p :: int
  assumes "0 < p"
  shows "even V \<Longrightarrow> V mod (2 * p) \<noteq> 1" "odd V \<Longrightarrow> V mod (2 * p) = 1 \<longleftrightarrow> - (V div 2) mod p = 0"
proof -
  assume e: "even V"
  then have "even (V mod (2 * p))" by (simp add: dvd_mod)
  then show "V mod (2 * p) \<noteq> 1" by (metis odd_one)
next
  assume "odd V"
  then have V: "V = 1 + 2 * (V div 2)" by presburger
  have "V mod (2 * p) = 1 + 2 * (V div 2 mod p)"
    using pos_zmod_mult_2 [of p "V div 2"] assms by (subst V) simp
  moreover have "- (V div 2) mod p = 0 \<longleftrightarrow> V div 2 mod p = 0" by (simp flip: dvd_eq_mod_eq_0)
  ultimately show "V mod (2 * p) = 1 \<longleftrightarrow> - (V div 2) mod p = 0" by simp
qed

lemma neg_half_byte:
  fixes V p :: int
  assumes p: "0 < p"
  shows "(- (V div 2)) div p mod 256 = (- V) div (2 * p) mod 256 \<longleftrightarrow> V mod (2 * p) \<noteq> 1"
proof -
  have nV: "(- V) div (2 * p) = ((- V) div 2) div p" using zdiv_zmult2_eq [of p "- V" 2] p by simp
  have step: "q mod 256 \<noteq> (q - 1) mod 256" for q :: int by (simp add: mod_eq_dvd_iff)
  show ?thesis
  proof (cases "even V")
    case True
    then show ?thesis by (simp only: nV neg_half(1) odd_mod_one(1) [OF p] simp_thms)
  next
    case False
    show ?thesis
      unfolding nV neg_half(2) [OF False] odd_mod_one(2) [OF p False] pred_div [OF p]
      using step [of "- (V div 2) div p"] by simp
  qed
qed

lemma neg_pm_byte_iff:
  assumes "n \<le> 16"
  shows "take_bit 8 (drop_bit n (- drop_bit 1 v)) = take_bit 8 (drop_bit (Suc n) (- v :: u64))
     \<longleftrightarrow> take_bit (Suc n) v \<noteq> 1"
proof -
  have "uint (drop_bit 1 v) = uint v div 2" by (simp add: drop_bit_eq_div uint_div)
  moreover have "take_bit (Suc n) v = 1 \<longleftrightarrow> uint v mod (2 * 2 ^ n) = 1"
    by (simp only: word_uint_eq_iff unsigned_take_bit_eq) (simp add: take_bit_eq_mod)
  ultimately show ?thesis
    using neg_half_byte [of "2 ^ n" "uint v"] assms
    by (simp add: word_uint_eq_iff [of "take_bit 8 _"] uint_byte_neg del: unsigned_take_bit_eq)
qed

section \<open>The kind table\<close>

lemma getFixupKindInfo_target:
  "i < 34 \<Longrightarrow> getFixupKindInfo (target_fixup_kinds ! i) = Inr (Infos ! i)"
proof -
  assume i: "i < 34"
  have d: "set generic_fixup_kinds \<inter> set target_fixup_kinds = {}"
    by (simp add: generic_fixup_kinds_def target_fixup_kinds_def)
  have l: "length target_fixup_kinds = 34" by (simp add: target_fixup_kinds_def)
  have "target_fixup_kinds ! i \<in> set target_fixup_kinds" using i l by simp
  with d have "fixup_value (target_fixup_kinds ! i) = FirstTargetFixupKind + i"
    using i l by (auto simp: fixup_value_def position_nth distinct_target_fixup_kinds)
  then show ?thesis
    using i by (simp add: getFixupKindInfo_def getNumFixupKinds_def NumTargetFixupKinds_eq)
qed

lemmas kind_tables =
  getFixupKindInfo_def base_getFixupKindInfo_def getNumFixupKinds_def NumTargetFixupKinds_eq
  FirstTargetFixupKind_def fixup_value_def generic_fixup_kinds_def target_fixup_kinds_def

lemma info_sel [simp]:
  "Name (info n off sz pc) = n" "TargetOffset (info n off sz pc) = off"
  "TargetSize (info n off sz pc) = sz" "FKF_IsPCRel (info n off sz pc) = pc"
  by (simp_all add: info_def)

lemma kind_infos:
  "getFixupKindInfo fixup_7_pcrel = Inr (info ''fixup_7_pcrel'' 3 7 True)"
  "getFixupKindInfo fixup_13_pcrel = Inr (info ''fixup_13_pcrel'' 0 12 True)"
  "getFixupKindInfo fixup_16 = Inr (info ''fixup_16'' 0 16 False)"
  "getFixupKindInfo fixup_call = Inr (info ''fixup_call'' 0 22 False)"
  "getFixupKindInfo fixup_6_adiw = Inr (info ''fixup_6_adiw'' 0 6 False)"
  "getFixupKindInfo fixup_port5 = Inr (info ''fixup_port5'' 3 5 False)"
  "getFixupKindInfo fixup_port6 = Inr (info ''fixup_port6'' 0 16 False)"
  "getFixupKindInfo fixup_ldi = Inr (info ''fixup_ldi'' 0 8 False)"
  by (simp_all add: kind_tables Infos_def)

lemma kind_infos_ldi:
  assumes "getFixupKind k neg = Inr fk"
  shows "\<exists>i. getFixupKindInfo fk = Inr i \<and> TargetOffset i = 0 \<and> TargetSize i = 8"
  using assms
  by (cases k; cases neg) (auto simp: getFixupKind_def kind_tables Infos_def)

section \<open>Combining bytes\<close>

lemma length_or_bytes [simp]: "length (or_bytes V off i n D) = length D"
  by (induction n arbitrary: i D) (simp_all add: Let_def)

text \<open>
  Byte \<open>j\<close> of the result is the old byte, joined with the matching byte of the value
  exactly when \<open>j\<close> lies in the window that the loop writes.
\<close>

lemma nth_or_bytes:
  "off + i + n \<le> length D \<Longrightarrow> j < length D \<Longrightarrow>
   or_bytes V off i n D ! j =
     (if off + i \<le> j \<and> j < off + i + n
      then D ! j OR ucast (take_bit 8 (drop_bit ((j - off) * 8) V)) else D ! j)"
proof (induction n arbitrary: i D)
  case 0
  then show ?case by auto
next
  case (Suc n)
  let ?D = "D[off + i := (D ! (off + i)) OR ucast (take_bit 8 (drop_bit (i * 8) V))]"
  have "or_bytes V off i (Suc n) D = or_bytes V off (Suc i) n ?D"
    by (simp add: and_mask8)
  moreover have "or_bytes V off (Suc i) n ?D ! j =
      (if off + Suc i \<le> j \<and> j < off + Suc i + n
       then ?D ! j OR ucast (take_bit 8 (drop_bit ((j - off) * 8) V)) else ?D ! j)"
    using Suc.prems by (intro Suc.IH) simp_all
  ultimately show ?case
    using Suc.prems by (cases "j = off + i") (auto simp: nth_list_update)
qed

lemma round_up_bytes:
  "(n + 7) div 8 = n div 8 + (if n mod 8 = 0 then 0 else 1)" for n :: nat
proof -
  have "n mod 8 < 8" by simp
  then have "(n mod 8 + 7) div 8 = (if n mod 8 = 0 then 0 else 1)"
    by (cases "n mod 8 = 0") (auto intro!: div_nat_eqI)
  then show ?thesis by (simp add: div_add1_eq [of n 7 8])
qed

lemma applyFixup_cases:
  assumes "adjustFixupValue (getKind F) symA V True = Inr W"
    and "getFixupKindInfo (getKind F) = Inr Info"
    and "NumBits = TargetSize Info + TargetOffset Info"
    and "NumBytes = (NumBits + 7) div 8"
  shows "applyFixup F symA D V =
    (if W = 0 then Inr D
     else if unat (getOffset F) + NumBytes \<le> length D
     then Inr (or_bytes (push_bit (TargetOffset Info) W) (unat (getOffset F)) 0 NumBytes D)
     else Inl (Assertion ''Invalid fixup offset!''))"
proof -
  have "NumBits div 8 + (if NumBits mod 8 = 0 then 0 else 1) = (NumBits + 7) div 8"
    by (cases "NumBits mod 8 = 0") (simp_all add: round_up_bytes)
  then show ?thesis
    using assms by (simp add: applyFixup_def Let_def asserting_def)
qed

text \<open>
  Property C33. \<open>applyFixup\<close> only touches the bytes that the fixup covers: when it
  succeeds the fragment keeps its length, every byte outside the window of
  \<open>TargetOffset + TargetSize\<close> bits from the fixup's offset is unchanged, and every byte
  inside it is the old byte joined with the matching byte of the adjusted value, shifted by
  the kind's \<open>TargetOffset\<close>.
\<close>

theorem applyFixup_window:
  assumes "applyFixup F symA D V = Inr D'"
  shows "\<exists>W Info. adjustFixupValue (getKind F) symA V True = Inr W
    \<and> getFixupKindInfo (getKind F) = Inr Info \<and> length D' = length D
    \<and> (\<forall>j < length D. D' ! j =
         (if unat (getOffset F) \<le> j
             \<and> j < unat (getOffset F) + (TargetSize Info + TargetOffset Info + 7) div 8
          then D ! j OR ucast (take_bit 8 (drop_bit ((j - unat (getOffset F)) * 8)
                 (push_bit (TargetOffset Info) W)))
          else D ! j))"
proof -
  from assms obtain W where W: "adjustFixupValue (getKind F) symA V True = Inr W"
    by (auto simp: applyFixup_def outcome_inv)
  then obtain Info where I: "getFixupKindInfo (getKind F) = Inr Info"
    unfolding adjustFixupValue_def obind_eq_Inr by blast
  note c = applyFixup_cases [OF W I refl refl, of D]
  show ?thesis
  proof (cases "W = 0")
    case True
    with assms c have "D' = D" by simp
    with W I True show ?thesis by (intro exI [of _ W] exI [of _ Info]) simp
  next
    case False
    with assms c W I show ?thesis
      by (intro exI [of _ W] exI [of _ Info]) (auto simp: nth_or_bytes split: if_splits)
  qed
qed

theorem applyFixup_window_witness:
  "\<exists>W. adjustFixupValue fixup_6_adiw None 0x25 True = Inr W
    \<and> [0x55, 0x85, (0x77 :: u8)] ! 1 = 0 OR ucast (take_bit 8 W)"
proof -
  let ?F = "\<lparr>getOffset = 1, getValue = MCConstantExpr 0x25, getKind = fixup_6_adiw\<rparr>"
  let ?D = "[0x55, 0, (0x77 :: u8)]"
  have "uint (0x25 :: u64) < 2 ^ 6" by simp
  then have w: "unsigned_width 6 0x25 d ctx = Inr ()" for d ctx by (intro unsigned_width_ok) simp_all
  have "applyFixup ?F None ?D 0x25 = Inr [0x55, 0x85, 0x77]"
    by (simp add: applyFixup_def adjustFixupValue_def kind_infos adjust_fixup_6_adiw_def w)
  from applyFixup_window [OF this] obtain W Info where
    W: "adjustFixupValue (getKind ?F) None 0x25 True = Inr W" "getFixupKindInfo (getKind ?F) = Inr Info"
    and j: "\<forall>j < length ?D. [0x55, 0x85, 0x77] ! j =
         (if unat (getOffset ?F) \<le> j
             \<and> j < unat (getOffset ?F) + (TargetSize Info + TargetOffset Info + 7) div 8
          then ?D ! j OR ucast (take_bit 8 (drop_bit ((j - unat (getOffset ?F)) * 8)
                 (push_bit (TargetOffset Info) W)))
          else ?D ! j)"
    by blast
  have "TargetSize Info = 6" "TargetOffset Info = 0" using W(2) by (auto simp: kind_infos)
  with W(1) j [rule_format, of 1] show ?thesis by simp
qed

section \<open>Which kinds can be adjusted\<close>

text \<open>The kinds for which the switch has a case that computes a value.\<close>

definition adjustable_kinds :: "fixup_kind list" where
  "adjustable_kinds =
     [fixup_7_pcrel, fixup_13_pcrel, fixup_call, fixup_ldi,
      fixup_lo8_ldi, fixup_lo8_ldi_pm, fixup_hi8_ldi, fixup_hi8_ldi_pm,
      fixup_hh8_ldi, fixup_hh8_ldi_pm, fixup_ms8_ldi,
      fixup_lo8_ldi_neg, fixup_lo8_ldi_pm_neg, fixup_hi8_ldi_neg, fixup_hi8_ldi_pm_neg,
      fixup_hh8_ldi_neg, fixup_hh8_ldi_pm_neg, fixup_ms8_ldi_neg,
      fixup_16, fixup_6_adiw, fixup_port5, fixup_port6, FK_Data_2, FK_Data_4, FK_Data_8]"

text \<open>
  Exactly the target kinds of \<open>adjustable_kinds\<close> are handled: every other
  target kind, among them \<open>fixup_6\<close>, which the code emitter attaches to displacement
  operands, and \<open>fixup_32\<close>, stops at \<open>unhandled fixup\<close> whatever the value is, while a
  handled kind accepts the value 2.
\<close>

theorem adjustable_target_kinds:
  "k \<in> set target_fixup_kinds \<Longrightarrow>
   (if k \<in> set adjustable_kinds then \<exists>W. adjustFixupValue k None 2 ctx = Inr W
    else \<forall>symA V. adjustFixupValue k symA V ctx = Inl (Unreachable ''unhandled fixup''))"
  by (cases k) (simp_all add: adjustable_kinds_def adjustFixupValue_def kind_tables Infos_def
    adjust_fixup_7_pcrel_def adjust_fixup_13_pcrel_def adjustRelativeBranch_def
    adjust_fixup_call_def adjustBranch_def adjust_fixup_6_adiw_def adjust_fixup_port5_def adjust_fixup_port6_def
    signed_width_ok unsigned_width_ok ldi_kind_def Let_def)

theorem adjustable_target_kinds_witness:
  "adjustFixupValue fixup_6 None 5 True = Inl (Unreachable ''unhandled fixup'')"
  using adjustable_target_kinds [of fixup_6 True]
  by (simp add: target_fixup_kinds_def adjustable_kinds_def)

section \<open>Modifiers and fixups compute the same byte\<close>

fun is_pm :: "VariantKind \<Rightarrow> bool" where
  "is_pm VK_SNES_PM_LO8 = True"
| "is_pm VK_SNES_PM_HI8 = True"
| "is_pm VK_SNES_PM_HH8 = True"
| "is_pm _ = False"

lemma adjust_ldi_kinds:
  "adjustFixupValue fixup_lo8_ldi None V ctx = Inr (ldi_fixup (take_bit 8 V))"
  "adjustFixupValue fixup_hi8_ldi None V ctx = Inr (ldi_fixup (take_bit 8 (drop_bit 8 V)))"
  "adjustFixupValue fixup_hh8_ldi None V ctx = Inr (ldi_fixup (take_bit 8 (drop_bit 16 V)))"
  "adjustFixupValue fixup_ms8_ldi None V ctx = Inr (ldi_fixup (take_bit 8 (drop_bit 24 V)))"
  "adjustFixupValue fixup_lo8_ldi_neg None V ctx = Inr (ldi_fixup (take_bit 8 (- V)))"
  "adjustFixupValue fixup_hi8_ldi_neg None V ctx = Inr (ldi_fixup (take_bit 8 (drop_bit 8 (- V))))"
  "adjustFixupValue fixup_hh8_ldi_neg None V ctx = Inr (ldi_fixup (take_bit 8 (drop_bit 16 (- V))))"
  "adjustFixupValue fixup_ms8_ldi_neg None V ctx = Inr (ldi_fixup (take_bit 8 (drop_bit 24 (- V))))"
  "adjustFixupValue fixup_lo8_ldi_pm None V ctx = Inr (ldi_fixup (take_bit 8 (drop_bit 1 V)))"
  "adjustFixupValue fixup_hi8_ldi_pm None V ctx = Inr (ldi_fixup (take_bit 8 (drop_bit 9 V)))"
  "adjustFixupValue fixup_hh8_ldi_pm None V ctx = Inr (ldi_fixup (take_bit 8 (drop_bit 17 V)))"
  "adjustFixupValue fixup_lo8_ldi_pm_neg None V ctx = Inr (ldi_fixup (take_bit 8 (- drop_bit 1 V)))"
  "adjustFixupValue fixup_hi8_ldi_pm_neg None V ctx
     = Inr (ldi_fixup (take_bit 8 (drop_bit 8 (- drop_bit 1 V))))"
  "adjustFixupValue fixup_hh8_ldi_pm_neg None V ctx
     = Inr (ldi_fixup (take_bit 8 (drop_bit 16 (- drop_bit 1 V))))"
  by (simp_all add: adjustFixupValue_def kind_tables Infos_def ldi_kind_def ldi_parts adjust_pm_def
    ldi_neg_def)

lemma adjust_modifier:
  assumes "getFixupKind k neg = Inr fk" and "\<not> (neg \<and> is_pm k)"
  shows "adjustFixupValue fk None v ctx
    = Inr (ldi_fixup (take_bit 8 (drop_bit (modifier_shift k) (if neg then - v else v))))"
  using assms by (cases k; cases neg) (auto simp: getFixupKind_def adjust_ldi_kinds)

lemma adjust_modifier_neg_pm:
  assumes "getFixupKind k True = Inr fk" and "is_pm k"
  shows "adjustFixupValue fk None v ctx
    = Inr (ldi_fixup (take_bit 8 (drop_bit (modifier_shift k - 1) (- drop_bit 1 v))))"
  using assms by (cases k) (auto simp: getFixupKind_def adjust_ldi_kinds)

lemma getFixupKind_ok: "k \<noteq> VK_SNES_None \<Longrightarrow> \<exists>fk. getFixupKind k neg = Inr fk"
  by (cases k) (simp_all add: getFixupKind_def)

lemma pm_shift: "is_pm k \<Longrightarrow> modifier_shift k = Suc (modifier_shift k - 1) \<and> modifier_shift k - 1 \<le> 16"
  by (cases k) simp_all

section \<open>Relative branches\<close>

lemma take_uint_sint:
  "n \<le> 64 \<Longrightarrow> take_bit n (uint (W :: u64)) = take_bit n (sint W)"
  by (simp add: uint_sint min_def)

lemma adjustRelativeBranch_ok:
  assumes "Size < 63" and "- (2 ^ Size) \<le> sint V" and "sint V < 2 ^ Size"
  shows "adjustRelativeBranch Size V ctx = Inr (drop_bit 1 (V - 2))"
  using assms by (simp add: adjustRelativeBranch_def signed_width_ok adjustBranchTarget_def)

lemma branch_field_uint:
  assumes "- 4096 \<le> sint V" and "sint V < 4096" and "w \<le> 12"
  shows "uint (take_bit w (drop_bit 1 (V - 2 :: u64))) = take_bit w ((sint V - 2) div 2)"
proof -
  have "sint (word_of_int (sint V - 2) :: u64) = sint V - 2"
    using assms by (intro sint_of_int_u64) simp_all
  then have s: "sint (V - 2) = sint V - 2" by simp
  have "uint (take_bit w (drop_bit 1 (V - 2))) = take_bit w (drop_bit 1 (uint (V - 2)))"
    using uint_lt2p [of "V - 2"]
    by (simp add: unsigned_take_bit_eq unsigned_drop_bit_eq take_bit_int_eq_self)
  also have "\<dots> = drop_bit 1 (take_bit (Suc w) (uint (V - 2)))"
    by (simp add: take_bit_drop_bit)
  also have "\<dots> = drop_bit 1 (take_bit (Suc w) (sint (V - 2)))"
    using assms(3) by (subst take_uint_sint) simp_all
  also have "\<dots> = take_bit w (drop_bit 1 (sint V - 2))"
    by (simp add: take_bit_drop_bit s)
  finally show ?thesis by (simp add: drop_bit_eq_div)
qed

lemma branch_field:
  fixes v :: int
  assumes "- 4096 \<le> v" "v < 4096" and w: "w = 7 \<or> w = 12" and r: "- (2 ^ w) \<le> v" "v < 2 ^ w"
  shows "2 * signed_take_bit (w - 1) (take_bit w ((v - 2) div 2))
    = v - 2 - v mod 2 + (if v < 2 - 2 ^ w then 2 ^ (w + 1) else 0)"
proof -
  have d: "2 * ((v - 2) div 2) = v - 2 - v mod 2" by presburger
  have s: "signed_take_bit (w - 1) (take_bit w x) = signed_take_bit (w - 1) x" for x :: int
    using w by (auto simp: signed_take_bit_take_bit)
  show ?thesis
  proof (cases "v < 2 - 2 ^ w")
    case True
    have "(v - 2) div 2 = 2 ^ (w - 1) - 1 - 2 ^ w"
      using True r w by (elim disjE) auto
    moreover have "signed_take_bit (w - 1) (2 ^ (w - 1) - 1 - 2 ^ w :: int) = 2 ^ (w - 1) - 1"
      using w by (elim disjE) (simp_all add: signed_take_bit_eq_take_bit_shift take_bit_eq_mod)
    ultimately show ?thesis unfolding s using True d w by (elim disjE) simp_all
  next
    case False
    then have "signed_take_bit (w - 1) ((v - 2) div 2) = (v - 2) div 2"
      using r w by (elim disjE) (auto intro!: signed_take_bit_int_eq_self)
    with False d show ?thesis unfolding s by simp
  qed
qed

lemma signed_width_fails:
  "0 < w \<Longrightarrow> w < 64 \<Longrightarrow> \<not> (- (2 ^ (w - 1)) \<le> sint V \<and> sint V < 2 ^ (w - 1))
   \<Longrightarrow> \<exists>msg. signed_width w V d ctx = report ctx msg"
  by (auto simp: signed_width_def width_tests minIntN_def maxIntN_def)

text \<open>
  Property C35. The displacement \<open>V\<close> of a relative branch, counted from the branch, is
  accepted exactly when it lies between \<open>- 2 ^ w\<close> and \<open>2 ^ w - 1\<close>, for the field of 7 bits
  of \<open>fixup_7_pcrel\<close> and the one of 12 bits of \<open>fixup_13_pcrel\<close>; otherwise it is reported.
  Read as a signed number, the field of an accepted displacement is the number of words from
  the next instruction, \<open>(V - 2) / 2\<close>, where an odd displacement loses its last bit. The two
  lowest displacements are the exception: for them the field wraps around to the highest
  value, because 2 is subtracted after the range was checked.
\<close>

theorem pcrel_field_encodes_displacement:
  assumes "k = fixup_7_pcrel \<and> w = 7 \<or> k = fixup_13_pcrel \<and> w = 12"
  shows "if - (2 ^ w) \<le> sint V \<and> sint V < 2 ^ w
    then \<exists>F. adjustFixupValue k None V ctx = Inr F \<and> uint F < 2 ^ w
      \<and> 2 * signed_take_bit (w - 1) (uint F)
          = sint V - 2 - sint V mod 2 + (if sint V < 2 - 2 ^ w then 2 ^ (w + 1) else 0)
    else \<exists>msg. adjustFixupValue k None V ctx = report ctx msg"
proof (cases "- (2 ^ w) \<le> sint V \<and> sint V < 2 ^ w")
  case True
  let ?F = "take_bit w (drop_bit 1 (V - 2))"
  have w: "w = 7 \<or> w = 12" using assms by auto
  have b: "- 4096 \<le> sint V" "sint V < 4096" "w \<le> 12" using w True by auto
  have "adjustFixupValue k None V ctx = Inr ?F"
    using assms True
    by (auto simp: adjustFixupValue_def kind_infos adjust_fixup_7_pcrel_def
      adjust_fixup_13_pcrel_def adjustRelativeBranch_ok take_bit_eq_mask mask_eq_exp_minus_1)
  moreover have u: "uint ?F = take_bit w ((sint V - 2) div 2)" by (rule branch_field_uint [OF b])
  moreover have "uint ?F < 2 ^ w" unfolding u by simp
  ultimately show ?thesis using True branch_field [OF b(1,2) w] by simp
next
  case False
  from assms have "\<exists>msg. signed_width (w + 1) V ''branch target'' ctx = report ctx msg"
    using False by (intro signed_width_fails) auto
  then have "\<exists>msg. adjustFixupValue k None V ctx = report ctx msg"
    using assms
    by (elim disjE exE conjE) (simp_all add: adjustFixupValue_def kind_infos adjust_fixup_7_pcrel_def
      adjust_fixup_13_pcrel_def adjustRelativeBranch_def report_def)
  with False show ?thesis by (simp only: if_False)
qed

theorem pcrel_field_encodes_displacement_witness:
  "(\<exists>F. adjustFixupValue fixup_7_pcrel None (- 10) True = Inr F
      \<and> 2 * signed_take_bit 6 (uint F) = - 12)
   \<and> (\<exists>F. adjustFixupValue fixup_13_pcrel None (- 4096) True = Inr F
      \<and> signed_take_bit 11 (uint F) = 2047)"
proof -
  have "sint (- 10 :: u64) = - 10" "sint (- 4096 :: u64) = - 4096" by simp_all
  then show ?thesis
    using pcrel_field_encodes_displacement [of fixup_7_pcrel 7 "- 10" True]
      pcrel_field_encodes_displacement [of fixup_13_pcrel 12 "- 4096" True] by auto
qed

section \<open>The call fixup\<close>

text \<open>
  The layout that the comment of \<open>fixup_call\<close> gives for a word address:
  \<open>1001 kkkk 010k kkkk kkkk kkkk 111k kkkk\<close>, the topmost bits first.
\<close>

definition call_layout :: "u64 \<Rightarrow> u64" where
  "call_layout a = take_bit 5 a OR push_bit 8 (take_bit 13 (drop_bit 5 a))
     OR push_bit 24 (take_bit 4 (drop_bit 18 a))"

lemma call_masks:
  "push_bit 6 (0xf00000 :: u64) = push_bit 26 (mask 4)" "push_bit 5 (0x1ffff :: u64) = push_bit 5 (mask 17)"
  "(0x1f :: u64) = mask 5"
  by (simp_all add: mask_eq_exp_minus_1)

lemma adjust_call:
  assumes "uint V < 2 ^ 23"
  shows "adjustFixupValue fixup_call None V ctx
    = Inr (take_bit 5 (drop_bit 1 V) OR push_bit 8 (take_bit 17 (drop_bit 6 V)))"
proof -
  let ?a = "drop_bit 1 V"
  have V: "V = take_bit 23 V" using assms uint_bound_take_bit [of V 23] by simp
  have "?a AND push_bit 26 (mask 4) = 0"
    by (subst V, intro bit_word_eqI) (auto simp: bit_simps)
  moreover have "8 \<le> n \<Longrightarrow> Suc (n - 3) = n - 2" for n :: nat by simp
  then have "push_bit 3 (?a AND push_bit 5 (mask 17)) = push_bit 8 (take_bit 17 (drop_bit 6 V))"
    by (intro bit_word_eqI) (auto simp: bit_simps)
  ultimately show ?thesis
    using assms
    by (simp add: adjustFixupValue_def kind_infos adjust_fixup_call_def adjustBranch_def
      unsigned_width_ok adjustBranchTarget_def call_masks take_bit_eq_mask or.commute
      del: push_bit_numeral push_bit_and)
qed

lemma call_low:
  "uint a < 2 ^ 18 \<Longrightarrow> take_bit 5 a OR push_bit 8 (take_bit 17 (drop_bit 5 a)) = call_layout a"
proof -
  assume "uint a < 2 ^ 18"
  then have a: "take_bit 18 a = a" by (rule uint_bound_take_bit)
  have "drop_bit 18 a = 0"
    by (subst a [symmetric], intro bit_word_eqI) (auto simp: bit_simps)
  moreover have "take_bit 17 (drop_bit 5 a) = take_bit 13 (drop_bit 5 a)"
    by (subst (1 2) a [symmetric], intro bit_word_eqI) (auto simp: bit_simps)
  ultimately show ?thesis by (simp add: call_layout_def)
qed

lemma call_high:
  assumes "take_bit 5 a OR push_bit 8 (take_bit 17 (drop_bit 5 a)) = call_layout a"
    and "take_bit 22 a = a"
  shows "take_bit 18 a = a"
proof -
  have b: "bit (take_bit 5 a OR push_bit 8 (take_bit 17 (drop_bit 5 a))) n = bit (call_layout a) n" for n
    using assms(1) by simp
  have l: "\<not> bit a 18" "\<not> bit a 19" "\<not> bit a 20"
    using b [of 21] b [of 22] b [of 23] by (simp_all add: call_layout_def bit_simps)
  then have "\<not> bit a 21" using b [of 24] by (simp add: call_layout_def bit_simps)
  moreover have "n < 22 \<Longrightarrow> n < 18 \<or> n = 18 \<or> n = 19 \<or> n = 20 \<or> n = 21" for n :: nat
    by linarith
  ultimately have "bit a n \<Longrightarrow> n < 22 \<Longrightarrow> n < 18" for n using l by blast
  then have "bit (take_bit 22 a) n \<Longrightarrow> n < 18" for n by (simp add: bit_simps)
  then show ?thesis
    by (subst (1 2) assms(2) [symmetric], intro bit_word_eqI) (auto simp: bit_simps)
qed

lemma adjust_call_out_of_range:
  "\<not> uint V < 2 ^ 23 \<Longrightarrow> \<exists>msg. adjustFixupValue fixup_call None V True = Inl (FatalError msg)"
proof -
  assume V: "\<not> uint V < 2 ^ 23"
  then have "unsigned_width 23 V ''branch target'' True = Inl (FatalError
      (''out of range branch target (expected an integer in the range 0 to '' @ to_string (sint (mask 23 :: u64)) @ '')''))"
    by (simp add: unsigned_width_def isUIntN_iff maxUIntN_value report_def del: of_nat_numeral)
  then show ?thesis
    by (simp add: adjustFixupValue_def kind_infos adjust_fixup_call_def adjustBranch_def)
qed

text \<open>
  Property C36. The call fixup rejects a target of more than 23 bits; for the others the
  word address lands in the instruction as the comment of \<open>fixup_call\<close> lays it out if and
  only if it has at most 18 bits, because the mask of the top four bits selects nothing and
  these bits stay next to the middle field.
\<close>

theorem call_fixup_layout:
  "(if uint V < 2 ^ 23
    then \<exists>F. adjustFixupValue fixup_call None V True = Inr F
      \<and> (F = call_layout (drop_bit 1 V) \<longleftrightarrow> uint V < 2 ^ 19)
    else \<exists>msg. adjustFixupValue fixup_call None V True = Inl (FatalError msg))"
proof (cases "uint V < 2 ^ 23")
  case True
  let ?a = "drop_bit 1 V"
  have u: "uint ?a = uint V div 2"
    by (simp add: drop_bit_eq_div uint_div)
  have t22: "take_bit 22 ?a = ?a" using True u by (intro uint_bound_take_bit) simp
  moreover have "uint (take_bit 18 ?a) < 2 ^ 18"
    by (simp only: unsigned_take_bit_eq take_bit_int_less_exp)
  then have t18: "take_bit 18 ?a = ?a \<longleftrightarrow> uint ?a < 2 ^ 18"
    using uint_bound_take_bit [of ?a 18] by metis
  then have "take_bit 5 ?a OR push_bit 8 (take_bit 17 (drop_bit 5 ?a)) = call_layout ?a
      \<longleftrightarrow> uint ?a < 2 ^ 18"
    using call_low [of ?a] call_high [OF _ t22] by blast
  moreover have "uint ?a < 2 ^ 18 \<longleftrightarrow> uint V < 2 ^ 19" using u by auto
  ultimately show ?thesis
    using True by (simp add: adjust_call)
next
  case False
  then show ?thesis by (simp add: adjust_call_out_of_range)
qed

section \<open>What reaches the instruction\<close>

lemma or_bytes_one:
  "off < length D \<Longrightarrow> or_bytes U off 0 1 D = D[off := D ! off OR ucast (take_bit 8 U)]"
  by (simp add: and_mask8)

lemma ldi_low_byte: "take_bit 8 (ldi_fixup b) = take_bit 4 b"
  unfolding ldi_fixup_alt by (intro bit_word_eqI) (auto simp: bit_simps)

lemma applied_ldi:
  assumes "getFixupKind k neg = Inr (getKind F)"
    and W: "adjustFixupValue (getKind F) None v True = Inr (ldi_fixup b)"
    and "applyFixup F None D v = Inr D'"
  shows "D' = D[unat (getOffset F) := D ! unat (getOffset F) OR ucast (take_bit 4 b)]"
proof -
  let ?off = "unat (getOffset F)"
  obtain i where i: "getFixupKindInfo (getKind F) = Inr i" "TargetOffset i = 0" "TargetSize i = 8"
    using kind_infos_ldi [OF assms(1)] by blast
  note c = applyFixup_cases [OF W i(1) refl refl, of D]
  show ?thesis
  proof (cases "ldi_fixup b = 0")
    case True
    then have "take_bit 4 b = 0" using ldi_low_byte [of b] by simp
    with True c assms(3) show ?thesis by simp
  next
    case False
    with c assms(3) i have "?off < length D" "D' = or_bytes (ldi_fixup b) ?off 0 1 D"
      by (auto split: if_splits)
    then show ?thesis using or_bytes_one [of ?off D "ldi_fixup b"] ldi_low_byte [of b] by (simp only:)
  qed
qed



text \<open>
  The five-bit port number is shifted twice, by \<open>fixup_port5\<close> and again by the kind's
  \<open>TargetOffset\<close>, so only its two low bits arrive.
\<close>

lemma port5_shifted_twice:
  assumes "getKind F = fixup_port5" and "applyFixup F None D V = Inr D'" and "uint V < 32" "V \<noteq> 0"
  shows "D' = D[unat (getOffset F) := D ! unat (getOffset F) OR ucast (take_bit 8 (push_bit 6 V))]"
proof -
  have V: "take_bit 5 V = V" using assms(3) by (intro uint_bound_take_bit) simp
  have m: "(0x1f :: u64) = mask 5" by (simp add: mask_eq_exp_minus_1)
  have W: "adjustFixupValue (getKind F) None V True = Inr (push_bit 3 V)"
    using assms(1,3) V
    by (simp add: adjustFixupValue_def kind_infos adjust_fixup_port5_def unsigned_width_ok m
      flip: take_bit_eq_mask)
  have "drop_bit 3 (push_bit 3 (take_bit 5 V)) = take_bit 5 V"
    by (intro bit_word_eqI) (auto simp: bit_simps)
  with V assms(4) have "push_bit 3 V \<noteq> 0" by auto
  with applyFixup_cases [OF W _ refl refl, of "info ''fixup_port5'' 3 5 False" D] assms(1,2)
  have "unat (getOffset F) < length D" "D' = or_bytes (push_bit 3 (push_bit 3 V)) (unat (getOffset F)) 0 1 D"
    by (auto simp: kind_infos split: if_splits)
  then show ?thesis using or_bytes_one [of "unat (getOffset F)" D] by simp
qed

text \<open>
  The kind table: \<open>getFixupKindInfo\<close> answers for every kind but the end
  marker, which trips its assertion; a target kind is marked PC-relative exactly when it
  is one of the two branch kinds, and these and the call are the kinds for which a
  relocation is forced.
\<close>

theorem fixup_kind_table:
  "(case getFixupKindInfo k of
      Inl e \<Rightarrow> k = LastTargetFixupKind \<and> e = Assertion ''Invalid kind!''
    | Inr i \<Rightarrow> k \<noteq> LastTargetFixupKind
        \<and> (k \<in> set target_fixup_kinds
           \<longrightarrow> shouldForceRelocation k = (FKF_IsPCRel i \<or> k = fixup_call))
        \<and> (TargetSize i + TargetOffset i + 7) div 8 \<le> 8)"
  by (cases k) (simp_all add: kind_tables Infos_def Builtins_def shouldForceRelocation_def)

theorem fixup_kind_table_witness:
  "getFixupKindInfo fixup_13_pcrel = Inr (info ''fixup_13_pcrel'' 0 12 True)
   \<and> shouldForceRelocation fixup_13_pcrel = (True \<or> fixup_13_pcrel = fixup_call)"
  using fixup_kind_table [of fixup_13_pcrel] by (simp add: kind_infos target_fixup_kinds_def)

end
