(* ===== verification/Registers.thy ===== *)
theory Registers
  imports SNES_Prelude
begin

text \<open>
  The register file of \<open>SNESRegisterInfo.td\<close> and the queries of \<open>SNESRegisterInfo.cpp\<close>
  that need no frame: classes, sub-registers, encodings, the reserved set and the split of
  a 16-bit register into its halves.
\<close>

datatype reg =
    NoRegister
  | SNES_AL | SNES_AH | SNES_XL | SNES_XH | SNES_YL | SNES_YH
  | SNES_A | SNES_X | SNES_Y
  | SNES_DB | SNES_P | SNES_PB | SNES_SP | SNES_DP | SNES_PC

text \<open>The registers in the order of their numbers, without \<open>NoRegister\<close>.\<close>

definition all_regs :: "reg list" where
  "all_regs = [SNES_A, SNES_AH, SNES_AL, SNES_DB, SNES_DP, SNES_P, SNES_PB, SNES_PC, SNES_SP,
     SNES_X, SNES_XH, SNES_XL, SNES_Y, SNES_YH, SNES_YL]"

text \<open>Registers can be enumerated, so that statements about all of them are evaluated.\<close>

instantiation reg :: enum
begin

definition enum_reg :: "reg list" where
  "enum_reg = NoRegister # all_regs"

definition enum_all_reg :: "(reg \<Rightarrow> bool) \<Rightarrow> bool" where
  "enum_all_reg P = list_all P (NoRegister # all_regs)"

definition enum_ex_reg :: "(reg \<Rightarrow> bool) \<Rightarrow> bool" where
  "enum_ex_reg P = list_ex P (NoRegister # all_regs)"

instance
proof
  have u: "UNIV = set (NoRegister # all_regs)"
  proof
    show "(UNIV :: reg set) \<subseteq> set (NoRegister # all_regs)"
    proof
      fix r :: reg
      show "r \<in> set (NoRegister # all_regs)" by (cases r) (simp_all add: all_regs_def)
    qed
  qed simp
  show "UNIV = set (enum_class.enum :: reg list)" by (simp only: enum_reg_def u)
  show "distinct (enum_class.enum :: reg list)" by (simp add: enum_reg_def all_regs_def)
  show "enum_class.enum_all P \<longleftrightarrow> Ball UNIV P" for P :: "reg \<Rightarrow> bool"
    by (simp only: enum_all_reg_def u list_all_iff)
  show "enum_class.enum_ex P \<longleftrightarrow> Bex UNIV P" for P :: "reg \<Rightarrow> bool"
    by (simp only: enum_ex_reg_def u list_ex_iff)
qed

end

definition reg_name :: "reg \<Rightarrow> string" where
  "reg_name r = (case r of
     NoRegister \<Rightarrow> ''''
   | SNES_AL \<Rightarrow> ''AL'' | SNES_AH \<Rightarrow> ''AH'' | SNES_XL \<Rightarrow> ''XL'' | SNES_XH \<Rightarrow> ''XH''
   | SNES_YL \<Rightarrow> ''YL'' | SNES_YH \<Rightarrow> ''YH'' | SNES_A \<Rightarrow> ''A'' | SNES_X \<Rightarrow> ''X'' | SNES_Y \<Rightarrow> ''Y''
   | SNES_DB \<Rightarrow> ''DB'' | SNES_P \<Rightarrow> ''P'' | SNES_PB \<Rightarrow> ''PB'' | SNES_SP \<Rightarrow> ''SP''
   | SNES_DP \<Rightarrow> ''DP'' | SNES_PC \<Rightarrow> ''PC'')"

text \<open>\<open>HWEncoding\<close> of a register.\<close>

definition getEncodingValue :: "reg \<Rightarrow> u16" where
  "getEncodingValue r = (case r of
     SNES_AL \<Rightarrow> 0 | SNES_AH \<Rightarrow> 3 | SNES_XL \<Rightarrow> 1 | SNES_XH \<Rightarrow> 4 | SNES_YL \<Rightarrow> 2 | SNES_YH \<Rightarrow> 5
   | SNES_A \<Rightarrow> 0 | SNES_X \<Rightarrow> 1 | SNES_Y \<Rightarrow> 2 | SNES_DB \<Rightarrow> 9 | SNES_P \<Rightarrow> 10 | SNES_PB \<Rightarrow> 11
   | SNES_SP \<Rightarrow> 6 | SNES_DP \<Rightarrow> 7 | SNES_PC \<Rightarrow> 8 | NoRegister \<Rightarrow> 0)"

section \<open>Classes\<close>

datatype reg_class =
    MainLoRegs | MainRegs | AccRegs | Acc8Regs | IndexRegs | IndexXRegs | IndexX8Regs
  | IndexYRegs | IndexY8Regs | DirectPageRegs | StackPointerRegs | ProgramCounterRegs
  | DataBankRegs | ProgramBankRegs | EFLAGSRegs

definition class_members :: "reg_class \<Rightarrow> reg list" where
  "class_members rc = (case rc of
     MainLoRegs \<Rightarrow> [SNES_AL, SNES_XL, SNES_YL]
   | MainRegs \<Rightarrow> [SNES_A, SNES_X, SNES_Y]
   | AccRegs \<Rightarrow> [SNES_A]
   | Acc8Regs \<Rightarrow> [SNES_AL]
   | IndexRegs \<Rightarrow> [SNES_X, SNES_Y]
   | IndexXRegs \<Rightarrow> [SNES_X]
   | IndexX8Regs \<Rightarrow> [SNES_XL]
   | IndexYRegs \<Rightarrow> [SNES_Y]
   | IndexY8Regs \<Rightarrow> [SNES_YL]
   | DirectPageRegs \<Rightarrow> [SNES_DP]
   | StackPointerRegs \<Rightarrow> [SNES_SP]
   | ProgramCounterRegs \<Rightarrow> [SNES_PC]
   | DataBankRegs \<Rightarrow> [SNES_DB]
   | ProgramBankRegs \<Rightarrow> [SNES_PB]
   | EFLAGSRegs \<Rightarrow> [SNES_P])"

definition class_contains :: "reg_class \<Rightarrow> reg \<Rightarrow> bool" where
  "class_contains rc r = (r \<in> set (class_members rc))"

datatype simple_vt = MVT_i8 | MVT_i16

definition class_type :: "reg_class \<Rightarrow> simple_vt" where
  "class_type rc =
     (if rc \<in> {MainLoRegs, Acc8Regs, IndexX8Regs, IndexY8Regs, DataBankRegs, ProgramBankRegs,
               EFLAGSRegs} then MVT_i8 else MVT_i16)"

section \<open>Register queries\<close>

definition getSubReg_lo :: "reg \<Rightarrow> reg" where
  "getSubReg_lo r = (case r of SNES_A \<Rightarrow> SNES_AL | SNES_X \<Rightarrow> SNES_XL | SNES_Y \<Rightarrow> SNES_YL
     | _ \<Rightarrow> NoRegister)"

definition getSubReg_hi :: "reg \<Rightarrow> reg" where
  "getSubReg_hi r = (case r of SNES_A \<Rightarrow> SNES_AH | SNES_X \<Rightarrow> SNES_XH | SNES_Y \<Rightarrow> SNES_YH
     | _ \<Rightarrow> NoRegister)"

definition splitReg :: "reg \<Rightarrow> (reg \<times> reg) outcome" where
  "splitReg Reg =
     asserting (class_contains MainRegs Reg) ''can only split 16-bit registers''
       (Inr (getSubReg_lo Reg, getSubReg_hi Reg))"

definition getReservedRegs :: "reg list" where
  "getReservedRegs = [SNES_DB, SNES_DP, SNES_P, SNES_PC, SNES_PB, SNES_SP]"

text \<open>\<open>CSR_Normal_SaveList\<close> of \<open>SNESCallingConv.td\<close>.\<close>

definition getCalleeSavedRegs :: "reg list" where
  "getCalleeSavedRegs = [SNES_A]"

definition getLargestLegalSuperClass :: "reg_class \<Rightarrow> reg_class outcome" where
  "getLargestLegalSuperClass RC =
     (if class_type RC = MVT_i16 then Inr MainRegs else Inl (Unreachable ''Invalid register size''))"

definition getFrameRegister :: "bool \<Rightarrow> reg" where
  "getFrameRegister hasFP = (if hasFP then SNES_Y else SNES_SP)"

definition getPointerRegClass :: "nat \<Rightarrow> reg_class" where
  "getPointerRegClass Kind = MainRegs"

section \<open>Facts\<close>

lemma class_contains_Main [simp]:
  "class_contains MainRegs r \<longleftrightarrow> r = SNES_A \<or> r = SNES_X \<or> r = SNES_Y"
  by (simp add: class_contains_def class_members_def)

lemma splitReg_simps [simp]:
  "splitReg SNES_A = Inr (SNES_AL, SNES_AH)"
  "splitReg SNES_X = Inr (SNES_XL, SNES_XH)"
  "splitReg SNES_Y = Inr (SNES_YL, SNES_YH)"
  by (simp_all add: splitReg_def getSubReg_lo_def getSubReg_hi_def)

lemma splitReg_cases:
  "splitReg r = Inr (lo, hi) \<Longrightarrow>
   (r = SNES_A \<and> lo = SNES_AL \<and> hi = SNES_AH) \<or> (r = SNES_X \<and> lo = SNES_XL \<and> hi = SNES_XH)
   \<or> (r = SNES_Y \<and> lo = SNES_YL \<and> hi = SNES_YH)"
  by (auto simp: splitReg_def asserting_eq_Inr getSubReg_lo_def getSubReg_hi_def)

text \<open>The halves of two registers are all different unless the registers are the same.\<close>

lemma splitReg_disjoint:
  "splitReg r = Inr (lo, hi) \<Longrightarrow> splitReg r' = Inr (lo', hi') \<Longrightarrow>
   lo \<noteq> hi \<and> (r = r' \<longleftrightarrow> lo = lo') \<and> (r = r' \<longleftrightarrow> hi = hi') \<and> lo \<noteq> hi' \<and> hi \<noteq> lo'"
  by (auto dest!: splitReg_cases)

lemma splitReg_ok: "class_contains MainRegs r \<Longrightarrow> \<exists>lo hi. splitReg r = Inr (lo, hi)"
  by (auto)

lemma reserved_not_allocatable:
  "r \<in> set getReservedRegs \<Longrightarrow> \<not> class_contains MainRegs r \<and> \<not> class_contains MainLoRegs r"
  by (auto simp: getReservedRegs_def class_contains_def class_members_def)

lemma all_regs_complete: "r \<noteq> NoRegister \<Longrightarrow> r \<in> set all_regs"
  by (cases r) (simp_all add: all_regs_def)

text \<open>Every register that is in a class of the register allocator has its halves or is one.\<close>

lemma allocatable_registers:
  "\<forall>r. class_contains MainRegs r \<or> class_contains MainLoRegs r \<longleftrightarrow>
     r \<noteq> NoRegister \<and> r \<notin> set getReservedRegs \<and> r \<notin> {SNES_AH, SNES_XH, SNES_YH}"
  by code_simp

end
