(* ===== verification/Machine_IR.thy ===== *)
theory Machine_IR
  imports Registers
begin

unbundle bit_operations_syntax

text \<open>
  Machine instructions as the backend's passes see them: opcodes with what
  \<open>SNESInstrInfo.td\<close> says of them (size, flags, implicit operands), operands with their
  liveness flags, and the construction of instructions with \<open>BuildMI\<close>. An instruction's
  operands are the explicit ones in the order they were added, followed by the implicit
  definitions and the implicit uses of its opcode, because \<open>MachineInstr::addOperand\<close>
  inserts an explicit operand before the implicit ones.
\<close>

section \<open>Opcodes\<close>

datatype (plugins only: code size) alu_op =
    ADDRdRr | ADCRdRr | SUBRdRr | SUBIRdK | SBCRdRr | SBCIRdK
  | ANDRdRr | ORRdRr | EORRdRr | ANDimm16 | ORAimm16
  | COMRd | CPRdRr | CPCRdRr | CPIRdK | MOVRdRr | LDIRdK
  | LSLRd | LSRRd | ASRRd | ROLRd | RORRd
  | MULRdRr | MULSRdRr | BCLRs | BSETs

datatype (plugins only: code size) mem_op =
    LDSRdK | LDRdPtr | LDRdPtrPi | LDRdPtrPd | LDDRdPtrQ
  | STSKRr | STPtrRr | STPtrPiRr | STPtrPdRr | STDPtrQRr
  | INRdA | OUTARr | PHAstk | POPRd | LPMRdZ | LPMRdZPi

datatype (plugins only: code size) wide_op =
    ADDWRdRr | ADCWRdRr | SUBWRdRr | SUBIWRdK | SBCWRdRr | SBCIWRdK
  | ANDWRdRr | ANDIWRdK | ORWRdRr | ORIWRdK | EORWRdRr | COMWRd
  | CPWRdRr | CPCWRdRr | LDIWRdK | LDSWRdK
  | LDWRdPtr | LDWRdPtrPi | LDWRdPtrPd | LDDWRdYQ | LDDWRdPtrQ | LPMWRdZ | LPMWRdZPi
  | STSWKRr | STWPtrRr | STWPtrPiRr | STWPtrPdRr | STDWPtrQRr
  | INWRdA | OUTWARr | PUSHWRr | POPWRd
  | LSLWRd | LSRWRd | RORWRd | ROLWRd | ASRWRd | SPREAD | SPWRITE

datatype (plugins only: code size) atomic_op =
    AtomicLoad8 | AtomicLoad16 | AtomicStore8 | AtomicStore16
  | AtomicLoadAdd8 | AtomicLoadAdd16 | AtomicLoadSub8 | AtomicLoadSub16
  | AtomicLoadAnd8 | AtomicLoadAnd16 | AtomicLoadOr8 | AtomicLoadOr16
  | AtomicLoadXor8 | AtomicLoadXor16 | AtomicFence

datatype (plugins only: code size) branch_op =
    BREQk | BRNEk | BRGEk | BRLTk | BRSHk | BRLOk | BRMIk | BRPLk
  | RJMPk | JMPk | IJMP | BRBSsk | BRBCsk
  | SBRCRrB | SBRSRrB | SBICAb | SBISAb

datatype (plugins only: code size) misc_op =
    CALLk | RCALLk | ICALL | RET | RETI | ADJCALLSTACKDOWN | ADJCALLSTACKUP
  | FRMIDX | STDSPQRr | STDWSPQRr | Select8 | Select16 | SEXT | ZEXT
  | Lsl8 | Lsl16 | Lsr8 | Lsr16 | Rol8 | Rol16 | Ror8 | Ror16 | Asr8 | Asr16
  | COPY | PHI | EH_LABEL | IMPLICIT_DEF | KILL | DBG_VALUE | INLINEASM
  | NOP | ADCimm16 | SBCimm16

datatype (plugins only: code size) opcode =
    Alu alu_op
  | Mem mem_op
  | Wide wide_op
  | Atomic atomic_op
  | Br branch_op
  | Misc misc_op

section \<open>Instruction descriptions\<close>

definition alu_reads_P :: "alu_op list" where
  "alu_reads_P = [ADCRdRr, SBCRdRr, SBCIRdK, CPCRdRr, ROLRd, RORRd]"

definition alu_keeps_P :: "alu_op list" where
  "alu_keeps_P = [MOVRdRr, LDIRdK]"

definition wide_writes_P :: "wide_op list" where
  "wide_writes_P =
     [ADDWRdRr, ADCWRdRr, SUBWRdRr, SUBIWRdK, SBCWRdRr, SBCIWRdK, ANDWRdRr, ANDIWRdK,
      ORWRdRr, ORIWRdK, EORWRdRr, COMWRd, CPWRdRr, CPCWRdRr, LSLWRd, LSRWRd, RORWRd, ROLWRd,
      ASRWRd]"

definition wide_reads_P :: "wide_op list" where
  "wide_reads_P = [ADCWRdRr, SBCWRdRr, SBCIWRdK, CPCWRdRr, RORWRd, ROLWRd]"

definition shift_loops :: "misc_op list" where
  "shift_loops = [Lsl8, Lsl16, Lsr8, Lsr16, Rol8, Rol16, Ror8, Ror16, Asr8, Asr16]"

definition generic_ops :: "misc_op list" where
  "generic_ops = [COPY, PHI, EH_LABEL, IMPLICIT_DEF, KILL, DBG_VALUE, INLINEASM]"

definition ImplicitDefs :: "opcode \<Rightarrow> reg list" where
  "ImplicitDefs Opc = (case Opc of
     Alu a \<Rightarrow> if a \<in> {MULRdRr, MULSRdRr} then [SNES_A, SNES_P]
              else if a \<in> set alu_keeps_P then [] else [SNES_P]
   | Mem m \<Rightarrow> if m \<in> {PHAstk, POPRd} then [SNES_SP] else if m = LPMRdZPi then [SNES_A] else []
   | Wide w \<Rightarrow> if w \<in> set wide_writes_P then [SNES_P]
               else if w \<in> {PUSHWRr, POPWRd, SPWRITE} then [SNES_SP]
               else if w \<in> {LPMWRdZ, LPMWRdZPi} then [SNES_A] else []
   | Atomic _ \<Rightarrow> []
   | Br _ \<Rightarrow> []
   | Misc c \<Rightarrow> if c \<in> {ADJCALLSTACKDOWN, ADJCALLSTACKUP} then [SNES_SP, SNES_P]
               else if c \<in> {FRMIDX, SEXT, ZEXT, ADCimm16, SBCimm16} \<union> set shift_loops then [SNES_P]
               else if c \<in> {STDSPQRr, STDWSPQRr} then [SNES_SP] else [])"

definition ImplicitUses :: "opcode \<Rightarrow> reg list" where
  "ImplicitUses Opc = (case Opc of
     Alu a \<Rightarrow> if a \<in> set alu_reads_P then [SNES_P] else []
   | Mem m \<Rightarrow> if m \<in> {PHAstk, POPRd} then [SNES_SP] else []
   | Wide w \<Rightarrow> if w \<in> set wide_reads_P then [SNES_P]
               else if w \<in> {PUSHWRr, POPWRd, SPREAD} then [SNES_SP] else []
   | Atomic _ \<Rightarrow> []
   | Br b \<Rightarrow> if b = IJMP then [SNES_A]
             else if b \<in> {RJMPk, JMPk, SBRCRrB, SBRSRrB, SBICAb, SBISAb} then [] else [SNES_P]
   | Misc c \<Rightarrow> if c \<in> {ADJCALLSTACKDOWN, ADJCALLSTACKUP, CALLk, RCALLk} then [SNES_SP]
               else if c = ICALL then [SNES_SP, SNES_A]
               else if c \<in> {Select8, Select16} then [SNES_P] else [])"

text \<open>The size in bytes of the encoding format; a pseudo instruction has the 16-bit format.\<close>

definition getSize :: "opcode \<Rightarrow> nat" where
  "getSize Opc = (case Opc of
     Alu a \<Rightarrow> if a \<in> {ANDimm16, ORAimm16} then 3 else 2
   | Mem m \<Rightarrow> if m = PHAstk then 1 else if m \<in> {LDSRdK, STSKRr} then 4 else 2
   | Wide _ \<Rightarrow> 2
   | Atomic _ \<Rightarrow> 2
   | Br b \<Rightarrow> if b = JMPk then 4 else 2
   | Misc c \<Rightarrow> if c = CALLk then 4 else if c = NOP then 1
               else if c \<in> {ADCimm16, SBCimm16} then 3
               else if c \<in> set generic_ops then 0 else 2)"

definition isTerminator :: "opcode \<Rightarrow> bool" where
  "isTerminator Opc = (case Opc of Br _ \<Rightarrow> True | Misc c \<Rightarrow> c \<in> {RET, RETI} | _ \<Rightarrow> False)"

definition isBranch :: "opcode \<Rightarrow> bool" where
  "isBranch Opc = (case Opc of Br _ \<Rightarrow> True | _ \<Rightarrow> False)"

section \<open>Operands\<close>

record reg_operand =
  RegNo :: reg
  IsDef :: bool
  IsImp :: bool
  IsKill :: bool
  IsDead :: bool

record global_value =
  gv_name :: string
  gv_is_function :: bool

datatype operand =
    MO_Register reg_operand
  | MO_Immediate u64
  | MO_FrameIndex int
  | MO_MachineBasicBlock nat
  | MO_GlobalAddress global_value u64 u8
  | MO_ExternalSymbol string u64 u8
  | MO_BlockAddress string u64 u8
  | MO_JumpTableIndex nat u8
  | MO_ConstantPoolIndex nat u64 u8
  | MO_RegisterMask

record instr =
  Opcode :: opcode
  Operands :: "operand list"
  Flags :: nat

type_synonym block = "instr list"

definition getOperand :: "instr \<Rightarrow> nat \<Rightarrow> operand outcome" where
  "getOperand MI i =
     asserting (i < length (Operands MI)) ''getOperand() out of range!'' (Inr (Operands MI ! i))"

definition wrong_accessor :: "'a outcome" where
  "wrong_accessor = Inl (Assertion ''Wrong MachineOperand accessor'')"

definition as_reg :: "operand \<Rightarrow> reg_operand outcome" where
  "as_reg MO = (case MO of MO_Register r \<Rightarrow> Inr r | _ \<Rightarrow> wrong_accessor)"

definition getReg :: "instr \<Rightarrow> nat \<Rightarrow> reg outcome" where
  "getReg MI i = obind (getOperand MI i) (\<lambda>MO. obind (as_reg MO) (\<lambda>r. Inr (RegNo r)))"

definition isDead :: "instr \<Rightarrow> nat \<Rightarrow> bool outcome" where
  "isDead MI i = obind (getOperand MI i) (\<lambda>MO. obind (as_reg MO) (\<lambda>r. Inr (IsDead r)))"

definition isKill :: "instr \<Rightarrow> nat \<Rightarrow> bool outcome" where
  "isKill MI i = obind (getOperand MI i) (\<lambda>MO. obind (as_reg MO) (\<lambda>r. Inr (IsKill r)))"

definition getImm :: "instr \<Rightarrow> nat \<Rightarrow> u64 outcome" where
  "getImm MI i = obind (getOperand MI i)
     (\<lambda>MO. case MO of MO_Immediate v \<Rightarrow> Inr v | _ \<Rightarrow> wrong_accessor)"

definition getIndex :: "instr \<Rightarrow> nat \<Rightarrow> int outcome" where
  "getIndex MI i = obind (getOperand MI i)
     (\<lambda>MO. case MO of MO_FrameIndex v \<Rightarrow> Inr v | _ \<Rightarrow> wrong_accessor)"

definition getMBB :: "instr \<Rightarrow> nat \<Rightarrow> nat outcome" where
  "getMBB MI i = obind (getOperand MI i)
     (\<lambda>MO. case MO of MO_MachineBasicBlock b \<Rightarrow> Inr b | _ \<Rightarrow> wrong_accessor)"

section \<open>Building instructions\<close>

definition implicit_def :: "reg \<Rightarrow> operand" where
  "implicit_def r = MO_Register \<lparr>RegNo = r, IsDef = True, IsImp = True, IsKill = False,
     IsDead = False\<rparr>"

definition implicit_use :: "reg \<Rightarrow> operand" where
  "implicit_use r = MO_Register \<lparr>RegNo = r, IsDef = False, IsImp = True, IsKill = False,
     IsDead = False\<rparr>"

text \<open>Explicit register operands: a plain use, a use with a kill flag, a definition.\<close>

definition use :: "reg \<Rightarrow> operand" where
  "use r = MO_Register \<lparr>RegNo = r, IsDef = False, IsImp = False, IsKill = False, IsDead = False\<rparr>"

definition use_kill :: "reg \<Rightarrow> bool \<Rightarrow> operand" where
  "use_kill r k = MO_Register \<lparr>RegNo = r, IsDef = False, IsImp = False, IsKill = k,
     IsDead = False\<rparr>"

definition def_dead :: "reg \<Rightarrow> bool \<Rightarrow> operand" where
  "def_dead r d = MO_Register \<lparr>RegNo = r, IsDef = True, IsImp = False, IsKill = False,
     IsDead = d\<rparr>"

definition def_reg :: "reg \<Rightarrow> operand" where
  "def_reg r = def_dead r False"

definition BuildMI :: "opcode \<Rightarrow> operand list \<Rightarrow> instr" where
  "BuildMI Opc ops =
     \<lparr>Opcode = Opc,
      Operands = ops @ List.map implicit_def (ImplicitDefs Opc) @ List.map implicit_use (ImplicitUses Opc),
      Flags = 0\<rparr>"

definition setMIFlags :: "nat \<Rightarrow> instr \<Rightarrow> instr" where
  "setMIFlags f MI = MI\<lparr>Flags := f\<rparr>"

definition setIsDead :: "nat \<Rightarrow> instr \<Rightarrow> instr outcome" where
  "setIsDead i MI = obind (getOperand MI i) (\<lambda>MO. case MO of
     MO_Register r \<Rightarrow> if IsDef r then Inr (MI\<lparr>Operands := (Operands MI)[i := MO_Register (r\<lparr>IsDead := True\<rparr>)]\<rparr>)
                     else Inl (Assertion ''Wrong MachineOperand mutator'')
   | _ \<Rightarrow> Inl (Assertion ''Wrong MachineOperand mutator''))"

definition setIsKill :: "nat \<Rightarrow> instr \<Rightarrow> instr outcome" where
  "setIsKill i MI = obind (getOperand MI i) (\<lambda>MO. case MO of
     MO_Register r \<Rightarrow> if \<not> IsDef r then Inr (MI\<lparr>Operands := (Operands MI)[i := MO_Register (r\<lparr>IsKill := True\<rparr>)]\<rparr>)
                     else Inl (Assertion ''Wrong MachineOperand mutator'')
   | _ \<Rightarrow> Inl (Assertion ''Wrong MachineOperand mutator''))"

text \<open>\<open>if (b) MI->getOperand(i).setIsDead()\<close>\<close>

definition setIsDead_if :: "bool \<Rightarrow> nat \<Rightarrow> instr \<Rightarrow> instr outcome" where
  "setIsDead_if b i MI = (if b then setIsDead i MI else Inr MI)"

section \<open>Function information\<close>

text \<open>\<open>SNESMachineFunctionInfo\<close>.\<close>

record function_info =
  HasSpills :: bool
  HasAllocas :: bool
  HasStackArgs :: bool
  CalleeSavedFrameSize :: nat
  VarArgsFrameIndex :: int

definition initial_function_info :: function_info where
  "initial_function_info = \<lparr>HasSpills = False, HasAllocas = False, HasStackArgs = False,
     CalleeSavedFrameSize = 0, VarArgsFrameIndex = 0\<rparr>"

section \<open>Facts\<close>

text \<open>
  What an instruction does depends on its opcode and on its operands up to the liveness
  flags: the marks that the mutators set do not count.
\<close>

definition operand_core :: "operand \<Rightarrow> operand" where
  "operand_core MO = (case MO of
     MO_Register r \<Rightarrow> MO_Register (r\<lparr>IsKill := False, IsDead := False\<rparr>) | _ \<Rightarrow> MO)"

named_theorems build_simps \<open>construction of instructions\<close>

lemma operand_core_simps [build_simps]:
  "operand_core (use r) = use r" "operand_core (use_kill r k) = use r"
  "operand_core (def_dead r d) = def_reg r" "operand_core (def_reg r) = def_reg r"
  "operand_core (implicit_def r) = implicit_def r" "operand_core (implicit_use r) = implicit_use r"
  "operand_core (MO_Immediate v) = MO_Immediate v"
  by (simp_all add: operand_core_def use_def use_kill_def def_dead_def def_reg_def implicit_def_def
    implicit_use_def)

lemma Opcode_BuildMI [simp]: "Opcode (BuildMI opc ops) = opc"
  by (simp add: BuildMI_def)

lemma Opcode_setMIFlags [simp]: "Opcode (setMIFlags f MI) = Opcode MI"
  by (simp add: setMIFlags_def)

lemma setIsDead_core:
  "setIsDead i MI = Inr MI' \<Longrightarrow>
   Opcode MI' = Opcode MI \<and> Flags MI' = Flags MI
   \<and> List.map operand_core (Operands MI') = List.map operand_core (Operands MI)"
  by (auto simp: setIsDead_def outcome_inv getOperand_def map_update operand_core_def
    split: operand.splits if_splits intro!: list_update_same_conv [THEN iffD2])

lemma setIsKill_core:
  "setIsKill i MI = Inr MI' \<Longrightarrow>
   Opcode MI' = Opcode MI \<and> Flags MI' = Flags MI
   \<and> List.map operand_core (Operands MI') = List.map operand_core (Operands MI)"
  by (auto simp: setIsKill_def outcome_inv getOperand_def map_update operand_core_def
    split: operand.splits if_splits intro!: list_update_same_conv [THEN iffD2])

end
