(* ===== verification/Code_Emitter.thy ===== *)
theory Code_Emitter
  imports Asm_Backend Machine_IR
begin

unbundle bit_operations_syntax

text \<open>
  The code emitter, \<open>MCTargetDesc/SNESMCCodeEmitter.cpp\<close>: the encoding of every kind of
  operand, the fixups it records for operands whose value is not known yet, and the bytes
  of an instruction word. \<open>getBinaryCodeForInstr\<close>, which is generated by TableGen, is a
  parameter of \<open>encodeInstruction\<close>.
\<close>

datatype mcoperand =
    MCReg reg
  | MCImm u64
  | MCFPImm u64
  | MCExprOp mcexpr

record mcinst =
  getOpcode :: opcode
  mc_operands :: "mcoperand list"

definition mc_getOperand :: "mcinst \<Rightarrow> nat \<Rightarrow> mcoperand outcome" where
  "mc_getOperand MI i =
     asserting (i < length (mc_operands MI)) ''idx < size()'' (Inr (mc_operands MI ! i))"

type_synonym encoded = "(u32 \<times> mcfixup list) outcome"

definition mcfixup_create :: "u32 \<Rightarrow> mcexpr \<Rightarrow> fixup_kind \<Rightarrow> mcfixup" where
  "mcfixup_create Offset Value Kind = \<lparr>getOffset = Offset, getValue = Value, getKind = Kind\<rparr>"

section \<open>Operand encoders\<close>

fun isRegOp :: "mcoperand \<Rightarrow> bool" where
  "isRegOp (MCReg _) = True"
| "isRegOp _ = False"

definition loadStorePostEncoder :: "mcinst \<Rightarrow> u32 \<Rightarrow> u32 outcome" where
  "loadStorePostEncoder MI EncodedValue =
     obind (mc_getOperand MI 0) (\<lambda>o0. obind (mc_getOperand MI 1) (\<lambda>o1.
       asserting (isRegOp o0 \<and> isRegOp o1) ''the load/store operands must be registers''
         (let Opc = getOpcode MI;
              IsRegX = (o0 = MCReg SNES_A);
              IsPredec = (Opc = Mem LDRdPtrPd \<or> Opc = Mem STPtrPdRr);
              IsPostinc = (Opc = Mem LDRdPtrPi \<or> Opc = Mem STPtrPiRr)
          in Inr (if IsRegX \<or> IsPredec \<or> IsPostinc then EncodedValue OR push_bit 12 1
                  else EncodedValue))))"

definition encodeRelCondBrTarget ::
  "fixup_kind \<Rightarrow> mcinst \<Rightarrow> nat \<Rightarrow> mcfixup list \<Rightarrow> encoded" where
  "encodeRelCondBrTarget Fixup MI OpNo Fixups =
     obind (mc_getOperand MI OpNo) (\<lambda>MO. case MO of
       MCExprOp e \<Rightarrow> Inr (0, Fixups @ [mcfixup_create 0 e Fixup])
     | MCImm target \<Rightarrow> Inr (ucast (adjustBranchTarget_signed target), Fixups)
     | _ \<Rightarrow> Inl (Assertion ''MO.isImm()''))"

definition encodeLDSTPtrReg :: "mcinst \<Rightarrow> nat \<Rightarrow> mcfixup list \<Rightarrow> encoded" where
  "encodeLDSTPtrReg MI OpNo Fixups =
     obind (mc_getOperand MI OpNo) (\<lambda>MO. case MO of
       MCReg r \<Rightarrow>
         (case r of
            SNES_X \<Rightarrow> Inr (3, Fixups)
          | SNES_Y \<Rightarrow> Inr (2, Fixups)
          | SNES_A \<Rightarrow> Inr (0, Fixups)
          | _ \<Rightarrow> Inl (Unreachable ''invalid pointer register''))
     | _ \<Rightarrow> Inl (Assertion ''MO.isReg()''))"

definition encodeMemri :: "mcinst \<Rightarrow> nat \<Rightarrow> mcfixup list \<Rightarrow> encoded" where
  "encodeMemri MI OpNo Fixups =
     obind (mc_getOperand MI OpNo) (\<lambda>RegOp. obind (mc_getOperand MI (OpNo + 1)) (\<lambda>OffsetOp.
       case RegOp of
         MCReg r \<Rightarrow>
           obind (case r of SNES_A \<Rightarrow> Inr (0 :: u8) | SNES_X \<Rightarrow> Inr 1
                  | _ \<Rightarrow> Inl (Unreachable ''Expected either Y or Z register'')) (\<lambda>RegBit.
           obind (case OffsetOp of
                    MCImm i \<Rightarrow> Inr ((ucast i :: u8), Fixups)
                  | MCExprOp e \<Rightarrow> Inr (0, Fixups @ [mcfixup_create 0 e fixup_6])
                  | _ \<Rightarrow> Inl (Unreachable ''invalid value for offset'')) (\<lambda>(OffsetBits, Fs).
           Inr (push_bit 6 (ucast RegBit) OR scast OffsetBits, Fs)))
       | _ \<Rightarrow> Inl (Assertion ''Expected register operand'')))"

definition encodeComplement :: "mcinst \<Rightarrow> nat \<Rightarrow> mcfixup list \<Rightarrow> encoded" where
  "encodeComplement MI OpNo Fixups =
     obind (mc_getOperand MI OpNo) (\<lambda>MO. case MO of
       MCImm i \<Rightarrow> Inr (ucast (- 1 - i), Fixups)
     | _ \<Rightarrow> Inl (Assertion ''MI.getOperand(OpNo).isImm()''))"

text \<open>
  The value of an expression operand. Only the left side of a sum is looked at, and a plain
  symbol records nothing.
\<close>

definition expr_lhs :: "mcexpr \<Rightarrow> mcexpr" where
  "expr_lhs e = (case e of MCBinaryExpr op l r \<Rightarrow> l | _ \<Rightarrow> e)"

definition getExprOpValue :: "mcexpr \<Rightarrow> mcfixup list \<Rightarrow> encoded" where
  "getExprOpValue Expr Fixups =
     (case expr_lhs Expr of
        SNESMCExpr Kind SubExpr Negated \<Rightarrow>
          obind (evaluateAsConstant Kind SubExpr Negated) (\<lambda>r. case r of
            Some Result \<Rightarrow> Inr (ucast Result, Fixups)
          | None \<Rightarrow> obind (getFixupKind Kind Negated) (\<lambda>FixupKind.
              Inr (0, Fixups @ [mcfixup_create 0 (SNESMCExpr Kind SubExpr Negated) FixupKind])))
      | MCSymbolRefExpr _ _ \<Rightarrow> Inr (0, Fixups)
      | _ \<Rightarrow> Inl (Assertion ''Kind == MCExpr::SymbolRef''))"

definition encodeImm ::
  "fixup_kind \<Rightarrow> u32 \<Rightarrow> mcinst \<Rightarrow> nat \<Rightarrow> mcfixup list \<Rightarrow> encoded" where
  "encodeImm Fixup Offset MI OpNo Fixups =
     obind (mc_getOperand MI OpNo) (\<lambda>MO. case MO of
       MCExprOp e \<Rightarrow>
         (case e of
            SNESMCExpr _ _ _ \<Rightarrow> getExprOpValue e Fixups
          | _ \<Rightarrow> Inr (0, Fixups @ [mcfixup_create Offset e Fixup]))
     | MCImm i \<Rightarrow> Inr (ucast i, Fixups)
     | _ \<Rightarrow> Inl (Assertion ''MO.isImm()''))"

definition encodeCallTarget :: "mcinst \<Rightarrow> nat \<Rightarrow> mcfixup list \<Rightarrow> encoded" where
  "encodeCallTarget MI OpNo Fixups =
     obind (mc_getOperand MI OpNo) (\<lambda>MO. case MO of
       MCExprOp e \<Rightarrow> Inr (0, Fixups @ [mcfixup_create 0 e fixup_call])
     | MCImm Target \<Rightarrow> Inr (ucast (adjustBranchTarget_signed Target), Fixups)
     | _ \<Rightarrow> Inl (Assertion ''MO.isImm()''))"

definition getMachineOpValue :: "mcoperand \<Rightarrow> mcfixup list \<Rightarrow> encoded" where
  "getMachineOpValue MO Fixups =
     (case MO of
        MCReg r \<Rightarrow> Inr (ucast (getEncodingValue r), Fixups)
      | MCImm i \<Rightarrow> Inr (ucast i, Fixups)
      | MCFPImm d \<Rightarrow> Inr (ucast (drop_bit 32 d), Fixups)
      | MCExprOp e \<Rightarrow> getExprOpValue e Fixups)"

section \<open>Bytes of an instruction\<close>

text \<open>Word \<open>i\<close> of the little-endian \<open>Val\<close>, and the loop from the last word to the first.\<close>

definition word_at :: "u64 \<Rightarrow> nat \<Rightarrow> u16" where
  "word_at Val i = ucast (drop_bit (16 * i) Val)"

definition word_bytes :: "u16 \<Rightarrow> u8 list" where
  "word_bytes Word = [ucast (Word AND 0x00ff), ucast (drop_bit 8 (Word AND 0xff00))]"

fun emit_words :: "u64 \<Rightarrow> nat \<Rightarrow> u8 list" where
  "emit_words Val 0 = []"
| "emit_words Val (Suc i) = word_bytes (word_at Val i) @ emit_words Val i"

definition emitInstruction :: "u64 \<Rightarrow> nat \<Rightarrow> u8 list \<Rightarrow> u8 list" where
  "emitInstruction Val Size OS = OS @ emit_words Val (Size div 2)"

definition encodeInstruction ::
  "(mcinst \<Rightarrow> mcfixup list \<Rightarrow> (u64 \<times> mcfixup list) outcome) \<Rightarrow> mcinst \<Rightarrow> u8 list
   \<Rightarrow> mcfixup list \<Rightarrow> (u8 list \<times> mcfixup list) outcome" where
  "encodeInstruction getBinaryCodeForInstr MI OS Fixups =
     (let Size = getSize (getOpcode MI)
      in asserting (Size > 0) ''Instruction size cannot be zero''
           (obind (getBinaryCodeForInstr MI Fixups) (\<lambda>(BinaryOpCode, Fs).
              Inr (emitInstruction BinaryOpCode Size OS, Fs))))"

section \<open>Facts\<close>

lemma length_emit_words [simp]: "length (emit_words Val n) = 2 * n"
  by (induction n) (simp_all add: word_bytes_def)

lemma length_emitInstruction:
  "length (emitInstruction Val Size OS) = length OS + 2 * (Size div 2)"
  by (simp add: emitInstruction_def)

lemma word_bytes_eq: "word_bytes w = [ucast w, ucast (drop_bit 8 w)]"
proof -
  have m: "(0x00ff :: u16) = mask 8" "(0xff00 :: u16) = push_bit 8 (mask 8)"
    by (simp_all add: mask_eq_exp_minus_1)
  show ?thesis
    unfolding word_bytes_def m
    by (simp del: push_bit_numeral) (intro conjI; intro bit_word_eqI; auto simp: bit_simps)
qed

section \<open>Displacement operands\<close>

lemma scast_ucast_small:
  "uint (i :: u64) < 64 \<Longrightarrow> scast (ucast i :: u8) = (ucast i :: u32)
    \<and> take_bit 6 (ucast i) = (ucast i :: u32) \<and> \<not> bit i 6"
proof -
  assume "uint i < 64"
  then have i: "take_bit 6 i = i" by (intro uint_bound_take_bit) simp
  show ?thesis
  proof
    show "scast (ucast i :: u8) = (ucast i :: u32)"
      by (subst (1 2) i [symmetric], intro bit_word_eqI) (auto simp: bit_simps)
    have "take_bit 6 (ucast i) = (ucast i :: u32)"
      by (subst (1 2) i [symmetric], intro bit_word_eqI) (auto simp: bit_simps)
    moreover have "\<not> bit (take_bit 6 i) 6" by (simp add: bit_simps)
    ultimately show "take_bit 6 (ucast i) = (ucast i :: u32) \<and> \<not> bit i 6" using i by simp
  qed
qed

lemma small_negative_bits:
  "- 64 \<le> sint (i :: u64) \<Longrightarrow> sint i < 0 \<Longrightarrow> bit i 6"
proof -
  assume "- 64 \<le> sint i" "sint i < 0"
  then have "sint i div 64 = - 1" by presburger
  then have "bit (sint i) 6" by (simp add: bit_iff_odd)
  then show ?thesis by (simp add: bit_simps)
qed

text \<open>
  \<open>encodeMemri\<close> packs a pointer register and a displacement from 0 to 63
  into seven bits from which both can be read back. A negative displacement of at least
  \<open>-64\<close> sets the register bit itself: the encodings of the two registers coincide.
\<close>

theorem encodeMemri_fields:
  assumes "r = SNES_A \<or> r = SNES_X"
  shows "\<exists>v. encodeMemri \<lparr>getOpcode = opc, mc_operands = [MCReg r, MCImm i]\<rparr> 0 Fs = Inr (v, Fs)
    \<and> (uint i < 64 \<longrightarrow> bit v 6 = (r = SNES_X) \<and> take_bit 6 v = ucast i)
    \<and> (- 64 \<le> sint i \<and> sint i < 0 \<longrightarrow> bit v 6)"
  using assms scast_ucast_small [of i] small_negative_bits [of i]
  by (auto simp: encodeMemri_def mc_getOperand_def bit_simps)

theorem encodeMemri_fields_witness:
  "\<exists>v. encodeMemri \<lparr>getOpcode = Mem LDDRdPtrQ, mc_operands = [MCReg SNES_X, MCImm 5]\<rparr> 0 [] = Inr (v, [])
    \<and> bit v 6 \<and> take_bit 6 v = 5"
  using encodeMemri_fields [of SNES_X "Mem LDDRdPtrQ" 5 "[]"] by auto

end
