(* ===== verification/Disassembler.thy ===== *)
theory Disassembler
  imports Code_Emitter
begin

unbundle bit_operations_syntax

text \<open>
  The disassembler, \<open>Disassembler/SNESDisassembler.cpp\<close>: reading an instruction word from
  a byte sequence and the two decoding attempts of \<open>getInstruction\<close>. The decoder tables
  are generated by TableGen and are parameters.
\<close>

datatype decode_status = Fail | SoftFail | Success

datatype decoder_table = DecoderTable16 | DecoderTable32

definition DecodeMainRegsRegisterClass :: "'inst \<Rightarrow> u32 \<Rightarrow> decode_status \<times> 'inst" where
  "DecodeMainRegsRegisterClass Inst Regno = (Success, Inst)"

definition DecodeMainLoRegsRegisterClass :: "'inst \<Rightarrow> u32 \<Rightarrow> decode_status \<times> 'inst" where
  "DecodeMainLoRegsRegisterClass Inst Regno = (Success, Inst)"

definition DecodeIndexRegsRegisterClass :: "'inst \<Rightarrow> u32 \<Rightarrow> decode_status \<times> 'inst" where
  "DecodeIndexRegsRegisterClass Inst Regno = (Success, Inst)"

text \<open>The results are the status, the size and, when it is written, the word.\<close>

definition readInstruction16 :: "u8 list \<Rightarrow> decode_status \<times> nat \<times> u32 option" where
  "readInstruction16 Bytes =
     (if length Bytes < 2 then (Fail, 0, None)
      else (Success, 2, Some (push_bit 0 (ucast (Bytes ! 0)) OR push_bit 8 (ucast (Bytes ! 1)))))"

definition readInstruction32 :: "u8 list \<Rightarrow> decode_status \<times> nat \<times> u32 option" where
  "readInstruction32 Bytes =
     (if length Bytes < 4 then (Fail, 0, None)
      else (Success, 4, Some (push_bit 0 (ucast (Bytes ! 0)) OR push_bit 8 (ucast (Bytes ! 1))
              OR push_bit 16 (ucast (Bytes ! 2)) OR push_bit 24 (ucast (Bytes ! 3)))))"

definition getDecoderTable :: "nat \<Rightarrow> decoder_table outcome" where
  "getDecoderTable Size =
     (if Size = 2 then Inr DecoderTable16
      else if Size = 4 then Inr DecoderTable32
      else Inl (Unreachable ''instructions must be 16 or 32-bits''))"

text \<open>
  \<open>decodeInstruction table word address\<close> gives the status and the instruction, if any.
  The result of \<open>getInstruction\<close> is the status, the size and the instruction.
\<close>

type_synonym 'inst decoder = "decoder_table \<Rightarrow> u32 \<Rightarrow> u64 \<Rightarrow> decode_status \<times> 'inst option"

definition attempt ::
  "'inst decoder \<Rightarrow> nat \<Rightarrow> u32 \<Rightarrow> u64 \<Rightarrow> (decode_status \<times> 'inst option) outcome" where
  "attempt decodeInstruction Size Insn Address =
     obind (getDecoderTable Size) (\<lambda>t. Inr (decodeInstruction t Insn Address))"

definition getInstruction ::
  "'inst decoder \<Rightarrow> u8 list \<Rightarrow> u64 \<Rightarrow> (decode_status \<times> nat \<times> 'inst option) outcome" where
  "getInstruction decodeInstruction Bytes Address =
     (case readInstruction16 Bytes of
        (s16, size16, None) \<Rightarrow> Inr (Fail, size16, None)
      | (s16, size16, Some Insn16) \<Rightarrow>
          obind (attempt decodeInstruction size16 Insn16 Address) (\<lambda>(r16, i16).
            if r16 \<noteq> Fail then Inr (r16, size16, i16)
            else (case readInstruction32 Bytes of
                    (s32, size32, None) \<Rightarrow> Inr (Fail, size32, None)
                  | (s32, size32, Some Insn32) \<Rightarrow>
                      obind (attempt decodeInstruction size32 Insn32 Address) (\<lambda>(r32, i32).
                        if r32 \<noteq> Fail then Inr (r32, size32, i32) else Inr (Fail, size32, i32)))))"

section \<open>Emitting and reading back\<close>

lemma bytes_of_word:
  "ucast (ucast w :: u8) OR push_bit 8 (ucast (ucast (drop_bit 8 w) :: u8)) = (ucast (w :: u16) :: u32)"
  by (intro bit_word_eqI) (auto simp: bit_simps dest: bit_imp_le_length)

lemma read16_word_bytes:
  "readInstruction16 (word_bytes w @ rest) = (Success, 2, Some (ucast w))"
  using bytes_of_word [of w] by (simp add: readInstruction16_def word_bytes_eq)

lemma read32_word_bytes:
  "readInstruction32 (word_bytes w0 @ word_bytes w1 @ rest)
     = (Success, 4, Some (ucast w0 OR push_bit 16 (ucast w1)))"
proof -
  let ?b1 = "ucast (ucast w1 :: u8) :: u32" and ?b2 = "ucast (ucast (drop_bit 8 w1) :: u8) :: u32"
  have "push_bit 16 ?b1 OR push_bit 24 ?b2 = push_bit 16 (?b1 OR push_bit 8 ?b2)"
    by (simp add: push_bit_or)
  then have "push_bit 16 ?b1 OR push_bit 24 ?b2 = push_bit 16 (ucast w1)"
    using bytes_of_word [of w1] by simp
  then show ?thesis
    using bytes_of_word [of w0]
    by (simp add: readInstruction32_def word_bytes_eq eval_nat_numeral or.assoc [symmetric])
qed

text \<open>
  Property C37. What the code emitter writes for a 16-bit instruction is what the
  disassembler reads, whatever bytes follow. For a 32-bit instruction the reader gets the
  two halves of the word exchanged, because the emitter writes the upper half first, so
  it sees the emitted word only if both halves are equal. A word of one or three bytes is
  not emitted completely: the last byte is dropped.
\<close>

theorem emit_read_roundtrip:
  "readInstruction16 (emitInstruction V 2 [] @ rest) = (Success, 2, Some (ucast (take_bit 16 V)))
   \<and> readInstruction32 (emitInstruction V 4 [] @ rest)
       = (Success, 4, Some (ucast (word_at V 1) OR push_bit 16 (ucast (word_at V 0))))
   \<and> (readInstruction32 (emitInstruction V 4 [] @ rest) = (Success, 4, Some (ucast V))
       \<longleftrightarrow> word_at V 0 = word_at V 1)
   \<and> emitInstruction V 1 [] = [] \<and> emitInstruction V 3 [] = emitInstruction V 2 []"
proof -
  have w0: "ucast (word_at V 0) = (ucast (take_bit 16 V) :: u32)"
    unfolding word_at_def by (intro bit_word_eqI) (auto simp: bit_simps)
  have V: "ucast V = (ucast (word_at V 0) OR push_bit 16 (ucast (word_at V 1)) :: u32)"
    unfolding word_at_def by (intro bit_word_eqI) (auto simp: bit_simps)
  have inj: "(ucast a OR push_bit 16 (ucast b) :: u32) = ucast c OR push_bit 16 (ucast d)
      \<longleftrightarrow> a = c \<and> b = d" for a b c d :: u16
  proof
    assume e: "(ucast a OR push_bit 16 (ucast b) :: u32) = ucast c OR push_bit 16 (ucast d)"
    have lo: "ucast (ucast x OR push_bit 16 (ucast y) :: u32) = x" for x y :: u16
      by (intro bit_word_eqI) (auto simp: bit_simps dest: bit_imp_le_length)
    have hi: "ucast (drop_bit 16 (ucast x OR push_bit 16 (ucast y) :: u32)) = y" for x y :: u16
      by (intro bit_word_eqI) (auto simp: bit_simps dest: bit_imp_le_length)
    show "a = c \<and> b = d" using lo [of a b] lo [of c d] hi [of a b] hi [of c d] e by simp
  qed simp
  have n: "(4 div 2 :: nat) = Suc (Suc 0)" "(3 div 2 :: nat) = Suc 0" by simp_all
  show ?thesis
    unfolding emitInstruction_def n
    by (auto simp: read16_word_bytes read32_word_bytes w0 [symmetric] V inj)
qed

text \<open>
  \<open>getInstruction\<close> never fails an assertion: it decodes a 16-bit
  instruction if the 16-bit table accepts the first word, otherwise it asks the 32-bit
  table about the first four bytes, and a successful answer never consumes more bytes than
  there are.
\<close>

theorem getInstruction_total:
  "\<exists>st size i. getInstruction dec Bytes addr = Inr (st, size, i)
     \<and> (if st = Fail then True else (size = 2 \<or> size = 4) \<and> size \<le> length Bytes)
     \<and> (length Bytes < 2 \<longrightarrow> st = Fail \<and> size = 0)"
  by (cases "length Bytes < 2"; cases "length Bytes < 4")
    (auto simp: getInstruction_def readInstruction16_def readInstruction32_def attempt_def
      getDecoderTable_def split: prod.splits)

theorem getInstruction_total_witness:
  "\<exists>st size i. getInstruction (\<lambda>t w a. (Success, Some w)) [0x12] 0 = Inr (st, size, i)
     \<and> st = Fail \<and> size = 0"
  using getInstruction_total [of "\<lambda>t w a. (Success, Some w)" "[0x12]" 0] by auto

end
