(* ===== verification/MC_Inst_Lower.thy ===== *)
theory MC_Inst_Lower
  imports Code_Emitter
begin

unbundle bit_operations_syntax

text \<open>
  Lowering of machine instructions to assembler instructions, \<open>SNESMCInstLower.cpp\<close>. The
  symbols of globals, blocks and other entities come from the printer's name mangling and
  are given by a record of functions.
\<close>

record symbol_names =
  getSymbol :: "global_value \<Rightarrow> mcsymbol"
  GetExternalSymbolSymbol :: "string \<Rightarrow> mcsymbol"
  GetBlockAddressSymbol :: "string \<Rightarrow> mcsymbol"
  GetJTISymbol :: "nat \<Rightarrow> mcsymbol"
  GetCPISymbol :: "nat \<Rightarrow> mcsymbol"
  mbb_symbol :: "nat \<Rightarrow> mcsymbol"

section \<open>Target flags of operands\<close>

definition MO_NO_FLAG :: u8 where "MO_NO_FLAG = 0"
definition MO_LO :: u8 where "MO_LO = push_bit 1 1"
definition MO_HI :: u8 where "MO_HI = push_bit 2 1"
definition MO_NEG :: u8 where "MO_NEG = push_bit 3 1"

section \<open>Lowering\<close>

text \<open>
  The arguments are the target flags, the offset (zero for a jump table), whether the
  operand is the address of a function, and the symbol.
\<close>

definition lowerSymbolOperand :: "u8 \<Rightarrow> u64 \<Rightarrow> bool \<Rightarrow> mcsymbol \<Rightarrow> mcexpr outcome" where
  "lowerSymbolOperand TF Offset IsFunction Sym =
     (let IsNegated = (TF AND MO_NEG \<noteq> 0);
          Ref = MCSymbolRefExpr Sym VK_None;
          Expr = (if Offset \<noteq> 0 then MCBinaryExpr Add Ref (MCConstantExpr Offset) else Ref)
      in if TF AND MO_LO \<noteq> 0 then
           Inr (SNESMCExpr (if IsFunction then VK_SNES_PM_LO8 else VK_SNES_LO8) Expr IsNegated)
         else if TF AND MO_HI \<noteq> 0 then
           Inr (SNESMCExpr (if IsFunction then VK_SNES_PM_HI8 else VK_SNES_HI8) Expr IsNegated)
         else if TF \<noteq> 0 then Inl (Unreachable ''Unknown target flag on symbol operand'')
         else Inr Expr)"

text \<open>The operand that an operand becomes, if it becomes one.\<close>

definition lower_operand :: "symbol_names \<Rightarrow> operand \<Rightarrow> mcoperand option outcome" where
  "lower_operand names MO =
     (let sym = (\<lambda>TF Offset fn s. obind (lowerSymbolOperand TF Offset fn s) (\<lambda>e. Inr (Some (MCExprOp e))))
      in case MO of
           MO_Register r \<Rightarrow> Inr (if IsImp r then None else Some (MCReg (RegNo r)))
         | MO_Immediate i \<Rightarrow> Inr (Some (MCImm i))
         | MO_GlobalAddress g off TF \<Rightarrow> sym TF off (gv_is_function g) (getSymbol names g)
         | MO_ExternalSymbol n off TF \<Rightarrow> sym TF off False (GetExternalSymbolSymbol names n)
         | MO_MachineBasicBlock b \<Rightarrow>
             Inr (Some (MCExprOp (MCSymbolRefExpr (mbb_symbol names b) VK_None)))
         | MO_RegisterMask \<Rightarrow> Inr None
         | MO_BlockAddress b off TF \<Rightarrow> sym TF off False (GetBlockAddressSymbol names b)
         | MO_JumpTableIndex i TF \<Rightarrow> sym TF 0 False (GetJTISymbol names i)
         | MO_ConstantPoolIndex i off TF \<Rightarrow> sym TF off False (GetCPISymbol names i)
         | MO_FrameIndex _ \<Rightarrow> Inl (Unreachable ''unknown operand type''))"

definition lowerInstruction :: "symbol_names \<Rightarrow> instr \<Rightarrow> mcinst outcome" where
  "lowerInstruction names MI =
     obind (omap (lower_operand names) (Operands MI)) (\<lambda>ops.
       Inr \<lparr>getOpcode = Opcode MI, mc_operands = List.map_filter id ops\<rparr>)"

section \<open>Facts\<close>

lemma flag_values: "MO_LO = 2" "MO_HI = 4" "MO_NEG = 8" "MO_NO_FLAG = 0"
  by (simp_all add: MO_LO_def MO_HI_def MO_NEG_def MO_NO_FLAG_def)

lemma lowerSymbolOperand_flags:
  "lowerSymbolOperand MO_NO_FLAG 0 fn s = Inr (MCSymbolRefExpr s VK_None)"
  "lowerSymbolOperand MO_LO 0 False s = Inr (SNESMCExpr VK_SNES_LO8 (MCSymbolRefExpr s VK_None) False)"
  "lowerSymbolOperand MO_HI 0 False s = Inr (SNESMCExpr VK_SNES_HI8 (MCSymbolRefExpr s VK_None) False)"
  "lowerSymbolOperand (MO_NEG OR MO_LO) 0 False s
     = Inr (SNESMCExpr VK_SNES_LO8 (MCSymbolRefExpr s VK_None) True)"
  "lowerSymbolOperand (MO_NEG OR MO_HI) 0 False s
     = Inr (SNESMCExpr VK_SNES_HI8 (MCSymbolRefExpr s VK_None) True)"
  by (simp_all add: lowerSymbolOperand_def flag_values)

text \<open>Implicit operands and register masks are dropped, everything else keeps its place.\<close>

lemma lower_operand_total:
  "lower_operand names MO = Inr None \<longleftrightarrow>
     (case MO of MO_Register r \<Rightarrow> IsImp r | MO_RegisterMask \<Rightarrow> True | _ \<Rightarrow> False)"
  by (cases MO) (auto simp: lower_operand_def outcome_inv)

text \<open>
  An address that carries a single low or high flag is lowered to the modifier of its half,
  and the fixup that the emitter records for it is the one of that modifier.
\<close>

definition half_flag :: "bool \<Rightarrow> bool \<Rightarrow> u8" where
  "half_flag high neg = (if neg then MO_NEG else 0) OR (if high then MO_HI else MO_LO)"

definition half_kind :: "bool \<Rightarrow> bool \<Rightarrow> VariantKind" where
  "half_kind high fn =
     (if high then if fn then VK_SNES_PM_HI8 else VK_SNES_HI8
      else if fn then VK_SNES_PM_LO8 else VK_SNES_LO8)"

lemma half_kind_not_None [simp]: "half_kind high fn \<noteq> VK_SNES_None"
  by (simp add: half_kind_def)

lemma lowerSymbolOperand_half:
  "lowerSymbolOperand (half_flag high neg) off fn s =
     Inr (SNESMCExpr (half_kind high fn)
       (if off \<noteq> 0 then MCBinaryExpr Add (MCSymbolRefExpr s VK_None) (MCConstantExpr off)
        else MCSymbolRefExpr s VK_None) neg)"
  by (simp add: lowerSymbolOperand_def half_flag_def half_kind_def flag_values)

lemma symbol_not_constant:
  "evaluateAsConstant k (if off \<noteq> 0 then MCBinaryExpr Add (MCSymbolRefExpr s VK_None) (MCConstantExpr off)
      else MCSymbolRefExpr s VK_None) neg = Inr None"
  by (simp add: evaluateAsConstant_def isAbsolute_def eval_binary_def EvaluateSymbolicAdd_def
    const_value_def)

text \<open>
  The address of a global with a low or high flag, negated or not, goes
  through lowering and through the immediate encoder to a single fixup at offset 0 whose
  kind is the one of the modifier of that half, and whose value is the lowered expression;
  no bits are encoded. A function address takes the program memory modifiers.
\<close>

theorem global_half_fixup:
  "\<exists>e fk. lower_operand names (MO_GlobalAddress g off (half_flag high neg)) = Inr (Some (MCExprOp e))
     \<and> getFixupKind (half_kind high (gv_is_function g)) neg = Inr fk
     \<and> encodeImm fixup_ldi 0 \<lparr>getOpcode = opc, mc_operands = [MCReg r, MCExprOp e]\<rparr> 1 Fs
         = Inr (0, Fs @ [mcfixup_create 0 e fk])"
proof -
  let ?k = "half_kind high (gv_is_function g)"
  obtain fk where fk: "getFixupKind ?k neg = Inr fk"
    using getFixupKind_ok [OF half_kind_not_None] by blast
  then show ?thesis
    by (simp add: lower_operand_def lowerSymbolOperand_half encodeImm_def mc_getOperand_def
      getExprOpValue_def expr_lhs_def symbol_not_constant del: evaluateAsRelocatable.simps)
qed

end
