(* ===== verification/Inst_Printer.thy ===== *)
theory Inst_Printer
  imports Code_Emitter
begin

unbundle bit_operations_syntax

text \<open>
  The instruction printer, \<open>InstPrinter/SNESInstPrinter.cpp\<close>. Output is appended to a
  string. The printers that TableGen generates (\<open>printInstruction\<close>, \<open>printAliasInstr\<close>)
  and the printing of expressions and annotations are parameters.
\<close>

record printer_env =
  print_expr :: "mcexpr \<Rightarrow> string"
  printInstruction :: "mcinst \<Rightarrow> string outcome"
  printAliasInstr :: "mcinst \<Rightarrow> string option"
  printAnnotation :: "string \<Rightarrow> string"

definition getPrettyRegisterName :: "reg \<Rightarrow> string" where
  "getPrettyRegisterName r =
     (let RegLoNum = getSubReg_lo r
      in reg_name (if RegLoNum \<noteq> NoRegister then RegLoNum else r))"

definition printOperand :: "printer_env \<Rightarrow> mcinst \<Rightarrow> nat \<Rightarrow> string \<Rightarrow> string outcome" where
  "printOperand env MI OpNo Out =
     obind (mc_getOperand MI OpNo) (\<lambda>Op. case Op of
       MCReg r \<Rightarrow> Inr (Out @ getPrettyRegisterName r)
     | MCImm i \<Rightarrow> Inr (Out @ to_string (sint i))
     | MCExprOp e \<Rightarrow> Inr (Out @ print_expr env e)
     | _ \<Rightarrow> Inl (Assertion ''Unknown operand kind in printOperand''))"

definition printPCRelImm :: "printer_env \<Rightarrow> mcinst \<Rightarrow> nat \<Rightarrow> string \<Rightarrow> string outcome" where
  "printPCRelImm env MI OpNo Out =
     obind (mc_getOperand MI OpNo) (\<lambda>Op. case Op of
       MCImm i \<Rightarrow>
         Inr (Out @ ''.'' @ (if 0 \<le> sint i then ''+'' else '''') @ to_string (sint i))
     | MCExprOp e \<Rightarrow> Inr (Out @ print_expr env e)
     | _ \<Rightarrow> Inl (Assertion ''Unknown pcrel immediate operand''))"

definition printMemri :: "printer_env \<Rightarrow> mcinst \<Rightarrow> nat \<Rightarrow> string \<Rightarrow> string outcome" where
  "printMemri env MI OpNo Out =
     obind (mc_getOperand MI OpNo) (\<lambda>RegOp.
       asserting (isRegOp RegOp) ''Expected a register for the first operand''
         (obind (mc_getOperand MI (OpNo + 1)) (\<lambda>OffsetOp.
            obind (printOperand env MI OpNo Out) (\<lambda>Out1. case OffsetOp of
              MCImm i \<Rightarrow> Inr (Out1 @ (if 0 \<le> sint i then ''+'' else '''') @ to_string (sint i))
            | MCExprOp e \<Rightarrow> Inr (Out1 @ print_expr env e)
            | _ \<Rightarrow> Inl (Unreachable ''unknown type for offset'')))))"

definition tab :: string where
  "tab = [char_of (9 :: nat)]"

definition emit_if :: "bool \<Rightarrow> string \<Rightarrow> string \<Rightarrow> string" where
  "emit_if b s Out = (if b then Out @ s else Out)"

definition printInst :: "printer_env \<Rightarrow> mcinst \<Rightarrow> string \<Rightarrow> string \<Rightarrow> string outcome" where
  "printInst env MI Annot Out =
     (let Opc = getOpcode MI
      in if Opc \<in> {Mem LDRdPtr, Mem LDRdPtrPi, Mem LDRdPtrPd} then
           obind (printOperand env MI 0 (Out @ tab @ ''ld'' @ tab)) (\<lambda>o1.
           obind (printOperand env MI 1 (emit_if (Opc = Mem LDRdPtrPd) ''-'' (o1 @ '', ''))) (\<lambda>o2.
             Inr (emit_if (Opc = Mem LDRdPtrPi) ''+'' o2)))
         else if Opc = Mem STPtrRr then
           obind (printOperand env MI 0 (Out @ tab @ ''st'' @ tab)) (\<lambda>o1.
             printOperand env MI 1 (o1 @ '', ''))
         else if Opc \<in> {Mem STPtrPiRr, Mem STPtrPdRr} then
           obind (printOperand env MI 1
                    (emit_if (Opc = Mem STPtrPdRr) ''-'' (Out @ tab @ ''st'' @ tab))) (\<lambda>o1.
             printOperand env MI 2 (emit_if (Opc = Mem STPtrPiRr) ''+'' o1 @ '', ''))
         else
           obind (case printAliasInstr env MI of
                    Some s \<Rightarrow> Inr (Out @ s)
                  | None \<Rightarrow> obind (printInstruction env MI) (\<lambda>s. Inr (Out @ s))) (\<lambda>o1.
             Inr (o1 @ printAnnotation env Annot)))"

section \<open>Facts\<close>

lemma nat_digits_inject: "nat_digits m = nat_digits n \<longleftrightarrow> m = n"
  by (metis digits_value_nat_digits)

lemma minus_not_digit: "CHR ''-'' \<notin> set (nat_digits n)"
  using nat_digits_digit [of "CHR ''-''" n] by auto

lemma to_string_inject: "to_string i = to_string j \<longleftrightarrow> i = j"
proof
  assume e: "to_string i = to_string j"
  have m: "i < 0 \<longleftrightarrow> j < 0"
    using e minus_not_digit by (auto simp: to_string_def split: if_splits) (metis list.set_intros(1))+
  with e show "i = j" by (auto simp: to_string_def nat_digits_inject eq_nat_nat_iff split: if_splits)
qed simp

text \<open>
  A PC-relative immediate is printed as a dot and a displacement that always
  carries its sign, and the text determines the immediate. A pointer with displacement is
  likewise determined by the text that follows the register.
\<close>

theorem printed_displacement_unique:
  "\<exists>s t. printPCRelImm env \<lparr>getOpcode = opc, mc_operands = [MCImm i]\<rparr> 0 '''' = Inr s
     \<and> printPCRelImm env \<lparr>getOpcode = opc, mc_operands = [MCImm j]\<rparr> 0 '''' = Inr t
     \<and> (s = t \<longleftrightarrow> i = j) \<and> s ! 0 = CHR ''.'' \<and> s ! 1 = (if 0 \<le> sint i then CHR ''+'' else CHR ''-'')
     \<and> printMemri env \<lparr>getOpcode = opc, mc_operands = [MCReg r, MCImm i]\<rparr> 0 ''''
         = Inr (getPrettyRegisterName r @ tl s)"
proof -
  let ?txt = "\<lambda>i. (if 0 \<le> sint i then ''+'' else '''') @ to_string (sint (i :: u64))"
  have sgn: "?txt i ! 0 = (if 0 \<le> sint i then CHR ''+'' else CHR ''-'')" for i
    by (simp add: to_string_def)
  have "?txt i = ?txt j \<longleftrightarrow> i = j"
  proof
    assume e: "?txt i = ?txt j"
    then have "0 \<le> sint i \<longleftrightarrow> 0 \<le> sint j" using sgn [of i] sgn [of j] by (auto split: if_splits)
    with e have "sint i = sint j" by (simp add: to_string_inject split: if_splits)
    then show "i = j" by (simp add: signed_word_eqI)
  qed simp
  then show ?thesis
    using sgn [of i] by (simp add: printPCRelImm_def printMemri_def printOperand_def mc_getOperand_def)
qed

end
