(* ===== verification/Cond_Codes.thy ===== *)
theory Cond_Codes
  imports Machine_IR
begin

text \<open>
  Condition codes of branches: the enumeration of \<open>SNESInstrInfo.h\<close>, the maps between codes
  and conditional branches and the opposite condition of \<open>SNESInstrInfo.cpp\<close>. The meaning
  of a code on the status flags is read off the branch encodings of \<open>SNESInstrInfo.td\<close>
  (\<open>FBRsk\<close> with the flag's number, and whether it must be set or clear).
\<close>

datatype CondCodes =
    COND_EQ | COND_NE | COND_GE | COND_LT | COND_SH | COND_LO | COND_MI | COND_PL
  | COND_INVALID

definition getBrCond :: "CondCodes \<Rightarrow> opcode outcome" where
  "getBrCond CC = (case CC of
     COND_EQ \<Rightarrow> Inr (Br BREQk)
   | COND_NE \<Rightarrow> Inr (Br BRNEk)
   | COND_GE \<Rightarrow> Inr (Br BRGEk)
   | COND_LT \<Rightarrow> Inr (Br BRLTk)
   | COND_SH \<Rightarrow> Inr (Br BRSHk)
   | COND_LO \<Rightarrow> Inr (Br BRLOk)
   | COND_MI \<Rightarrow> Inr (Br BRMIk)
   | COND_PL \<Rightarrow> Inr (Br BRPLk)
   | COND_INVALID \<Rightarrow> Inl (Unreachable ''Unknown condition code!''))"

definition getCondFromBranchOpc :: "opcode \<Rightarrow> CondCodes" where
  "getCondFromBranchOpc Opc = (case Opc of
     Br b \<Rightarrow> (case b of
         BREQk \<Rightarrow> COND_EQ
       | BRNEk \<Rightarrow> COND_NE
       | BRSHk \<Rightarrow> COND_SH
       | BRLOk \<Rightarrow> COND_LO
       | BRMIk \<Rightarrow> COND_MI
       | BRPLk \<Rightarrow> COND_PL
       | BRGEk \<Rightarrow> COND_GE
       | BRLTk \<Rightarrow> COND_LT
       | _ \<Rightarrow> COND_INVALID)
   | _ \<Rightarrow> COND_INVALID)"

definition getOppositeCondition :: "CondCodes \<Rightarrow> CondCodes outcome" where
  "getOppositeCondition CC = (case CC of
     COND_EQ \<Rightarrow> Inr COND_NE
   | COND_NE \<Rightarrow> Inr COND_EQ
   | COND_SH \<Rightarrow> Inr COND_LO
   | COND_LO \<Rightarrow> Inr COND_SH
   | COND_GE \<Rightarrow> Inr COND_LT
   | COND_LT \<Rightarrow> Inr COND_GE
   | COND_MI \<Rightarrow> Inr COND_PL
   | COND_PL \<Rightarrow> Inr COND_MI
   | COND_INVALID \<Rightarrow> Inl (Unreachable ''Invalid condition!''))"

text \<open>The result is the changed condition; the C++ function also returns \<open>false\<close>.\<close>

definition reverseBranchCondition :: "CondCodes list \<Rightarrow> (bool \<times> CondCodes list) outcome" where
  "reverseBranchCondition Cond =
     asserting (length Cond = 1) ''Invalid SNES branch condition!''
       (obind (getOppositeCondition (Cond ! 0)) (\<lambda>CC. Inr (False, Cond[0 := CC])))"

section \<open>Meaning on the flags\<close>

record flags =
  C_flag :: bool
  Z_flag :: bool
  N_flag :: bool
  V_flag :: bool

definition S_flag :: "flags \<Rightarrow> bool" where
  "S_flag f = (N_flag f \<noteq> V_flag f)"

definition cond_holds :: "flags \<Rightarrow> CondCodes \<Rightarrow> bool" where
  "cond_holds f CC = (case CC of
     COND_EQ \<Rightarrow> Z_flag f
   | COND_NE \<Rightarrow> \<not> Z_flag f
   | COND_GE \<Rightarrow> \<not> S_flag f
   | COND_LT \<Rightarrow> S_flag f
   | COND_SH \<Rightarrow> \<not> C_flag f
   | COND_LO \<Rightarrow> C_flag f
   | COND_MI \<Rightarrow> N_flag f
   | COND_PL \<Rightarrow> \<not> N_flag f
   | COND_INVALID \<Rightarrow> False)"

section \<open>Facts\<close>

lemma getCond_getBrCond: "getBrCond c = Inr opc \<Longrightarrow> getCondFromBranchOpc opc = c"
  by (cases c) (auto simp: getBrCond_def getCondFromBranchOpc_def)

lemma getCond_valid:
  "getCondFromBranchOpc opc \<noteq> COND_INVALID \<longleftrightarrow>
   getBrCond (getCondFromBranchOpc opc) = Inr opc"
  by (auto simp: getCondFromBranchOpc_def getBrCond_def split: opcode.splits branch_op.splits)

lemma getBrCond_ok: "c \<noteq> COND_INVALID \<Longrightarrow> \<exists>opc. getBrCond c = Inr opc"
  by (cases c) (simp_all add: getBrCond_def)

lemma getOpposite_ok: "c \<noteq> COND_INVALID \<Longrightarrow> \<exists>c'. getOppositeCondition c = Inr c'"
  by (cases c) (simp_all add: getOppositeCondition_def)

lemma getOpposite_valid:
  "getOppositeCondition c = Inr c' \<Longrightarrow> c \<noteq> COND_INVALID \<and> c' \<noteq> COND_INVALID"
  by (cases c) (auto simp: getOppositeCondition_def)

lemma cond_branch_terminator:
  "getCondFromBranchOpc opc \<noteq> COND_INVALID \<Longrightarrow>
   isTerminator opc \<and> isBranch opc \<and> opc \<noteq> Br RJMPk \<and> getSize opc = 2"
  by (auto simp: getCondFromBranchOpc_def isTerminator_def isBranch_def getSize_def
    split: opcode.splits branch_op.splits)

lemma opposite_holds:
  "getOppositeCondition c = Inr c' \<Longrightarrow> cond_holds f c' = (\<not> cond_holds f c)"
  by (cases c) (auto simp: getOppositeCondition_def cond_holds_def)

text \<open>
  \<open>getOppositeCondition\<close> negates a condition on every state of the flags and
  is its own inverse; it fails exactly on the invalid code, as \<open>getBrCond\<close> does. Reversing
  a branch condition twice gives it back, and the branch that a code selects is classified
  as that code.
\<close>

theorem opposite_condition:
  "(case getOppositeCondition c of
      Inl e \<Rightarrow> c = COND_INVALID
    | Inr c' \<Rightarrow> (\<forall>f. cond_holds f c' = (\<not> cond_holds f c))
        \<and> getOppositeCondition c' = Inr c
        \<and> reverseBranchCondition [c] = Inr (False, [c'])
        \<and> reverseBranchCondition [c'] = Inr (False, [c]))
   \<and> (case getBrCond c of Inl e \<Rightarrow> c = COND_INVALID | Inr opc \<Rightarrow> getCondFromBranchOpc opc = c)"
  by (cases c) (simp_all add: getOppositeCondition_def cond_holds_def reverseBranchCondition_def
    getBrCond_def getCondFromBranchOpc_def)

end
