(* ===== verification/Instr_Info.thy ===== *)
theory Instr_Info
  imports Cond_Codes Math_Extras
begin

text \<open>
  Instruction queries and branch manipulation, \<open>SNESInstrInfo.cpp\<close>: register copies, stack
  slot accesses, and the analysis, insertion and removal of the branches that end a block.
  Blocks are lists of instructions and basic blocks are named by numbers; the layout
  successor of the block at hand is a parameter.
\<close>

section \<open>Copies and stack slots\<close>

definition copyPhysReg :: "reg \<Rightarrow> reg \<Rightarrow> bool \<Rightarrow> instr list outcome" where
  "copyPhysReg DestReg SrcReg KillSrc =
     (if class_contains MainRegs DestReg \<and> class_contains MainRegs SrcReg then
        obind (splitReg DestReg) (\<lambda>(DestLo, DestHi). obind (splitReg SrcReg) (\<lambda>(SrcLo, SrcHi).
          Inr [BuildMI (Alu MOVRdRr) [def_reg DestLo, use_kill SrcLo KillSrc],
               BuildMI (Alu MOVRdRr) [def_reg DestHi, use_kill SrcHi KillSrc]]))
      else
        obind
          (if class_contains MainRegs DestReg \<and> class_contains MainRegs SrcReg then Inr (Alu MOVRdRr)
           else if SrcReg = SNES_SP \<and> class_contains MainRegs DestReg then Inr (Wide SPREAD)
           else if DestReg = SNES_SP \<and> class_contains MainRegs SrcReg then Inr (Wide SPWRITE)
           else Inl (Unreachable ''Impossible reg-to-reg copy''))
          (\<lambda>Opc. Inr [BuildMI Opc [def_reg DestReg, use_kill SrcReg KillSrc]]))"

text \<open>Both queries give the register and the frame index, or \<open>None\<close> for 0.\<close>

definition is_FI :: "operand \<Rightarrow> bool" where
  "is_FI MO = (case MO of MO_FrameIndex _ \<Rightarrow> True | _ \<Rightarrow> False)"

definition slot_access :: "instr \<Rightarrow> nat \<Rightarrow> nat \<Rightarrow> nat \<Rightarrow> (reg \<times> int) option outcome" where
  "slot_access MI fi_op imm_op reg_op =
     obind (getOperand MI fi_op) (\<lambda>FIOp.
       if \<not> is_FI FIOp then Inr None
       else obind (getOperand MI imm_op) (\<lambda>ImmOp. case ImmOp of
         MO_Immediate v \<Rightarrow>
           if v = 0 then obind (getIndex MI fi_op) (\<lambda>FrameIndex.
                           obind (getReg MI reg_op) (\<lambda>r. Inr (Some (r, FrameIndex))))
           else Inr None
       | _ \<Rightarrow> Inr None))"

definition isLoadFromStackSlot :: "instr \<Rightarrow> (reg \<times> int) option outcome" where
  "isLoadFromStackSlot MI =
     (if Opcode MI = Mem LDDRdPtrQ \<or> Opcode MI = Wide LDDWRdYQ
      then slot_access MI 1 2 0 else Inr None)"

definition isStoreToStackSlot :: "instr \<Rightarrow> (reg \<times> int) option outcome" where
  "isStoreToStackSlot MI =
     (if Opcode MI = Mem STDPtrQRr \<or> Opcode MI = Wide STDWPtrQRr
      then slot_access MI 0 1 2 else Inr None)"

text \<open>A spill also records in the function information that there is one.\<close>

definition storeRegToStackSlot ::
  "function_info \<Rightarrow> reg \<Rightarrow> bool \<Rightarrow> int \<Rightarrow> reg_class \<Rightarrow> function_info \<times> instr" where
  "storeRegToStackSlot AFI SrcReg kill FrameIndex RC =
     (AFI\<lparr>HasSpills := True\<rparr>,
      BuildMI (if class_type RC = MVT_i8 then Mem STDPtrQRr else Wide STDWPtrQRr)
        [MO_FrameIndex FrameIndex, MO_Immediate 0, use_kill SrcReg kill])"

definition loadRegFromStackSlot :: "reg \<Rightarrow> int \<Rightarrow> reg_class \<Rightarrow> instr" where
  "loadRegFromStackSlot DestReg FrameIndex RC =
     BuildMI (if class_type RC = MVT_i8 then Mem LDDRdPtrQ else Wide LDDWRdYQ)
       [def_reg DestReg, MO_FrameIndex FrameIndex, MO_Immediate 0]"

section \<open>Branch analysis\<close>

text \<open>
  The variables of \<open>analyzeBranch\<close>: the block, the iterator \<open>I\<close> as the number of
  instructions before it, \<open>UnCondBrIter\<close> (\<open>None\<close> for the end), and the results.
\<close>

record branch_analysis =
  ba_block :: block
  ba_I :: nat
  ba_UnCond :: "nat option"
  ba_TBB :: "nat option"
  ba_FBB :: "nat option"
  ba_Cond :: "CondCodes list"

datatype 's loop_step = Continue 's | Return bool 's

definition isDebugValue :: "instr \<Rightarrow> bool" where
  "isDebugValue MI = (Opcode MI = Misc DBG_VALUE)"

definition isUnpredicatedTerminator :: "instr \<Rightarrow> bool" where
  "isUnpredicatedTerminator MI = isTerminator (Opcode MI)"

definition remove_nth :: "nat \<Rightarrow> 'a list \<Rightarrow> 'a list" where
  "remove_nth i xs = take i xs @ drop (Suc i) xs"

text \<open>An unconditional branch at position \<open>I\<close>.\<close>

definition analyze_uncond ::
  "bool \<Rightarrow> nat option \<Rightarrow> nat \<Rightarrow> branch_analysis \<Rightarrow> branch_analysis loop_step outcome" where
  "analyze_uncond AllowModify layout_succ I s =
     obind (getMBB (ba_block s ! I) 0) (\<lambda>Target.
       if \<not> AllowModify then
         Inr (Continue (s\<lparr>ba_I := I, ba_UnCond := Some I, ba_TBB := Some Target\<rparr>))
       else
         (let blk = take (Suc I) (ba_block s)
          in if layout_succ = Some Target then
               Inr (Continue (s\<lparr>ba_block := take I blk, ba_I := I, ba_UnCond := None,
                               ba_TBB := None, ba_FBB := None, ba_Cond := []\<rparr>))
             else
               Inr (Continue (s\<lparr>ba_block := blk, ba_I := I, ba_UnCond := Some I,
                               ba_TBB := Some Target, ba_FBB := None, ba_Cond := []\<rparr>))))"

text \<open>
  The rewriting of \<open>jCC L1; jmp L2\<close> where \<open>L1\<close> is the layout successor: the reversed branch
  and the jump are built before \<open>UnCondBrIter\<close>, then both old branches are erased.
\<close>

definition reverse_branches :: "block \<Rightarrow> nat \<Rightarrow> nat \<Rightarrow> opcode \<Rightarrow> nat \<Rightarrow> nat \<Rightarrow> block" where
  "reverse_branches blk I U JNCC UncondTarget TargetBB =
     remove_nth I (take U blk) @
     [BuildMI JNCC [MO_MachineBasicBlock UncondTarget],
      BuildMI (Br RJMPk) [MO_MachineBasicBlock TargetBB]] @ drop (Suc U) blk"

definition analyze_cond ::
  "bool \<Rightarrow> nat option \<Rightarrow> nat \<Rightarrow> CondCodes \<Rightarrow> branch_analysis \<Rightarrow> branch_analysis loop_step outcome"
where
  "analyze_cond AllowModify layout_succ I BranchCode s =
     (let MI = ba_block s ! I
      in if ba_Cond s = [] then
           obind (getMBB MI 0) (\<lambda>TargetBB.
             case ba_UnCond s of
               Some U \<Rightarrow>
                 if AllowModify \<and> layout_succ = Some TargetBB then
                   obind (getOppositeCondition BranchCode) (\<lambda>Opp. obind (getBrCond Opp) (\<lambda>JNCC.
                   obind (getMBB (ba_block s ! U) 0) (\<lambda>UncondTarget.
                     let blk = reverse_branches (ba_block s) I U JNCC UncondTarget TargetBB
                     in Inr (Continue (s\<lparr>ba_block := blk, ba_I := length blk, ba_UnCond := None\<rparr>)))))
                 else Inr (Continue (s\<lparr>ba_I := I, ba_FBB := ba_TBB s, ba_TBB := Some TargetBB,
                                      ba_Cond := [BranchCode]\<rparr>))
             | None \<Rightarrow> Inr (Continue (s\<lparr>ba_I := I, ba_FBB := ba_TBB s, ba_TBB := Some TargetBB,
                                        ba_Cond := [BranchCode]\<rparr>)))
         else asserting (length (ba_Cond s) = 1) ''Cond.size() == 1''
           (asserting (ba_TBB s \<noteq> None) ''TBB''
             (obind (getMBB MI 0) (\<lambda>TargetBB.
                if ba_TBB s \<noteq> Some TargetBB then Inr (Return True (s\<lparr>ba_I := I\<rparr>))
                else if ba_Cond s ! 0 = BranchCode then Inr (Continue (s\<lparr>ba_I := I\<rparr>))
                else Inr (Return True (s\<lparr>ba_I := I\<rparr>))))))"

text \<open>One turn of the loop; \<open>Return\<close> carries the value that \<open>analyzeBranch\<close> returns.\<close>

definition analyze_step ::
  "bool \<Rightarrow> nat option \<Rightarrow> branch_analysis \<Rightarrow> branch_analysis loop_step outcome" where
  "analyze_step AllowModify layout_succ s =
     (if ba_I s = 0 then Inr (Return False s)
      else (let I = ba_I s - 1; MI = ba_block s ! I
            in if isDebugValue MI then Inr (Continue (s\<lparr>ba_I := I\<rparr>))
               else if \<not> isUnpredicatedTerminator MI then Inr (Return False (s\<lparr>ba_I := I\<rparr>))
               else if \<not> isBranch (Opcode MI) then Inr (Return True (s\<lparr>ba_I := I\<rparr>))
               else if Opcode MI = Br RJMPk then analyze_uncond AllowModify layout_succ I s
               else if getCondFromBranchOpc (Opcode MI) = COND_INVALID
               then Inr (Return True (s\<lparr>ba_I := I\<rparr>))
               else analyze_cond AllowModify layout_succ I (getCondFromBranchOpc (Opcode MI)) s))"

partial_function (option) analyze_loop ::
  "bool \<Rightarrow> nat option \<Rightarrow> branch_analysis \<Rightarrow> (bool \<times> branch_analysis) outcome option" where
  "analyze_loop AllowModify layout_succ s =
     (case analyze_step AllowModify layout_succ s of
        Inl e \<Rightarrow> Some (Inl e)
      | Inr (Return b t) \<Rightarrow> Some (Inr (b, t))
      | Inr (Continue t) \<Rightarrow> analyze_loop AllowModify layout_succ t)"

definition analyze_init :: "block \<Rightarrow> branch_analysis" where
  "analyze_init MBB = \<lparr>ba_block = MBB, ba_I = length MBB, ba_UnCond = None, ba_TBB = None,
     ba_FBB = None, ba_Cond = []\<rparr>"

definition analyzeBranch ::
  "bool \<Rightarrow> nat option \<Rightarrow> block \<Rightarrow> (bool \<times> branch_analysis) outcome option" where
  "analyzeBranch AllowModify layout_succ MBB =
     analyze_loop AllowModify layout_succ (analyze_init MBB)"

section \<open>Inserting and removing branches\<close>

text \<open>The size of inline assembly is measured by generic code on its text: a parameter.\<close>

definition getInstSizeInBytes :: "(instr \<Rightarrow> nat) \<Rightarrow> instr \<Rightarrow> nat" where
  "getInstSizeInBytes getInlineAsmLength MI =
     (case Opcode MI of
        Misc EH_LABEL \<Rightarrow> 0
      | Misc IMPLICIT_DEF \<Rightarrow> 0
      | Misc KILL \<Rightarrow> 0
      | Misc DBG_VALUE \<Rightarrow> 0
      | Misc INLINEASM \<Rightarrow> getInlineAsmLength MI
      | opc \<Rightarrow> getSize opc)"

text \<open>The results are the block, the number of branches and the bytes added or removed.\<close>

definition insertBranch ::
  "(instr \<Rightarrow> nat) \<Rightarrow> block \<Rightarrow> nat option \<Rightarrow> nat option \<Rightarrow> CondCodes list
   \<Rightarrow> (block \<times> nat \<times> nat) outcome" where
  "insertBranch asm_len MBB TBB FBB Cond =
     (case TBB of
        None \<Rightarrow> Inl (Assertion ''insertBranch must not be told to insert a fallthrough'')
      | Some T \<Rightarrow>
          asserting (length Cond = 1 \<or> length Cond = 0) ''SNES branch conditions have one component!''
            (if Cond = [] then
               asserting (FBB = None) ''Unconditional branch with multiple successors!''
                 (let MI = BuildMI (Br RJMPk) [MO_MachineBasicBlock T]
                  in Inr (MBB @ [MI], 1, getInstSizeInBytes asm_len MI))
             else
               obind (getBrCond (Cond ! 0)) (\<lambda>opc.
                 let CondMI = BuildMI opc [MO_MachineBasicBlock T];
                     n = getInstSizeInBytes asm_len CondMI
                 in case FBB of
                      None \<Rightarrow> Inr (MBB @ [CondMI], 1, n)
                    | Some F \<Rightarrow>
                        let MI = BuildMI (Br RJMPk) [MO_MachineBasicBlock F]
                        in Inr (MBB @ [CondMI, MI], 2, n + getInstSizeInBytes asm_len MI))))"

definition is_removable_branch :: "instr \<Rightarrow> bool" where
  "is_removable_branch MI =
     (Opcode MI = Br RJMPk \<or> getCondFromBranchOpc (Opcode MI) \<noteq> COND_INVALID)"

text \<open>
  The loop of \<open>removeBranch\<close>, walking from the end: after an erasure it starts again at the
  end, so debug values that were passed are passed again.
\<close>

function remove_loop ::
  "(instr \<Rightarrow> nat) \<Rightarrow> block \<Rightarrow> nat \<Rightarrow> nat \<Rightarrow> nat \<Rightarrow> block \<times> nat \<times> nat" where
  "remove_loop asm_len MBB I Count BytesRemoved =
     (if I = 0 \<or> length MBB < I then (MBB, Count, BytesRemoved)
      else if isDebugValue (MBB ! (I - 1)) then remove_loop asm_len MBB (I - 1) Count BytesRemoved
      else if \<not> is_removable_branch (MBB ! (I - 1)) then (MBB, Count, BytesRemoved)
      else remove_loop asm_len (remove_nth (I - 1) MBB) (length MBB - 1) (Suc Count)
             (BytesRemoved + getInstSizeInBytes asm_len (MBB ! (I - 1))))"
  by pat_completeness auto

termination
  by (relation "measures [\<lambda>(l, MBB, I, c, b). length MBB, \<lambda>(l, MBB, I, c, b). I]")
    (auto simp: remove_nth_def)

definition removeBranch :: "(instr \<Rightarrow> nat) \<Rightarrow> block \<Rightarrow> block \<times> nat \<times> nat" where
  "removeBranch asm_len MBB = remove_loop asm_len MBB (length MBB) 0 0"

section \<open>Branch targets and ranges\<close>

definition getBranchDestBlock :: "instr \<Rightarrow> nat outcome" where
  "getBranchDestBlock MI =
     (let opc = Opcode MI
      in if opc \<in> {Br JMPk, Misc CALLk, Misc RCALLk, Br RJMPk, Br BREQk, Br BRNEk, Br BRSHk,
                   Br BRLOk, Br BRMIk, Br BRPLk, Br BRGEk, Br BRLTk} then getMBB MI 0
         else if opc \<in> {Br BRBSsk, Br BRBCsk} then getMBB MI 1
         else if opc \<in> {Br SBRCRrB, Br SBRSRrB, Br SBICAb, Br SBISAb}
         then Inl (Unreachable ''unimplemented branch instructions'')
         else Inl (Unreachable ''unexpected opcode!''))"

definition isBranchOffsetInRange :: "opcode \<Rightarrow> u64 \<Rightarrow> bool outcome" where
  "isBranchOffsetInRange BranchOp BrOffset =
     (if BranchOp \<in> {Br JMPk, Misc CALLk} then
        asserting (0 \<le> sint BrOffset) ''offset must be absolute address'' (isUIntN 16 BrOffset)
      else if BranchOp \<in> {Misc RCALLk, Br RJMPk} then isIntN 13 BrOffset
      else if BranchOp \<in> {Br BRBSsk, Br BRBCsk, Br BREQk, Br BRNEk, Br BRSHk, Br BRLOk, Br BRMIk,
                          Br BRPLk, Br BRGEk, Br BRLTk} then isIntN 7 BrOffset
      else Inl (Unreachable ''unexpected opcode!''))"

end
