(* ===== verification/Branch_Analysis.thy ===== *)
theory Branch_Analysis
  imports Instr_Info
begin

text \<open>
  What the branch operations of \<open>Instr_Info\<close> mean for control flow. A block's terminators
  are executed under a valuation of the condition codes; the lemmas show that
  \<open>analyzeBranch\<close> always returns, that its rewriting keeps the exit of the block, and that
  the branch it describes is the one the block executes; and that insertion, analysis and
  removal undo each other.
\<close>

section \<open>Control flow of a block\<close>

datatype exit =
    To nat
  | Leaves instr
  | FallsThrough

definition branch_exit :: "instr \<Rightarrow> exit" where
  "branch_exit MI = (case getMBB MI 0 of Inr b \<Rightarrow> To b | Inl e \<Rightarrow> Leaves MI)"

text \<open>The exit that the instructions take, or \<open>None\<close> if they are run through.\<close>

fun taken :: "(CondCodes \<Rightarrow> bool) \<Rightarrow> block \<Rightarrow> exit option" where
  "taken holds [] = None"
| "taken holds (MI # rest) =
     (if \<not> isTerminator (Opcode MI) then taken holds rest
      else if Opcode MI = Br RJMPk then Some (branch_exit MI)
      else if getCondFromBranchOpc (Opcode MI) = COND_INVALID then Some (Leaves MI)
      else if holds (getCondFromBranchOpc (Opcode MI)) then Some (branch_exit MI)
      else taken holds rest)"

definition fallthrough :: "nat option \<Rightarrow> exit" where
  "fallthrough layout_succ = (case layout_succ of Some b \<Rightarrow> To b | None \<Rightarrow> FallsThrough)"

definition block_exit :: "(CondCodes \<Rightarrow> bool) \<Rightarrow> nat option \<Rightarrow> block \<Rightarrow> exit" where
  "block_exit holds layout_succ MBB =
     (case taken holds MBB of Some e \<Rightarrow> e | None \<Rightarrow> fallthrough layout_succ)"

text \<open>The exit that a description by \<open>TBB\<close>, \<open>FBB\<close> and \<open>Cond\<close> stands for.\<close>

definition described_exit ::
  "(CondCodes \<Rightarrow> bool) \<Rightarrow> nat option \<Rightarrow> nat option \<Rightarrow> nat option \<Rightarrow> CondCodes list \<Rightarrow> exit" where
  "described_exit holds layout_succ TBB FBB Cond =
     (let target = (\<lambda>b. case b of Some t \<Rightarrow> To t | None \<Rightarrow> fallthrough layout_succ)
      in case Cond of
           [] \<Rightarrow> target TBB
         | c # _ \<Rightarrow> if holds c then target TBB else target FBB)"

lemma taken_append:
  "taken holds (xs @ ys) = (case taken holds xs of Some e \<Rightarrow> Some e | None \<Rightarrow> taken holds ys)"
  by (induction xs) auto

lemma block_exit_append:
  "block_exit holds ls (xs @ ys) =
     (case taken holds xs of Some e \<Rightarrow> e | None \<Rightarrow> block_exit holds ls ys)"
  by (simp add: block_exit_def taken_append split: option.splits)

lemma taken_no_terminators:
  "(\<And>x. x \<in> set xs \<Longrightarrow> \<not> isTerminator (Opcode x)) \<Longrightarrow> taken holds xs = None"
  by (induction xs) auto

lemma debug_not_terminator: "isDebugValue MI \<Longrightarrow> \<not> isTerminator (Opcode MI)"
  by (simp add: isDebugValue_def isTerminator_def)

lemma rjmp_terminator [simp]:
  "isTerminator (Br RJMPk)" "isBranch (Br RJMPk)" "getCondFromBranchOpc (Br RJMPk) = COND_INVALID"
  by (simp_all add: isTerminator_def isBranch_def getCondFromBranchOpc_def)

lemma branch_exit_To: "getMBB MI 0 = Inr b \<Longrightarrow> branch_exit MI = To b"
  by (simp add: branch_exit_def)

lemma getMBB_BuildMI [simp]: "getMBB (BuildMI opc (MO_MachineBasicBlock b # ops)) 0 = Inr b"
  by (simp add: getMBB_def getOperand_def BuildMI_def)

section \<open>Blocks whose terminators come last\<close>

fun terminators_last :: "block \<Rightarrow> bool" where
  "terminators_last [] = True"
| "terminators_last (x # xs) =
     (terminators_last xs
      \<and> (isTerminator (Opcode x) \<longrightarrow> (\<forall>y \<in> set xs. isTerminator (Opcode y) \<or> isDebugValue y)))"

lemma terminators_last_append:
  "terminators_last (xs @ ys) \<longleftrightarrow> terminators_last xs \<and> terminators_last ys
     \<and> ((\<exists>x \<in> set xs. isTerminator (Opcode x))
        \<longrightarrow> (\<forall>y \<in> set ys. isTerminator (Opcode y) \<or> isDebugValue y))"
  by (induction xs) auto

lemma terminators_last_debug:
  "(\<forall>x \<in> set xs. isDebugValue x) \<Longrightarrow> terminators_last xs"
  by (induction xs) (auto simp: debug_not_terminator)

section \<open>The loop of the analysis\<close>

text \<open>
  A remembered unconditional branch, when the block may be modified, is the last
  instruction and does not go to the layout successor; while no condition has been seen,
  only debug values precede it.
\<close>

definition far_jump :: "nat option \<Rightarrow> instr \<Rightarrow> bool" where
  "far_jump ls MI \<longleftrightarrow> Opcode MI = Br RJMPk \<and> (\<exists>t. getMBB MI 0 = Inr t \<and> ls \<noteq> Some t)"

definition uncond_shape :: "nat option \<Rightarrow> branch_analysis \<Rightarrow> bool" where
  "uncond_shape ls s = (case ba_UnCond s of
     None \<Rightarrow> True
   | Some U \<Rightarrow> ba_I s \<le> U \<and> Suc U = length (ba_block s) \<and> far_jump ls (ba_block s ! U)
       \<and> (ba_Cond s = [] \<longrightarrow> (\<forall>x \<in> set (take (U - ba_I s) (drop (ba_I s) (ba_block s))). isDebugValue x)))"

text \<open>After the rewriting the loop starts again at a jump to the layout successor.\<close>

definition restarted :: "nat option \<Rightarrow> branch_analysis \<Rightarrow> bool" where
  "restarted ls s \<longleftrightarrow> ba_block s \<noteq> [] \<and> ba_I s = length (ba_block s)
     \<and> Opcode (last (ba_block s)) = Br RJMPk \<and> (\<exists>t. getMBB (last (ba_block s)) 0 = Inr t \<and> ls = Some t)"

definition described :: "nat option \<Rightarrow> branch_analysis \<Rightarrow> bool" where
  "described ls s \<longleftrightarrow>
     (\<forall>holds. block_exit holds ls (drop (ba_I s) (ba_block s))
        = described_exit holds ls (ba_TBB s) (ba_FBB s) (ba_Cond s))
     \<and> (ba_Cond s = [] \<longrightarrow> ba_FBB s = None) \<and> (ba_Cond s \<noteq> [] \<longrightarrow> ba_TBB s \<noteq> None \<and> length (ba_Cond s) = 1)"

definition analysis_inv :: "nat option \<Rightarrow> branch_analysis \<Rightarrow> bool" where
  "analysis_inv ls s \<longleftrightarrow> ba_I s \<le> length (ba_block s) \<and> uncond_shape ls s
     \<and> (described ls s \<or> restarted ls s)"

definition analysis_measure :: "nat option \<Rightarrow> (branch_analysis \<times> branch_analysis) set" where
  "analysis_measure ls = measures
     [\<lambda>s. length (ba_block s),
      \<lambda>s. if ba_block s \<noteq> [] \<and> far_jump ls (last (ba_block s)) then 1 else 0,
      ba_I]"

lemma wf_analysis_measure: "wf (analysis_measure ls)"
  by (simp add: analysis_measure_def)

lemma analysis_inv_init: "analysis_inv ls (analyze_init MBB)"
  by (simp add: analysis_inv_def analyze_init_def uncond_shape_def described_def block_exit_def
    described_exit_def fallthrough_def split: option.splits)

text \<open>The block split at the instruction that a turn looks at.\<close>

lemma split_at_I:
  assumes "ba_I s \<noteq> 0" and "ba_I s \<le> length (ba_block s)"
  obtains pre post where "ba_block s = pre @ ba_block s ! (ba_I s - 1) # post"
    and "length pre = ba_I s - 1" and "drop (ba_I s) (ba_block s) = post"
proof -
  let ?n = "ba_I s - 1"
  have n: "?n < length (ba_block s)" "Suc ?n = ba_I s" using assms by auto
  from id_take_nth_drop [OF n(1)] n show thesis
    by (intro that [of "take ?n (ba_block s)" "drop (ba_I s) (ba_block s)"]) auto
qed

text \<open>The instructions between the iterator and the remembered branch, one turn further up.\<close>

lemma between_Suc:
  assumes "drop (ba_I s - 1) (ba_block s) = x # post" and "ba_I s \<noteq> 0" and "ba_I s \<le> U"
    and "drop (ba_I s) (ba_block s) = post"
  shows "take (U - (ba_I s - 1)) (drop (ba_I s - 1) (ba_block s))
    = x # take (U - ba_I s) (drop (ba_I s) (ba_block s))"
proof -
  have "U - (ba_I s - 1) = Suc (U - ba_I s)" using assms(2,3) by simp
  then show ?thesis using assms by simp
qed

lemma drop_at_I:
  "blk = pre @ x # post \<Longrightarrow> length pre = n \<Longrightarrow> drop n blk = x # post \<and> take n blk = pre
     \<and> take (Suc n) blk = pre @ [x] \<and> blk ! n = x"
  by (auto simp: nth_append)

lemma not_restarted:
  assumes "ba_I s \<noteq> 0" and "Opcode (ba_block s ! (ba_I s - 1)) \<noteq> Br RJMPk"
  shows "\<not> restarted ls s"
  using assms by (auto simp: restarted_def last_conv_nth)

lemma step_debug:
  assumes inv: "analysis_inv ls s" and I: "ba_I s \<noteq> 0"
    and x: "isDebugValue (ba_block s ! (ba_I s - 1))"
  shows "analysis_inv ls (s\<lparr>ba_I := ba_I s - 1\<rparr>)"
proof -
  let ?x = "ba_block s ! (ba_I s - 1)"
  have le: "ba_I s \<le> length (ba_block s)" using inv by (simp add: analysis_inv_def)
  obtain pre post where b: "ba_block s = pre @ ?x # post" "length pre = ba_I s - 1"
      "drop (ba_I s) (ba_block s) = post"
    using split_at_I [OF I le] by metis
  have d: "drop (ba_I s - 1) (ba_block s) = ?x # post" using drop_at_I [OF b(1,2)] by simp
  have op: "Opcode ?x = Misc DBG_VALUE" using x by (simp add: isDebugValue_def)
  then have "\<not> restarted ls s" using I by (intro not_restarted) simp_all
  then have "described ls s" using inv by (simp add: analysis_inv_def)
  then have "described ls (s\<lparr>ba_I := ba_I s - 1\<rparr>)"
    using d b(3) debug_not_terminator [OF x] by (simp add: described_def block_exit_def)
  moreover have "uncond_shape ls (s\<lparr>ba_I := ba_I s - 1\<rparr>)"
    using inv between_Suc [OF d I _ b(3)] x
    by (auto simp: analysis_inv_def uncond_shape_def split: option.splits)
  ultimately show ?thesis using le by (simp add: analysis_inv_def)
qed

lemma step_uncond:
  assumes inv: "analysis_inv ls s" and I: "ba_I s \<noteq> 0"
    and x: "Opcode (ba_block s ! (ba_I s - 1)) = Br RJMPk"
    and step: "analyze_uncond True ls (ba_I s - 1) s = Inr (Continue t)"
  shows "analysis_inv ls t \<and> (\<exists>post. ba_block s = ba_block t @ post)
    \<and> (\<forall>holds. block_exit holds ls (ba_block t) = block_exit holds ls (ba_block s))
    \<and> (t, s) \<in> analysis_measure ls"
proof -
  let ?x = "ba_block s ! (ba_I s - 1)"
  have le: "ba_I s \<le> length (ba_block s)" using inv by (simp add: analysis_inv_def)
  obtain pre post where b: "ba_block s = pre @ ?x # post" "length pre = ba_I s - 1"
    using split_at_I [OF I le] by metis
  note d = drop_at_I [OF b]
  from step obtain T where T: "getMBB ?x 0 = Inr T" by (auto simp: analyze_uncond_def outcome_inv)
  have e0: "block_exit holds ls (?x # r) = To T" for holds r
    using x T by (simp add: block_exit_def branch_exit_To)
  have ex: "block_exit holds ls (pre @ ?x # r) = (case taken holds pre of Some e \<Rightarrow> e | None \<Rightarrow> To T)"
    for holds r
    by (simp only: block_exit_append e0)
  show ?thesis
  proof (cases "ls = Some T")
    case True
    with step T d b have t: "t = s\<lparr>ba_block := pre, ba_I := length pre, ba_UnCond := None, ba_TBB := None,
        ba_FBB := None, ba_Cond := []\<rparr>"
      by (simp add: analyze_uncond_def)
    have "block_exit holds ls pre = block_exit holds ls (ba_block s)" for holds
      by (subst b(1), subst ex) (simp add: block_exit_def fallthrough_def True split: option.split)
    moreover have "length pre < length (ba_block s)" using b(2) I le by simp
    then have "(t, s) \<in> analysis_measure ls" using t by (simp add: analysis_measure_def)
    moreover have "analysis_inv ls t"
      using t by (simp add: analysis_inv_def uncond_shape_def described_def block_exit_def
        described_exit_def)
    ultimately show ?thesis using t b(1) by auto
  next
    case False
    with step T d b have t: "t = s\<lparr>ba_block := pre @ [?x], ba_I := length pre, ba_UnCond := Some (length pre),
        ba_TBB := Some T, ba_FBB := None, ba_Cond := []\<rparr>"
      by (simp add: analyze_uncond_def)
    have "block_exit holds ls (pre @ [?x]) = block_exit holds ls (ba_block s)" for holds
      using ex [of holds post] ex [of holds "[]"] b(1) by simp
    moreover have "far_jump ls ?x" using x T False by (simp add: far_jump_def)
    moreover have "(t, s) \<in> analysis_measure ls"
    proof (cases "post = []")
      case True
      then have "ba_block s = pre @ [?x]" using b(1) by simp
      then show ?thesis using t I b(2) by (simp add: analysis_measure_def)
    next
      case False
      then have "length (pre @ [?x]) < length (ba_block s)" using b(1) by (metis append.assoc append_Cons append_Nil length_append length_greater_0_conv less_add_same_cancel1)
      then show ?thesis using t by (simp add: analysis_measure_def)
    qed
    moreover have "\<exists>r. ba_block s = (pre @ [?x]) @ r" using b(1) by (metis append.assoc append_Cons append_Nil)
    ultimately show ?thesis
      using t x T
      by (auto simp: analysis_inv_def uncond_shape_def described_def described_exit_def block_exit_def
        branch_exit_To)
  qed
qed

text \<open>The block around a conditional branch that is reversed, and what becomes of it.\<close>

definition reversal ::
  "nat option \<Rightarrow> branch_analysis \<Rightarrow> block \<Rightarrow> instr \<Rightarrow> block \<Rightarrow> instr \<Rightarrow> opcode \<Rightarrow> nat \<Rightarrow> nat \<Rightarrow> bool" where
  "reversal ls s pre x mid u JNCC L1 L2 \<longleftrightarrow>
     ba_block s = pre @ x # mid @ [u] \<and> (\<forall>m \<in> set mid. isDebugValue m)
     \<and> Opcode u = Br RJMPk \<and> getMBB u 0 = Inr L2 \<and> getMBB x 0 = Inr L1 \<and> ls = Some L1
     \<and> far_jump ls u \<and> getCondFromBranchOpc (Opcode x) \<noteq> COND_INVALID
     \<and> obind (getOppositeCondition (getCondFromBranchOpc (Opcode x))) getBrCond = Inr JNCC"

definition reversed :: "block \<Rightarrow> block \<Rightarrow> opcode \<Rightarrow> nat \<Rightarrow> nat \<Rightarrow> block" where
  "reversed pre mid JNCC L1 L2 =
     pre @ mid @ [BuildMI JNCC [MO_MachineBasicBlock L2], BuildMI (Br RJMPk) [MO_MachineBasicBlock L1]]"

lemma reverse_branches_form:
  "blk = pre @ x # mid @ [u] \<Longrightarrow> length pre = I \<Longrightarrow> U = Suc (length pre + length mid) \<Longrightarrow>
   reverse_branches blk I U JNCC L2 L1 = reversed pre mid JNCC L1 L2"
  by (auto simp: reverse_branches_def reversed_def remove_nth_def)

text \<open>A turn at a conditional branch either reverses it or records it.\<close>

lemma step_cond_cases:
  assumes inv: "analysis_inv ls s" and I: "ba_I s \<noteq> 0"
    and c: "getCondFromBranchOpc (Opcode (ba_block s ! (ba_I s - 1))) = c" "c \<noteq> COND_INVALID"
    and step: "analyze_cond True ls (ba_I s - 1) c s = Inr (Continue t)"
  shows "(\<exists>pre x mid u JNCC L1 L2. reversal ls s pre x mid u JNCC L1 L2
       \<and> t = s\<lparr>ba_block := reversed pre mid JNCC L1 L2, ba_I := length (reversed pre mid JNCC L1 L2),
              ba_UnCond := None\<rparr>)
    \<or> (\<exists>T. getMBB (ba_block s ! (ba_I s - 1)) 0 = Inr T
         \<and> t = s\<lparr>ba_I := ba_I s - 1, ba_FBB := (if ba_Cond s = [] then ba_TBB s else ba_FBB s),
                 ba_TBB := Some T, ba_Cond := [c]\<rparr>
         \<and> (ba_Cond s = [] \<or> ba_Cond s = [c] \<and> ba_TBB s = Some T))"
proof -
  let ?x = "ba_block s ! (ba_I s - 1)"
  have le: "ba_I s \<le> length (ba_block s)" using inv by (simp add: analysis_inv_def)
  obtain pre post where b: "ba_block s = pre @ ?x # post" "length pre = ba_I s - 1"
      "drop (ba_I s) (ba_block s) = post"
    using split_at_I [OF I le] by metis
  show ?thesis
  proof (cases "ba_Cond s = []")
    case False
    with step obtain T where "getMBB ?x 0 = Inr T" "ba_TBB s = Some T" "length (ba_Cond s) = 1"
        "ba_Cond s ! 0 = c" "t = s\<lparr>ba_I := ba_I s - 1\<rparr>"
      by (auto simp: analyze_cond_def Let_def outcome_inv split: if_splits)
    moreover from this have "ba_Cond s = [c]" by (cases "ba_Cond s") auto
    ultimately show ?thesis by auto
  next
    case Cond: True
    show ?thesis
    proof (cases "\<exists>U. ba_UnCond s = Some U \<and> (\<exists>T. getMBB ?x 0 = Inr T \<and> ls = Some T)")
      case False
      with step Cond show ?thesis
        by (auto simp: analyze_cond_def Let_def outcome_inv split: if_splits option.splits)
    next
      case True
      then obtain U L1 where U: "ba_UnCond s = Some U" and L1: "getMBB ?x 0 = Inr L1" "ls = Some L1"
        by blast
      from inv U Cond have sh: "ba_I s \<le> U" "Suc U = length (ba_block s)" "far_jump ls (ba_block s ! U)"
          "\<forall>y \<in> set (take (U - ba_I s) (drop (ba_I s) (ba_block s))). isDebugValue y"
        by (auto simp: analysis_inv_def uncond_shape_def)
      define u where "u = ba_block s ! U"
      define mid where "mid = take (U - ba_I s) post"
      have lp: "length post = Suc (U - ba_I s)" using b(1,2) sh(1,2) I by (metis Suc_diff_le b(3) length_drop)
      have "post ! (U - ba_I s) = u" using b(3) sh(1,2) by (simp add: u_def flip: b(3))
      then have post: "post = mid @ [u]"
        using lp by (metis mid_def lessI take_Suc_conv_app_nth take_all order_refl)
      from sh(3) obtain L2 where u: "Opcode u = Br RJMPk" "getMBB u 0 = Inr L2" "far_jump ls u"
        by (auto simp: far_jump_def u_def)
      from step Cond U L1 u obtain JNCC where
          J: "obind (getOppositeCondition c) getBrCond = Inr JNCC"
        and t: "t = (let blk = reverse_branches (ba_block s) (ba_I s - 1) U JNCC L2 L1
                in s\<lparr>ba_block := blk, ba_I := length blk, ba_UnCond := None\<rparr>)"
        by (auto simp: analyze_cond_def Let_def outcome_inv u_def split: if_splits)
      have bb: "ba_block s = pre @ ?x # mid @ [u]" using b(1) post by simp
      have Un: "U = Suc (length pre + length mid)" using sh(2) bb by (metis add_Suc_right add_diff_cancel_left' length_Cons length_append length_append_singleton plus_1_eq_Suc)
      have "reverse_branches (ba_block s) (ba_I s - 1) U JNCC L2 L1 = reversed pre mid JNCC L1 L2"
        using bb b(2) Un by (rule reverse_branches_form)
      moreover have "reversal ls s pre ?x mid u JNCC L1 L2"
        using bb sh(4) u L1 c J by (simp add: reversal_def mid_def b(3))
      ultimately show ?thesis using t by (metis)
    qed
  qed
qed

lemma reversal_facts:
  assumes "reversal ls s pre x mid u JNCC L1 L2"
  shows "length (reversed pre mid JNCC L1 L2) = length (ba_block s)"
    and "terminators_last (ba_block s) \<Longrightarrow> terminators_last (reversed pre mid JNCC L1 L2)"
    and "far_jump ls (last (ba_block s))" and "\<not> far_jump ls (last (reversed pre mid JNCC L1 L2))"
    and "isTerminator JNCC"
proof -
  have b: "ba_block s = pre @ x # mid @ [u]" and mid: "\<forall>m \<in> set mid. isDebugValue m"
    and L: "ls = Some L1" and u: "far_jump ls u"
    using assms unfolding reversal_def by blast+
  from assms obtain c' where "getOppositeCondition (getCondFromBranchOpc (Opcode x)) = Inr c'"
      "getBrCond c' = Inr JNCC"
    by (auto simp: reversal_def outcome_inv)
  then show J: "isTerminator JNCC"
    using getOpposite_valid getCond_getBrCond cond_branch_terminator by blast
  show "length (reversed pre mid JNCC L1 L2) = length (ba_block s)" by (simp add: b reversed_def)
  show "far_jump ls (last (ba_block s))" using b u by simp
  show "\<not> far_jump ls (last (reversed pre mid JNCC L1 L2))"
    using L by (simp add: reversed_def far_jump_def)
  show "terminators_last (ba_block s) \<Longrightarrow> terminators_last (reversed pre mid JNCC L1 L2)"
    using mid J by (auto simp: b reversed_def terminators_last_append terminators_last_debug)
qed

lemma step_cond:
  assumes inv: "analysis_inv ls s" and I: "ba_I s \<noteq> 0"
    and c: "getCondFromBranchOpc (Opcode (ba_block s ! (ba_I s - 1))) = c" "c \<noteq> COND_INVALID"
    and step: "analyze_cond True ls (ba_I s - 1) c s = Inr (Continue t)"
  shows "analysis_inv ls t \<and> (t, s) \<in> analysis_measure ls
    \<and> (terminators_last (ba_block s) \<longrightarrow> terminators_last (ba_block t))"
proof -
  consider (rev) pre x mid u JNCC L1 L2 where "reversal ls s pre x mid u JNCC L1 L2"
      "t = s\<lparr>ba_block := reversed pre mid JNCC L1 L2,
        ba_I := length (reversed pre mid JNCC L1 L2), ba_UnCond := None\<rparr>"
    | (rec) T where "getMBB (ba_block s ! (ba_I s - 1)) 0 = Inr T"
      "t = s\<lparr>ba_I := ba_I s - 1, ba_FBB := (if ba_Cond s = [] then ba_TBB s else ba_FBB s),
        ba_TBB := Some T, ba_Cond := [c]\<rparr>"
      "ba_Cond s = [] \<or> ba_Cond s = [c] \<and> ba_TBB s = Some T"
    using step_cond_cases [OF assms] by metis
  then show ?thesis
  proof cases
    case rev
    note r = rev(1) and t = rev(2)
  have "ba_block s \<noteq> []" using r by (auto simp: reversal_def)
  then have "(t, s) \<in> analysis_measure ls"
    using reversal_facts [OF r] t by (simp add: analysis_measure_def)
  moreover have "restarted ls t" using r t by (simp add: restarted_def reversed_def reversal_def)
  then have "analysis_inv ls t" using t by (simp add: analysis_inv_def uncond_shape_def)
  ultimately show ?thesis using reversal_facts [OF r] t by simp
next
  case rec
  let ?x = "ba_block s ! (ba_I s - 1)"
  note T = rec(1) and t = rec(2) and old = rec(3)
  have le: "ba_I s \<le> length (ba_block s)" using inv by (simp add: analysis_inv_def)
  obtain pre post where b: "ba_block s = pre @ ?x # post" "length pre = ba_I s - 1"
      "drop (ba_I s) (ba_block s) = post"
    using split_at_I [OF I le] by metis
  have d: "drop (ba_I s - 1) (ba_block s) = ?x # post" using drop_at_I [OF b(1,2)] by simp
  have x: "isTerminator (Opcode ?x)" "Opcode ?x \<noteq> Br RJMPk"
    using cond_branch_terminator c by metis+
  have "described ls s" using inv not_restarted [OF I x(2)] by (simp add: analysis_inv_def)
  then have D: "block_exit holds ls post = described_exit holds ls (ba_TBB s) (ba_FBB s) (ba_Cond s)"
    for holds using b(3) by (simp add: described_def)
  have "block_exit holds ls (?x # post)
      = described_exit holds ls (Some T) (if ba_Cond s = [] then ba_TBB s else ba_FBB s) [c]" for holds
    using x c T D [of holds] old
    by (auto simp: block_exit_def branch_exit_To described_exit_def Let_def split: option.splits)
  then have "described ls t" using t d by (simp add: described_def)
  moreover have "uncond_shape ls t"
    using inv t by (auto simp: analysis_inv_def uncond_shape_def split: option.splits)
  ultimately show ?thesis using t le I by (simp add: analysis_inv_def analysis_measure_def)
qed
qed

lemma analyze_step_inv:
  assumes "analysis_inv ls s" and "analyze_step True ls s = Inr (Continue t)"
  shows "analysis_inv ls t \<and> (t, s) \<in> analysis_measure ls
    \<and> (terminators_last (ba_block s) \<longrightarrow> terminators_last (ba_block t))"
proof -
  have I: "ba_I s \<noteq> 0" using assms(2) by (simp add: analyze_step_def split: if_splits)
  consider (debug) "isDebugValue (ba_block s ! (ba_I s - 1))" "t = s\<lparr>ba_I := ba_I s - 1\<rparr>"
    | (uncond) "Opcode (ba_block s ! (ba_I s - 1)) = Br RJMPk"
        "analyze_uncond True ls (ba_I s - 1) s = Inr (Continue t)"
    | (cond) "getCondFromBranchOpc (Opcode (ba_block s ! (ba_I s - 1))) \<noteq> COND_INVALID"
        "analyze_cond True ls (ba_I s - 1)
           (getCondFromBranchOpc (Opcode (ba_block s ! (ba_I s - 1)))) s = Inr (Continue t)"
    using assms(2) I by (auto simp: analyze_step_def Let_def split: if_splits)
  then show ?thesis
  proof cases
    case debug
    with step_debug [OF assms(1) I debug(1)] I show ?thesis by (simp add: analysis_measure_def)
  next
    case uncond
    from step_uncond [OF assms(1) I uncond] show ?thesis by (auto simp: terminators_last_append)
  next
    case cond
    from step_cond [OF assms(1) I refl cond] show ?thesis .
  qed
qed

section \<open>The contract of the analysis\<close>

text \<open>
  All that the analysis needs to know of the conditions is that the opposite of a condition
  holds exactly when the condition does not.
\<close>

locale branch_conditions =
  fixes holds :: "CondCodes \<Rightarrow> bool"
  assumes opposite: "getOppositeCondition c = Inr c' \<Longrightarrow> holds c' = (\<not> holds c)"
begin

lemma reversal_exit:
  assumes "reversal ls s pre x mid u JNCC L1 L2"
  shows "block_exit holds ls (reversed pre mid JNCC L1 L2) = block_exit holds ls (ba_block s)"
proof -
  let ?c = "getCondFromBranchOpc (Opcode x)"
  have b: "ba_block s = pre @ x # mid @ [u]" and mid: "taken holds mid = None"
    and u: "Opcode u = Br RJMPk" "branch_exit u = To L2" and x: "branch_exit x = To L1" "?c \<noteq> COND_INVALID"
    using assms by (auto simp: reversal_def branch_exit_To debug_not_terminator intro!: taken_no_terminators)
  from assms obtain c' where c': "getOppositeCondition ?c = Inr c'" "getBrCond c' = Inr JNCC"
    by (auto simp: reversal_def outcome_inv)
  then have J: "getCondFromBranchOpc JNCC = c'" "c' \<noteq> COND_INVALID"
    using getCond_getBrCond getOpposite_valid by blast+
  then have J2: "isTerminator JNCC" "JNCC \<noteq> Br RJMPk" using cond_branch_terminator by blast+
  have x2: "isTerminator (Opcode x)" "Opcode x \<noteq> Br RJMPk" using cond_branch_terminator x(2) by blast+
  show ?thesis
    using J J2 x x2 u mid opposite [OF c'(1)]
    by (simp add: b reversed_def block_exit_def taken_append branch_exit_To split: option.split)
qed

lemma step_exit:
  assumes inv: "analysis_inv ls s" and step: "analyze_step True ls s = Inr (Continue t)"
  shows "block_exit holds ls (ba_block t) = block_exit holds ls (ba_block s)"
proof -
  have I: "ba_I s \<noteq> 0" using step by (simp add: analyze_step_def split: if_splits)
  let ?c = "getCondFromBranchOpc (Opcode (ba_block s ! (ba_I s - 1)))"
  consider (debug) "ba_block t = ba_block s"
    | (uncond) "Opcode (ba_block s ! (ba_I s - 1)) = Br RJMPk"
        "analyze_uncond True ls (ba_I s - 1) s = Inr (Continue t)"
    | (cond) "?c \<noteq> COND_INVALID" "analyze_cond True ls (ba_I s - 1) ?c s = Inr (Continue t)"
    using step I by (auto simp: analyze_step_def Let_def split: if_splits)
  then show ?thesis
  proof cases
    case debug
    then show ?thesis by simp
  next
    case uncond
    from step_uncond [OF inv I uncond] show ?thesis by blast
  next
    case cond
    from step_cond_cases [OF inv I refl cond] show ?thesis using reversal_exit by fastforce
  qed
qed

lemma step_described:
  assumes inv: "analysis_inv ls s" and step: "analyze_step True ls s = Inr (Return False t)"
    and wf: "terminators_last (ba_block s)"
  shows "block_exit holds ls (ba_block s) = described_exit holds ls (ba_TBB t) (ba_FBB t) (ba_Cond t)"
proof (cases "ba_I s = 0")
  case True
  then have "\<not> restarted ls s" by (auto simp: restarted_def)
  with inv step True show ?thesis by (simp add: analysis_inv_def described_def analyze_step_def)
next
  case I: False
  let ?x = "ba_block s ! (ba_I s - 1)"
  have x: "\<not> isTerminator (Opcode ?x)" "\<not> isDebugValue ?x" and t: "t = s\<lparr>ba_I := ba_I s - 1\<rparr>"
    using step I
    by (auto simp: analyze_step_def Let_def isUnpredicatedTerminator_def analyze_uncond_def
      analyze_cond_def outcome_inv split: if_splits option.splits)
  have le: "ba_I s \<le> length (ba_block s)" using inv by (simp add: analysis_inv_def)
  obtain pre post where b: "ba_block s = pre @ ?x # post" "drop (ba_I s) (ba_block s) = post"
    using split_at_I [OF I le] by metis
  have "\<not> restarted ls s" using x by (intro not_restarted [OF I]) auto
  then have d: "described ls s" using inv by (simp add: analysis_inv_def)
  have "terminators_last (pre @ ?x # post)" using wf b(1) by simp
  with x have "taken holds pre = None"
    by (intro taken_no_terminators) (auto simp: terminators_last_append)
  then have "block_exit holds ls (pre @ ?x # post) = block_exit holds ls post"
    using x by (simp add: block_exit_append) (simp add: block_exit_def)
  with b d t show ?thesis by (simp add: described_def)
qed

text \<open>The loop returns; its rewriting keeps the exit, and what it describes is the exit.\<close>

lemma analyze_loop_correct:
  "analysis_inv ls s \<Longrightarrow> \<exists>r. analyze_loop True ls s = Some r
     \<and> (\<forall>b t. r = Inr (b, t) \<longrightarrow>
          block_exit holds ls (ba_block t) = block_exit holds ls (ba_block s)
          \<and> (terminators_last (ba_block s) \<and> \<not> b \<longrightarrow>
               block_exit holds ls (ba_block t)
                 = described_exit holds ls (ba_TBB t) (ba_FBB t) (ba_Cond t)))"
proof (induction s rule: wf_induct_rule [OF wf_analysis_measure [of ls]])
  case (1 s)
  show ?case
  proof (cases "analyze_step True ls s")
    case (Inl e)
    then show ?thesis by (subst analyze_loop.simps) simp
  next
    case (Inr st)
    show ?thesis
    proof (cases st)
      case (Continue t)
      note step = Inr [unfolded Continue]
      note inv = analyze_step_inv [OF 1(2) step]
      from 1(1) [of t] inv obtain r where "analyze_loop True ls t = Some r"
        and "\<forall>b u. r = Inr (b, u) \<longrightarrow> block_exit holds ls (ba_block u) = block_exit holds ls (ba_block t)
           \<and> (terminators_last (ba_block t) \<and> \<not> b \<longrightarrow> block_exit holds ls (ba_block u)
                = described_exit holds ls (ba_TBB u) (ba_FBB u) (ba_Cond u))"
        by blast
      with inv step_exit [OF 1(2) step] step show ?thesis
        by (subst analyze_loop.simps) auto
    next
      case (Return b t)
      note step = Inr [unfolded Return]
      have "ba_block t = ba_block s"
        using step by (auto simp: analyze_step_def Let_def analyze_uncond_def analyze_cond_def
          outcome_inv asserting_def split: if_splits option.splits)
      with step step_described [OF 1(2), of t] show ?thesis
        by (subst analyze_loop.simps) auto
    qed
  qed
qed

end

interpretation flag_conditions: branch_conditions "cond_holds f" for f
  by unfold_locales (rule opposite_holds)

section \<open>Inserting, analysing, removing\<close>

lemma analyze_rest:
  assumes "\<And>x. x \<in> set MBB \<Longrightarrow> \<not> isTerminator (Opcode x)" and "ba_block s = MBB @ post"
  shows "ba_I s \<le> length MBB \<Longrightarrow> \<exists>k. analyze_loop am ls s = Some (Inr (False, s\<lparr>ba_I := k\<rparr>))"
  using assms(2)
proof (induction "ba_I s" arbitrary: s)
  case 0
  then have "analyze_step am ls s = Inr (Return False s)" by (simp add: analyze_step_def)
  moreover have "s = s\<lparr>ba_I := 0\<rparr>" using 0(1) by simp
  ultimately show ?case by (intro exI [of _ 0], subst analyze_loop.simps) simp
next
  case (Suc n)
  let ?x = "(MBB @ post) ! n"
  have "?x \<in> set MBB" using Suc.prems Suc.hyps(2) by (simp add: nth_append)
  then have x: "\<not> isTerminator (Opcode ?x)" using assms(1) by blast
  have I: "ba_I s = Suc n" using Suc.hyps(2) by simp
  show ?case
  proof (cases "isDebugValue ?x")
    case True
    then have "analyze_step am ls s = Inr (Continue (s\<lparr>ba_I := n\<rparr>))"
      by (simp add: analyze_step_def I Suc.prems(2))
    with Suc.hyps(1) [of "s\<lparr>ba_I := n\<rparr>"] Suc.prems I show ?thesis
      by (subst analyze_loop.simps) simp
  next
    case False
    with x have "analyze_step am ls s = Inr (Return False (s\<lparr>ba_I := n\<rparr>))"
      by (simp add: analyze_step_def isUnpredicatedTerminator_def I Suc.prems(2))
    then show ?thesis by (intro exI [of _ n], subst analyze_loop.simps) simp
  qed
qed

lemma not_removable: "\<not> isTerminator (Opcode x) \<Longrightarrow> \<not> is_removable_branch x"
  using cond_branch_terminator by (auto simp: is_removable_branch_def)

lemma remove_rest:
  assumes "\<And>x. x \<in> set MBB \<Longrightarrow> \<not> isTerminator (Opcode x)"
  shows "I \<le> length MBB \<Longrightarrow> remove_loop l MBB I c b = (MBB, c, b)"
proof (induction I)
  case 0
  then show ?case by simp
next
  case (Suc n)
  then have "\<not> is_removable_branch (MBB ! n)" using assms by (intro not_removable) simp
  with Suc show ?case by simp
qed

lemma remove_last_branch:
  assumes "is_removable_branch x"
  shows "remove_loop l (MBB @ [x]) (Suc (length MBB)) c b
    = remove_loop l MBB (length MBB) (Suc c) (b + getInstSizeInBytes l x)"
proof -
  have "\<not> isDebugValue x"
    using assms by (auto simp: is_removable_branch_def isDebugValue_def getCondFromBranchOpc_def)
  then show ?thesis
    using assms by (subst remove_loop.simps) (simp add: remove_nth_def del: remove_loop.simps)
qed

lemma removable_built:
  "is_removable_branch (BuildMI (Br RJMPk) ops)"
  "getBrCond c = Inr opc \<Longrightarrow> is_removable_branch (BuildMI opc ops)"
  using getCond_getBrCond by (auto simp: is_removable_branch_def getBrCond_def split: CondCodes.splits)

text \<open>One recorded branch at the iterator.\<close>

lemma analyze_rjmp_step:
  "ba_block s = MBB @ BuildMI (Br RJMPk) [MO_MachineBasicBlock t] # post \<Longrightarrow> ba_I s = Suc (length MBB) \<Longrightarrow>
   analyze_loop False ls s
     = analyze_loop False ls (s\<lparr>ba_I := length MBB, ba_UnCond := Some (length MBB), ba_TBB := Some t\<rparr>)"
  by (subst analyze_loop.simps)
    (simp add: analyze_step_def analyze_uncond_def Let_def isDebugValue_def isUnpredicatedTerminator_def)

lemma analyze_cond_step:
  assumes "getBrCond c = Inr opc"
    and "ba_block s = MBB @ BuildMI opc [MO_MachineBasicBlock t] # post" and "ba_I s = Suc (length MBB)"
    and "ba_Cond s = []"
  shows "analyze_loop False ls s
     = analyze_loop False ls (s\<lparr>ba_I := length MBB, ba_FBB := ba_TBB s, ba_TBB := Some t, ba_Cond := [c]\<rparr>)"
proof -
  have c: "getCondFromBranchOpc opc = c" "c \<noteq> COND_INVALID"
    using assms(1) getCond_getBrCond by (auto simp: getBrCond_def)
  then have "isTerminator opc" "isBranch opc" "opc \<noteq> Br RJMPk" "opc \<noteq> Misc DBG_VALUE"
    using cond_branch_terminator [of opc] by (auto simp: isTerminator_def)
  with c assms(2-) show ?thesis
    by (subst analyze_loop.simps)
      (auto simp: analyze_step_def analyze_cond_def Let_def isDebugValue_def isUnpredicatedTerminator_def
        split: option.splits)
qed

definition undone ::
  "(instr \<Rightarrow> nat) \<Rightarrow> nat option \<Rightarrow> block \<Rightarrow> block \<Rightarrow> nat option \<Rightarrow> nat option \<Rightarrow> CondCodes list
   \<Rightarrow> nat \<Rightarrow> nat \<Rightarrow> bool" where
  "undone asm ls MBB MBB' TBB FBB Cond Count Bytes \<longleftrightarrow>
     (\<exists>s. analyzeBranch False ls MBB' = Some (Inr (False, s))
        \<and> ba_block s = MBB' \<and> ba_TBB s = TBB \<and> ba_FBB s = FBB \<and> ba_Cond s = Cond)
     \<and> removeBranch asm MBB' = (MBB, Count, Bytes) \<and> Bytes = 2 * Count"

lemma size_built_branch:
  "getInstSizeInBytes asm (BuildMI (Br RJMPk) ops) = 2"
  "getBrCond c = Inr opc \<Longrightarrow> getInstSizeInBytes asm (BuildMI opc ops) = 2"
  by (auto simp: getInstSizeInBytes_def getSize_def getBrCond_def split: CondCodes.splits)

lemma rest_of_analysis:
  assumes "\<forall>x \<in> set MBB. \<not> isTerminator (Opcode x)" and "ba_block s = MBB @ post"
    and "ba_I s = length MBB"
  obtains k where "analyze_loop False ls s = Some (Inr (False, s\<lparr>ba_I := k\<rparr>))"
proof -
  have "\<exists>k. analyze_loop False ls s = Some (Inr (False, s\<lparr>ba_I := k\<rparr>))"
    using assms by (intro analyze_rest) auto
  then show thesis using that by blast
qed

lemma undone_uncond:
  assumes "\<forall>x \<in> set MBB. \<not> isTerminator (Opcode x)"
  shows "undone asm ls MBB (MBB @ [BuildMI (Br RJMPk) [MO_MachineBasicBlock T]]) (Some T) None [] 1 2"
proof -
  let ?M = "MBB @ [BuildMI (Br RJMPk) [MO_MachineBasicBlock T]]"
  let ?s = "(analyze_init ?M)\<lparr>ba_I := length MBB, ba_UnCond := Some (length MBB), ba_TBB := Some T\<rparr>"
  have "analyzeBranch False ls ?M = analyze_loop False ls ?s"
    by (simp add: analyzeBranch_def analyze_rjmp_step [of _ MBB T "[]"] analyze_init_def)
  moreover obtain k where "analyze_loop False ls ?s = Some (Inr (False, ?s\<lparr>ba_I := k\<rparr>))"
    by (rule rest_of_analysis [OF assms, of ?s]) (simp_all add: analyze_init_def)
  moreover have "removeBranch asm ?M = (MBB, 1, 2)"
    using assms remove_rest [of MBB "length MBB"]
    by (simp add: removeBranch_def remove_last_branch removable_built size_built_branch
      del: remove_loop.simps)
  ultimately show ?thesis by (simp add: undone_def analyze_init_def)
qed

lemma undone_cond:
  assumes "\<forall>x \<in> set MBB. \<not> isTerminator (Opcode x)" and c: "getBrCond c = Inr opc"
  shows "undone asm ls MBB (MBB @ [BuildMI opc [MO_MachineBasicBlock T]]) (Some T) None [c] 1 2"
proof -
  let ?M = "MBB @ [BuildMI opc [MO_MachineBasicBlock T]]"
  let ?s = "(analyze_init ?M)\<lparr>ba_I := length MBB, ba_TBB := Some T, ba_Cond := [c]\<rparr>"
  have "analyzeBranch False ls ?M = analyze_loop False ls ?s"
    by (simp add: analyzeBranch_def analyze_cond_step [OF c, of _ MBB T "[]"] analyze_init_def)
  moreover obtain k where "analyze_loop False ls ?s = Some (Inr (False, ?s\<lparr>ba_I := k\<rparr>))"
    by (rule rest_of_analysis [OF assms(1), of ?s]) (simp_all add: analyze_init_def)
  moreover have "removeBranch asm ?M = (MBB, 1, 2)"
    using assms(1) remove_rest [of MBB "length MBB"]
    by (simp add: removeBranch_def remove_last_branch removable_built(2) [OF c] size_built_branch(2) [OF c]
      del: remove_loop.simps)
  ultimately show ?thesis by (simp add: undone_def analyze_init_def)
qed

lemma undone_two_way:
  assumes "\<forall>x \<in> set MBB. \<not> isTerminator (Opcode x)" and c: "getBrCond c = Inr opc"
  shows "undone asm ls MBB (MBB @ [BuildMI opc [MO_MachineBasicBlock T],
    BuildMI (Br RJMPk) [MO_MachineBasicBlock F]]) (Some T) (Some F) [c] 2 4"
proof -
  let ?B = "MBB @ [BuildMI opc [MO_MachineBasicBlock T]]" and ?j = "BuildMI (Br RJMPk) [MO_MachineBasicBlock F]"
  let ?M = "?B @ [?j]"
  let ?s1 = "(analyze_init ?M)\<lparr>ba_I := length ?B, ba_UnCond := Some (length ?B), ba_TBB := Some F\<rparr>"
  let ?s2 = "?s1\<lparr>ba_I := length MBB, ba_FBB := Some F, ba_TBB := Some T, ba_Cond := [c]\<rparr>"
  have "analyzeBranch False ls ?M = analyze_loop False ls ?s1"
    unfolding analyzeBranch_def by (rule trans [OF analyze_rjmp_step [of _ ?B F "[]"]]) (simp_all add: analyze_init_def)
  moreover have "analyze_loop False ls ?s1 = analyze_loop False ls ?s2"
    by (rule trans [OF analyze_cond_step [OF c, of _ MBB T "[?j]"]]) (simp_all add: analyze_init_def)
  moreover obtain k where "analyze_loop False ls ?s2 = Some (Inr (False, ?s2\<lparr>ba_I := k\<rparr>))"
    by (rule rest_of_analysis [OF assms(1), of ?s2]) (simp_all add: analyze_init_def)
  moreover have "removeBranch asm ?M = (MBB, 2, 4)"
    using assms(1) remove_rest [of MBB "length MBB"] remove_last_branch [of ?j asm ?B 0 0]
    by (simp add: removeBranch_def remove_last_branch removable_built(1) removable_built(2) [OF c]
      size_built_branch(1) size_built_branch(2) [OF c] del: remove_loop.simps)
  ultimately show ?thesis by (simp add: undone_def analyze_init_def)
qed

text \<open>
  Property C2. Branches that \<open>insertBranch\<close> adds to a block without terminators are the
  ones that \<open>analyzeBranch\<close> finds and that \<open>removeBranch\<close> takes away: the analysis gives
  back the targets and the condition, the removal gives back the block, and the counts and
  the bytes of the two agree, two bytes for each branch.
\<close>

theorem insert_analyze_remove:
  assumes "\<forall>x \<in> set MBB. \<not> isTerminator (Opcode x)"
    and "insertBranch asm MBB TBB FBB Cond = Inr (MBB', Count, Bytes)"
  shows "(\<exists>s. analyzeBranch False ls MBB' = Some (Inr (False, s))
        \<and> ba_block s = MBB' \<and> ba_TBB s = TBB \<and> ba_FBB s = FBB \<and> ba_Cond s = Cond)
    \<and> removeBranch asm MBB' = (MBB, Count, Bytes) \<and> Bytes = 2 * Count"
proof -
  from assms(2) obtain T where T: "TBB = Some T" by (cases TBB) (auto simp: insertBranch_def)
  have "undone asm ls MBB MBB' TBB FBB Cond Count Bytes"
  proof (cases "Cond = []")
    case True
    with assms T show ?thesis
      by (auto simp: insertBranch_def outcome_inv size_built_branch undone_uncond [unfolded One_nat_def])
  next
    case False
    with assms(2) T obtain c opc where c: "Cond = [c]" "getBrCond c = Inr opc"
      by (cases Cond) (auto simp: insertBranch_def outcome_inv)
    with assms T show ?thesis
      by (cases FBB) (auto simp: insertBranch_def Let_def size_built_branch(1)
        size_built_branch(2) [OF c(2)] undone_cond [OF _ c(2), unfolded One_nat_def] undone_two_way [OF _ c(2)])
  qed
  then show ?thesis by (simp add: undone_def)
qed

theorem insert_analyze_remove_witness:
  "\<exists>b. insertBranch (\<lambda>_. 0) [] (Some 3) (Some 4) [COND_LT] = Inr b
     \<and> removeBranch (\<lambda>_. 0) (fst b) = ([], 2, 4)"
  using insert_analyze_remove [of "[]" "\<lambda>_. 0" "Some 3" "Some 4" "[COND_LT]"]
  by (simp add: insertBranch_def getBrCond_def getInstSizeInBytes_def getSize_def)

text \<open>
  Property C1. \<open>analyzeBranch\<close> with leave to modify always returns. Its rewriting, which
  deletes what follows a jump, deletes jumps to the layout successor and reverses a
  conditional branch around such a jump, keeps the exit of the block under every state of
  the flags; and when it reports success on a block whose terminators come last, the block
  leaves where the targets and the condition it returns say.
\<close>

theorem analyzeBranch_correct:
  "\<exists>r. analyzeBranch True ls MBB = Some r
     \<and> (\<forall>b t f. r = Inr (b, t) \<longrightarrow>
          block_exit (cond_holds f) ls (ba_block t) = block_exit (cond_holds f) ls MBB
          \<and> (terminators_last MBB \<and> \<not> b \<longrightarrow>
               block_exit (cond_holds f) ls MBB
                 = described_exit (cond_holds f) ls (ba_TBB t) (ba_FBB t) (ba_Cond t)))"
proof -
  note c = flag_conditions.analyze_loop_correct [OF analysis_inv_init, of ls MBB]
  have b: "ba_block (analyze_init MBB) = MBB" by (simp add: analyze_init_def)
  from c obtain r where r: "analyzeBranch True ls MBB = Some r" unfolding analyzeBranch_def by blast
  with c have k: "\<forall>b t. r = Inr (b, t) \<longrightarrow>
      block_exit (cond_holds f) ls (ba_block t) = block_exit (cond_holds f) ls MBB
      \<and> (terminators_last MBB \<and> \<not> b \<longrightarrow>
           block_exit (cond_holds f) ls (ba_block t)
             = described_exit (cond_holds f) ls (ba_TBB t) (ba_FBB t) (ba_Cond t))" for f
    unfolding analyzeBranch_def b by (metis option.inject)
  show ?thesis
  proof (intro exI [of _ r] conjI allI impI r)
    fix b t f assume e: "r = Inr (b, t)"
    from k [rule_format, OF e] show "block_exit (cond_holds f) ls (ba_block t) = block_exit (cond_holds f) ls MBB"
      by blast
    assume "terminators_last MBB \<and> \<not> b"
    with k [rule_format, OF e, of f] show "block_exit (cond_holds f) ls MBB
        = described_exit (cond_holds f) ls (ba_TBB t) (ba_FBB t) (ba_Cond t)"
      by metis
  qed
qed

theorem analyzeBranch_correct_witness:
  "\<exists>t. analyzeBranch True (Some 1)
        [BuildMI (Br BREQk) [MO_MachineBasicBlock 1], BuildMI (Br RJMPk) [MO_MachineBasicBlock 2]]
      = Some (Inr (False, t))
     \<and> block_exit (cond_holds \<lparr>C_flag = False, Z_flag = True, N_flag = False, V_flag = False\<rparr>)
         (Some 1) (ba_block t) = To 1
     \<and> ba_TBB t = Some 2 \<and> ba_Cond t = [COND_NE]"
proof -
  let ?M = "[BuildMI (Br BREQk) [MO_MachineBasicBlock 1], BuildMI (Br RJMPk) [MO_MachineBasicBlock 2]]"
  let ?f = "\<lparr>C_flag = False, Z_flag = True, N_flag = False, V_flag = False\<rparr>"
  note eval = analyze_step_def analyze_uncond_def analyze_cond_def analyze_init_def isDebugValue_def
    isUnpredicatedTerminator_def isTerminator_def isBranch_def getCondFromBranchOpc_def
    getOppositeCondition_def getBrCond_def reverse_branches_def remove_nth_def Let_def
  have "\<exists>t. analyzeBranch True (Some 1) ?M = Some (Inr (False, t)) \<and> ba_TBB t = Some 2 \<and> ba_Cond t = [COND_NE]"
    unfolding analyzeBranch_def by (simp add: analyze_loop.simps eval)
  then obtain t where t: "analyzeBranch True (Some 1) ?M = Some (Inr (False, t))"
      "ba_TBB t = Some 2" "ba_Cond t = [COND_NE]" by blast
  then have "block_exit (cond_holds ?f) (Some 1) (ba_block t) = block_exit (cond_holds ?f) (Some 1) ?M"
    using analyzeBranch_correct [of "Some 1" ?M] by auto
  also have "\<dots> = To 1"
    by (simp add: block_exit_def isTerminator_def getCondFromBranchOpc_def cond_holds_def branch_exit_def)
  finally show ?thesis using t by blast
qed

end
