(* ===== verification/Expand_Pseudo.thy ===== *)
theory Expand_Pseudo
  imports MC_Inst_Lower
begin

unbundle bit_operations_syntax

text \<open>
  The expansion of pseudo instructions, \<open>SNESExpandPseudoInsts.cpp\<close>. Each specialisation of
  \<open>expand<OP>\<close> is a definition that gives the instructions inserted before the pseudo
  instruction, which is then erased. Memory operands and debug locations are left out. The
  registers that the scavenger reports as available at an instruction are a parameter.
\<close>

section \<open>Shared shapes\<close>

text \<open>\<open>unsigned Imm = MI.getOperand(i).getImm()\<close>: the immediate cut to 32 bits.\<close>

definition getImm32 :: "instr \<Rightarrow> nat \<Rightarrow> u32 outcome" where
  "getImm32 MI i = obind (getImm MI i) (\<lambda>v. Inr (ucast v))"

definition imm32 :: "u32 \<Rightarrow> operand" where
  "imm32 v = MO_Immediate (ucast v)"

definition lo8_imm :: "u32 \<Rightarrow> operand" where
  "lo8_imm v = imm32 (v AND 0xff)"

definition hi8_imm :: "u32 \<Rightarrow> operand" where
  "hi8_imm v = imm32 (drop_bit 8 v AND 0xff)"

text \<open>
  Marking the status register on the instruction that comes last: its definition is dead
  when the pseudo's was, its use is always killed.
\<close>

definition mark_P :: "bool \<Rightarrow> nat \<Rightarrow> nat \<Rightarrow> instr \<Rightarrow> instr outcome" where
  "mark_P ImpIsDead def_op use_op MI =
     obind (setIsDead_if ImpIsDead def_op MI) (setIsKill use_op)"

section \<open>Arithmetic and logic\<close>

definition expandArith :: "opcode \<Rightarrow> opcode \<Rightarrow> instr \<Rightarrow> instr list outcome" where
  "expandArith OpLo OpHi MI =
     obind (getReg MI 0) (\<lambda>DstReg. obind (getReg MI 2) (\<lambda>SrcReg.
     obind (isDead MI 0) (\<lambda>DstIsDead. obind (isKill MI 1) (\<lambda>DstIsKill.
     obind (isKill MI 2) (\<lambda>SrcIsKill. obind (isDead MI 3) (\<lambda>ImpIsDead.
     obind (splitReg SrcReg) (\<lambda>(SrcLoReg, SrcHiReg). obind (splitReg DstReg) (\<lambda>(DstLoReg, DstHiReg).
       let MIBLO = BuildMI OpLo [def_dead DstLoReg DstIsDead, use_kill DstLoReg DstIsKill,
                                 use_kill SrcLoReg SrcIsKill];
           MIBHI = BuildMI OpHi [def_dead DstHiReg DstIsDead, use_kill DstHiReg DstIsKill,
                                 use_kill SrcHiReg SrcIsKill]
       in obind (mark_P ImpIsDead 3 4 MIBHI) (\<lambda>HI. Inr [MIBLO, HI])))))))))"

definition expandLogic :: "opcode \<Rightarrow> instr \<Rightarrow> instr list outcome" where
  "expandLogic Op MI =
     obind (getReg MI 0) (\<lambda>DstReg. obind (getReg MI 2) (\<lambda>SrcReg.
     obind (isDead MI 0) (\<lambda>DstIsDead. obind (isKill MI 1) (\<lambda>DstIsKill.
     obind (isKill MI 2) (\<lambda>SrcIsKill. obind (isDead MI 3) (\<lambda>ImpIsDead.
     obind (splitReg SrcReg) (\<lambda>(SrcLoReg, SrcHiReg). obind (splitReg DstReg) (\<lambda>(DstLoReg, DstHiReg).
       let MIBLO = BuildMI Op [def_dead DstLoReg DstIsDead, use_kill DstLoReg DstIsKill,
                               use_kill SrcLoReg SrcIsKill];
           MIBHI = BuildMI Op [def_dead DstHiReg DstIsDead, use_kill DstHiReg DstIsKill,
                               use_kill SrcHiReg SrcIsKill]
       in obind (setIsDead 3 MIBLO) (\<lambda>LO. obind (setIsDead_if ImpIsDead 3 MIBHI) (\<lambda>HI.
            Inr [LO, HI]))))))))))"

definition isLogicImmOpRedundant :: "opcode \<Rightarrow> u32 \<Rightarrow> bool" where
  "isLogicImmOpRedundant Op ImmVal =
     (if Op = Alu ANDimm16 \<and> ImmVal = 0xff then True
      else if Op = Alu ORAimm16 \<and> ImmVal = 0 then True else False)"

definition expandLogicImm :: "opcode \<Rightarrow> instr \<Rightarrow> instr list outcome" where
  "expandLogicImm Op MI =
     obind (getReg MI 0) (\<lambda>DstReg. obind (isDead MI 0) (\<lambda>DstIsDead.
     obind (isKill MI 1) (\<lambda>SrcIsKill. obind (isDead MI 3) (\<lambda>ImpIsDead.
     obind (getImm32 MI 2) (\<lambda>Imm. obind (splitReg DstReg) (\<lambda>(DstLoReg, DstHiReg).
       let Lo8 = Imm AND 0xff; Hi8 = drop_bit 8 Imm AND 0xff
       in obind (if isLogicImmOpRedundant Op Lo8 then Inr []
                 else obind (setIsDead 3 (BuildMI Op [def_dead DstLoReg DstIsDead,
                               use_kill DstLoReg SrcIsKill, imm32 Lo8])) (\<lambda>LO. Inr [LO])) (\<lambda>los.
          obind (if isLogicImmOpRedundant Op Hi8 then Inr []
                 else obind (setIsDead_if ImpIsDead 3 (BuildMI Op [def_dead DstHiReg DstIsDead,
                               use_kill DstHiReg SrcIsKill, imm32 Hi8])) (\<lambda>HI. Inr [HI])) (\<lambda>his.
          Inr (los @ his)))))))))"

text \<open>The second operands of the two halves of \<open>SUBIWRdK\<close>.\<close>

definition subiw_halves :: "operand \<Rightarrow> (operand \<times> operand) outcome" where
  "subiw_halves MO = (case MO of
     MO_GlobalAddress GV Offs TF \<Rightarrow>
       Inr (MO_GlobalAddress GV Offs (TF OR MO_NEG OR MO_LO), MO_GlobalAddress GV Offs (TF OR MO_NEG OR MO_HI))
   | MO_Immediate v \<Rightarrow> Inr (lo8_imm (ucast v), hi8_imm (ucast v))
   | _ \<Rightarrow> Inl (Unreachable ''Unknown operand type!''))"

definition expand_SUBIWRdK :: "instr \<Rightarrow> instr list outcome" where
  "expand_SUBIWRdK MI =
     obind (getReg MI 0) (\<lambda>DstReg. obind (isDead MI 0) (\<lambda>DstIsDead.
     obind (isKill MI 1) (\<lambda>SrcIsKill. obind (isDead MI 3) (\<lambda>ImpIsDead.
     obind (splitReg DstReg) (\<lambda>(DstLoReg, DstHiReg).
     obind (getOperand MI 2) (\<lambda>MO. obind (subiw_halves MO) (\<lambda>(lo, hi).
       let MIBLO = BuildMI (Alu SUBIRdK) [def_dead DstLoReg DstIsDead, use_kill DstLoReg SrcIsKill, lo];
           MIBHI = BuildMI (Alu SBCIRdK) [def_dead DstHiReg DstIsDead, use_kill DstHiReg SrcIsKill, hi]
       in obind (mark_P ImpIsDead 3 4 MIBHI) (\<lambda>HI. Inr [MIBLO, HI]))))))))"

definition expand_SBCIWRdK :: "instr \<Rightarrow> instr list outcome" where
  "expand_SBCIWRdK MI =
     obind (getReg MI 0) (\<lambda>DstReg. obind (isDead MI 0) (\<lambda>DstIsDead.
     obind (isKill MI 1) (\<lambda>SrcIsKill. obind (isDead MI 3) (\<lambda>ImpIsDead.
     obind (getImm32 MI 2) (\<lambda>Imm. obind (splitReg DstReg) (\<lambda>(DstLoReg, DstHiReg).
       let MIBLO = BuildMI (Alu SBCIRdK) [def_dead DstLoReg DstIsDead, use_kill DstLoReg SrcIsKill,
                                          lo8_imm Imm];
           MIBHI = BuildMI (Alu SBCIRdK) [def_dead DstHiReg DstIsDead, use_kill DstHiReg SrcIsKill,
                                          hi8_imm Imm]
       in obind (setIsKill 4 MIBLO) (\<lambda>LO. obind (mark_P ImpIsDead 3 4 MIBHI) (\<lambda>HI.
            Inr [LO, HI]))))))))"

definition expand_COMWRd :: "instr \<Rightarrow> instr list outcome" where
  "expand_COMWRd MI =
     obind (getReg MI 0) (\<lambda>DstReg. obind (isDead MI 0) (\<lambda>DstIsDead.
     obind (isKill MI 1) (\<lambda>DstIsKill. obind (isDead MI 2) (\<lambda>ImpIsDead.
     obind (splitReg DstReg) (\<lambda>(DstLoReg, DstHiReg).
       let MIBLO = BuildMI (Alu COMRd) [def_dead DstLoReg DstIsDead, use_kill DstLoReg DstIsKill];
           MIBHI = BuildMI (Alu COMRd) [def_dead DstHiReg DstIsDead, use_kill DstHiReg DstIsKill]
       in obind (setIsDead 2 MIBLO) (\<lambda>LO. obind (setIsDead_if ImpIsDead 2 MIBHI) (\<lambda>HI.
            Inr [LO, HI])))))))"

section \<open>Comparisons\<close>

definition expand_CPWRdRr :: "instr \<Rightarrow> instr list outcome" where
  "expand_CPWRdRr MI =
     obind (getReg MI 0) (\<lambda>DstReg. obind (getReg MI 1) (\<lambda>SrcReg.
     obind (isKill MI 0) (\<lambda>DstIsKill. obind (isKill MI 1) (\<lambda>SrcIsKill. obind (isDead MI 2) (\<lambda>ImpIsDead.
     obind (splitReg SrcReg) (\<lambda>(SrcLoReg, SrcHiReg). obind (splitReg DstReg) (\<lambda>(DstLoReg, DstHiReg).
       let MIBLO = BuildMI (Alu CPRdRr) [use_kill DstLoReg DstIsKill, use_kill SrcLoReg SrcIsKill];
           MIBHI = BuildMI (Alu CPCRdRr) [use_kill DstHiReg DstIsKill, use_kill SrcHiReg SrcIsKill]
       in obind (mark_P ImpIsDead 2 3 MIBHI) (\<lambda>HI. Inr [MIBLO, HI]))))))))"

definition expand_CPCWRdRr :: "instr \<Rightarrow> instr list outcome" where
  "expand_CPCWRdRr MI =
     obind (getReg MI 0) (\<lambda>DstReg. obind (getReg MI 1) (\<lambda>SrcReg.
     obind (isKill MI 0) (\<lambda>DstIsKill. obind (isKill MI 1) (\<lambda>SrcIsKill. obind (isDead MI 2) (\<lambda>ImpIsDead.
     obind (splitReg SrcReg) (\<lambda>(SrcLoReg, SrcHiReg). obind (splitReg DstReg) (\<lambda>(DstLoReg, DstHiReg).
       let MIBLO = BuildMI (Alu CPCRdRr) [use_kill DstLoReg DstIsKill, use_kill SrcLoReg SrcIsKill];
           MIBHI = BuildMI (Alu CPCRdRr) [use_kill DstHiReg DstIsKill, use_kill SrcHiReg SrcIsKill]
       in obind (setIsKill 3 MIBLO) (\<lambda>LO. obind (mark_P ImpIsDead 2 3 MIBHI) (\<lambda>HI.
            Inr [LO, HI])))))))))"

section \<open>Immediate and direct loads\<close>

definition ldiw_halves :: "operand \<Rightarrow> (operand \<times> operand) outcome" where
  "ldiw_halves MO = (case MO of
     MO_GlobalAddress GV Offs TF \<Rightarrow>
       Inr (MO_GlobalAddress GV Offs (TF OR MO_LO), MO_GlobalAddress GV Offs (TF OR MO_HI))
   | MO_BlockAddress BA Offs TF \<Rightarrow>
       Inr (MO_BlockAddress BA (ucast (TF OR MO_LO)) 0, MO_BlockAddress BA (ucast (TF OR MO_HI)) 0)
   | MO_Immediate v \<Rightarrow> Inr (lo8_imm (ucast v), hi8_imm (ucast v))
   | _ \<Rightarrow> Inl (Unreachable ''Unknown operand type!''))"

definition expand_LDIWRdK :: "instr \<Rightarrow> instr list outcome" where
  "expand_LDIWRdK MI =
     obind (getReg MI 0) (\<lambda>DstReg. obind (isDead MI 0) (\<lambda>DstIsDead.
     obind (splitReg DstReg) (\<lambda>(DstLoReg, DstHiReg).
     obind (getOperand MI 1) (\<lambda>MO. obind (ldiw_halves MO) (\<lambda>(lo, hi).
       Inr [BuildMI (Alu LDIRdK) [def_dead DstLoReg DstIsDead, lo],
            BuildMI (Alu LDIRdK) [def_dead DstHiReg DstIsDead, hi]])))))"

text \<open>The addresses of the low and the high byte of a direct access.\<close>

definition direct_halves :: "operand \<Rightarrow> (operand \<times> operand) outcome" where
  "direct_halves MO = (case MO of
     MO_GlobalAddress GV Offs TF \<Rightarrow> Inr (MO_GlobalAddress GV Offs TF, MO_GlobalAddress GV (Offs + 1) TF)
   | MO_Immediate v \<Rightarrow> Inr (imm32 (ucast v), imm32 (ucast v + 1))
   | _ \<Rightarrow> Inl (Unreachable ''Unknown operand type!''))"

definition expand_LDSWRdK :: "instr \<Rightarrow> instr list outcome" where
  "expand_LDSWRdK MI =
     obind (getReg MI 0) (\<lambda>DstReg. obind (isDead MI 0) (\<lambda>DstIsDead.
     obind (splitReg DstReg) (\<lambda>(DstLoReg, DstHiReg).
     obind (getOperand MI 1) (\<lambda>MO. obind (direct_halves MO) (\<lambda>(lo, hi).
       Inr [BuildMI (Mem LDSRdK) [def_dead DstLoReg DstIsDead, lo],
            BuildMI (Mem LDSRdK) [def_dead DstHiReg DstIsDead, hi]])))))"

section \<open>Indirect loads\<close>

text \<open>
  \<open>scavengeMainRegs\<close>: the first available register of \<open>MainRegs\<close> that the instruction does
  not use. \<open>avail\<close> is what \<open>RegScavenger::getRegsAvailable\<close> reports at the instruction.
\<close>

definition used_reg :: "operand \<Rightarrow> reg option" where
  "used_reg MO = (case MO of
     MO_Register r \<Rightarrow> if RegNo r \<noteq> NoRegister \<and> \<not> IsDef r then Some (RegNo r) else None
   | _ \<Rightarrow> None)"

definition scavengeMainRegs :: "(instr \<Rightarrow> reg \<Rightarrow> bool) \<Rightarrow> instr \<Rightarrow> reg outcome" where
  "scavengeMainRegs avail MI =
     (case find (\<lambda>r. avail MI r \<and> Some r \<notin> used_reg ` set (Operands MI)) (class_members MainRegs) of
        Some Reg \<Rightarrow> Inr Reg
      | None \<Rightarrow> Inl (Assertion ''ran out of registers''))"

text \<open>
  The shape of \<open>LDWRdPtr\<close> and \<open>LDDWRdPtrQ\<close>: through a temporary register and the stack when
  the pointer is the destination.
\<close>

definition expand_load_pair ::
  "(instr \<Rightarrow> reg \<Rightarrow> bool) \<Rightarrow> instr \<Rightarrow> opcode \<Rightarrow> operand list \<Rightarrow> operand \<Rightarrow> reg \<Rightarrow> reg \<Rightarrow> reg \<Rightarrow> reg
   \<Rightarrow> bool \<Rightarrow> instr list outcome" where
  "expand_load_pair avail MI OpLo lo_ops hi_op DstReg SrcReg DstLoReg DstHiReg SrcIsKill =
     (if DstReg = SrcReg then
        obind (scavengeMainRegs avail MI) (\<lambda>TmpReg.
          Inr [BuildMI OpLo ([def_reg TmpReg, use SrcReg] @ lo_ops),
               BuildMI (Mem PHAstk) [use TmpReg],
               BuildMI (Mem LDDRdPtrQ) [def_reg TmpReg, use_kill SrcReg SrcIsKill, hi_op],
               BuildMI (Alu MOVRdRr) [use DstHiReg, use TmpReg],
               BuildMI (Mem POPRd) [use DstLoReg]])
      else
        Inr [BuildMI OpLo ([def_reg DstLoReg, use SrcReg] @ lo_ops),
             BuildMI (Mem LDDRdPtrQ) [def_reg DstHiReg, use_kill SrcReg SrcIsKill, hi_op]])"

definition expand_LDWRdPtr :: "(instr \<Rightarrow> reg \<Rightarrow> bool) \<Rightarrow> instr \<Rightarrow> instr list outcome" where
  "expand_LDWRdPtr avail MI =
     obind (getReg MI 0) (\<lambda>DstReg. obind (getReg MI 1) (\<lambda>SrcReg. obind (isKill MI 1) (\<lambda>SrcIsKill.
     obind (splitReg DstReg) (\<lambda>(DstLoReg, DstHiReg).
       expand_load_pair avail MI (Mem LDRdPtr) [] (MO_Immediate 1) DstReg SrcReg DstLoReg DstHiReg
         SrcIsKill))))"

definition expand_LDWRdPtrPi :: "instr \<Rightarrow> instr list outcome" where
  "expand_LDWRdPtrPi MI =
     obind (getReg MI 0) (\<lambda>DstReg. obind (getReg MI 1) (\<lambda>SrcReg.
     obind (isDead MI 0) (\<lambda>DstIsDead. obind (isKill MI 1) (\<lambda>SrcIsDead.
     obind (splitReg DstReg) (\<lambda>(DstLoReg, DstHiReg).
       asserting (DstReg \<noteq> SrcReg) ''SrcReg and DstReg cannot be the same''
         (Inr [BuildMI (Mem LDRdPtrPi) [def_dead DstLoReg DstIsDead, def_reg SrcReg, use_kill SrcReg True],
               BuildMI (Mem LDRdPtrPi) [def_dead DstHiReg DstIsDead, def_dead SrcReg SrcIsDead,
                                        use_kill SrcReg True]]))))))"

definition expand_LDWRdPtrPd :: "instr \<Rightarrow> instr list outcome" where
  "expand_LDWRdPtrPd MI =
     obind (getReg MI 0) (\<lambda>DstReg. obind (getReg MI 1) (\<lambda>SrcReg.
     obind (isDead MI 0) (\<lambda>DstIsDead. obind (isKill MI 1) (\<lambda>SrcIsDead.
     obind (splitReg DstReg) (\<lambda>(DstLoReg, DstHiReg).
       asserting (DstReg \<noteq> SrcReg) ''SrcReg and DstReg cannot be the same''
         (Inr [BuildMI (Mem LDRdPtrPd) [def_dead DstHiReg DstIsDead, def_reg SrcReg, use_kill SrcReg True],
               BuildMI (Mem LDRdPtrPd) [def_dead DstLoReg DstIsDead, def_dead SrcReg SrcIsDead,
                                        use_kill SrcReg True]]))))))"

definition expand_LDDWRdPtrQ :: "(instr \<Rightarrow> reg \<Rightarrow> bool) \<Rightarrow> instr \<Rightarrow> instr list outcome" where
  "expand_LDDWRdPtrQ avail MI =
     obind (getReg MI 0) (\<lambda>DstReg. obind (getReg MI 1) (\<lambda>SrcReg. obind (getImm32 MI 2) (\<lambda>Imm.
     obind (isKill MI 1) (\<lambda>SrcIsKill. obind (splitReg DstReg) (\<lambda>(DstLoReg, DstHiReg).
       asserting (Imm \<le> 63) ''Offset is out of range''
         (expand_load_pair avail MI (Mem LDDRdPtrQ) [imm32 Imm] (imm32 (Imm + 1)) DstReg SrcReg
            DstLoReg DstHiReg SrcIsKill))))))"

definition expand_LPMWRdZ :: "instr \<Rightarrow> instr list outcome" where
  "expand_LPMWRdZ MI = Inl (Unreachable ''wide LPM is unimplemented'')"

definition expand_LPMWRdZPi :: "instr \<Rightarrow> instr list outcome" where
  "expand_LPMWRdZPi MI = Inl (Unreachable ''wide LPMPi is unimplemented'')"

section \<open>Atomic operations\<close>

definition SCRATCH_REGISTER :: reg where "SCRATCH_REGISTER = SNES_A"
definition P_ADDR :: u64 where "P_ADDR = 0x3f"

text \<open>The body runs between saving and restoring the status register, with interrupts off.\<close>

definition expandAtomic :: "instr list outcome \<Rightarrow> instr list outcome" where
  "expandAtomic body =
     obind body (\<lambda>is.
       Inr ([BuildMI (Mem INRdA) [def_reg SCRATCH_REGISTER, MO_Immediate P_ADDR],
             BuildMI (Alu BCLRs) [MO_Immediate 7]] @ is @
            [BuildMI (Mem OUTARr) [MO_Immediate P_ADDR, use SCRATCH_REGISTER]]))"

definition expandAtomicBinaryOp :: "opcode \<Rightarrow> instr \<Rightarrow> instr list outcome" where
  "expandAtomicBinaryOp Opc MI =
     expandAtomic (obind (getOperand MI 0) (\<lambda>Op1. obind (getOperand MI 1) (\<lambda>Op2.
       Inr [BuildMI Opc [Op1, Op2]])))"

definition expandAtomicArithmeticOp :: "nat \<Rightarrow> opcode \<Rightarrow> instr \<Rightarrow> instr list outcome" where
  "expandAtomicArithmeticOp Width ArithOpcode MI =
     expandAtomic (obind (getOperand MI 0) (\<lambda>Op1. obind (getOperand MI 1) (\<lambda>Op2.
       let LoadOpcode = (if Width = 8 then Mem LDRdPtr else Wide LDWRdPtr);
           StoreOpcode = (if Width = 8 then Mem STPtrRr else Wide STWPtrRr)
       in Inr [BuildMI LoadOpcode [Op1, Op2],
               BuildMI ArithOpcode [Op1, Op1, Op2],
               BuildMI StoreOpcode [Op2, Op1]])))"

definition expand_atomic :: "atomic_op \<Rightarrow> instr \<Rightarrow> instr list outcome" where
  "expand_atomic Op MI = (case Op of
     AtomicLoad8 \<Rightarrow> expandAtomicBinaryOp (Mem LDRdPtr) MI
   | AtomicLoad16 \<Rightarrow> expandAtomicBinaryOp (Wide LDWRdPtr) MI
   | AtomicStore8 \<Rightarrow> expandAtomicBinaryOp (Mem STPtrRr) MI
   | AtomicStore16 \<Rightarrow> expandAtomicBinaryOp (Wide STWPtrRr) MI
   | AtomicLoadAdd8 \<Rightarrow> expandAtomicArithmeticOp 8 (Alu ADDRdRr) MI
   | AtomicLoadAdd16 \<Rightarrow> expandAtomicArithmeticOp 16 (Wide ADDWRdRr) MI
   | AtomicLoadSub8 \<Rightarrow> expandAtomicArithmeticOp 8 (Alu SUBRdRr) MI
   | AtomicLoadSub16 \<Rightarrow> expandAtomicArithmeticOp 16 (Wide SUBWRdRr) MI
   | AtomicLoadAnd8 \<Rightarrow> expandAtomicArithmeticOp 8 (Alu ANDRdRr) MI
   | AtomicLoadAnd16 \<Rightarrow> expandAtomicArithmeticOp 16 (Wide ANDWRdRr) MI
   | AtomicLoadOr8 \<Rightarrow> expandAtomicArithmeticOp 8 (Alu ORRdRr) MI
   | AtomicLoadOr16 \<Rightarrow> expandAtomicArithmeticOp 16 (Wide ORWRdRr) MI
   | AtomicLoadXor8 \<Rightarrow> expandAtomicArithmeticOp 8 (Alu EORRdRr) MI
   | AtomicLoadXor16 \<Rightarrow> expandAtomicArithmeticOp 16 (Wide EORWRdRr) MI
   | AtomicFence \<Rightarrow> Inr [])"

section \<open>Stores\<close>

definition expand_STSWKRr :: "instr \<Rightarrow> instr list outcome" where
  "expand_STSWKRr MI =
     obind (getReg MI 1) (\<lambda>SrcReg. obind (isKill MI 1) (\<lambda>SrcIsKill.
     obind (splitReg SrcReg) (\<lambda>(SrcLoReg, SrcHiReg).
     obind (getOperand MI 0) (\<lambda>MO. obind (direct_halves MO) (\<lambda>(lo, hi).
       Inr [BuildMI (Mem STSKRr) [hi, use_kill SrcHiReg SrcIsKill],
            BuildMI (Mem STSKRr) [lo, use_kill SrcLoReg SrcIsKill]])))))"

definition expand_STWPtrRr :: "instr \<Rightarrow> instr list outcome" where
  "expand_STWPtrRr MI =
     obind (getReg MI 0) (\<lambda>DstReg. obind (getReg MI 1) (\<lambda>SrcReg. obind (isKill MI 1) (\<lambda>SrcIsKill.
     obind (splitReg SrcReg) (\<lambda>(SrcLoReg, SrcHiReg).
       Inr [BuildMI (Mem STPtrRr) [use DstReg, use_kill SrcLoReg SrcIsKill],
            BuildMI (Mem STDPtrQRr) [use DstReg, MO_Immediate 1, use_kill SrcHiReg SrcIsKill]]))))"

definition expand_STWPtrPiRr :: "instr \<Rightarrow> instr list outcome" where
  "expand_STWPtrPiRr MI =
     obind (getReg MI 0) (\<lambda>DstReg. obind (getReg MI 2) (\<lambda>SrcReg. obind (getImm32 MI 3) (\<lambda>Imm.
     obind (isDead MI 0) (\<lambda>DstIsDead. obind (isKill MI 2) (\<lambda>SrcIsKill.
     obind (splitReg SrcReg) (\<lambda>(SrcLoReg, SrcHiReg).
       asserting (DstReg \<noteq> SrcReg) ''SrcReg and DstReg cannot be the same''
         (Inr [BuildMI (Mem STPtrPiRr) [def_reg DstReg, use_kill DstReg True,
                 use_kill SrcLoReg SrcIsKill, imm32 Imm],
               BuildMI (Mem STPtrPiRr) [def_dead DstReg DstIsDead, use_kill DstReg True,
                 use_kill SrcHiReg SrcIsKill, imm32 Imm]])))))))"

definition expand_STWPtrPdRr :: "instr \<Rightarrow> instr list outcome" where
  "expand_STWPtrPdRr MI =
     obind (getReg MI 0) (\<lambda>DstReg. obind (getReg MI 2) (\<lambda>SrcReg. obind (getImm32 MI 3) (\<lambda>Imm.
     obind (isDead MI 0) (\<lambda>DstIsDead. obind (isKill MI 2) (\<lambda>SrcIsKill.
     obind (splitReg SrcReg) (\<lambda>(SrcLoReg, SrcHiReg).
       asserting (DstReg \<noteq> SrcReg) ''SrcReg and DstReg cannot be the same''
         (Inr [BuildMI (Mem STPtrPdRr) [def_reg DstReg, use_kill DstReg True,
                 use_kill SrcHiReg SrcIsKill, imm32 Imm],
               BuildMI (Mem STPtrPdRr) [def_dead DstReg DstIsDead, use_kill DstReg True,
                 use_kill SrcLoReg SrcIsKill, imm32 Imm]])))))))"

definition expand_STDWPtrQRr :: "instr \<Rightarrow> instr list outcome" where
  "expand_STDWPtrQRr MI =
     obind (getReg MI 0) (\<lambda>DstReg. obind (getReg MI 2) (\<lambda>SrcReg. obind (getImm32 MI 1) (\<lambda>Imm.
     obind (isKill MI 0) (\<lambda>DstIsKill. obind (isKill MI 2) (\<lambda>SrcIsKill.
     obind (splitReg SrcReg) (\<lambda>(SrcLoReg, SrcHiReg).
       asserting (Imm \<le> 63) ''Offset is out of range''
         (Inr [BuildMI (Mem STDPtrQRr) [use DstReg, imm32 Imm, use_kill SrcLoReg SrcIsKill],
               BuildMI (Mem STDPtrQRr) [use_kill DstReg DstIsKill, imm32 (Imm + 1),
                 use_kill SrcHiReg SrcIsKill]])))))))"

section \<open>Input, output and the stack\<close>

definition expand_INWRdA :: "instr \<Rightarrow> instr list outcome" where
  "expand_INWRdA MI =
     obind (getImm32 MI 1) (\<lambda>Imm. obind (getReg MI 0) (\<lambda>DstReg. obind (isDead MI 0) (\<lambda>DstIsDead.
     obind (splitReg DstReg) (\<lambda>(DstLoReg, DstHiReg).
       asserting (Imm \<le> 63) ''Address is out of range''
         (Inr [BuildMI (Mem INRdA) [def_dead DstLoReg DstIsDead, imm32 Imm],
               BuildMI (Mem INRdA) [def_dead DstHiReg DstIsDead, imm32 (Imm + 1)]])))))"

definition expand_OUTWARr :: "instr \<Rightarrow> instr list outcome" where
  "expand_OUTWARr MI =
     obind (getImm32 MI 0) (\<lambda>Imm. obind (getReg MI 1) (\<lambda>SrcReg. obind (isKill MI 1) (\<lambda>SrcIsKill.
     obind (splitReg SrcReg) (\<lambda>(SrcLoReg, SrcHiReg).
       asserting (Imm \<le> 63) ''Address is out of range''
         (Inr [BuildMI (Mem OUTARr) [imm32 (Imm + 1), use_kill SrcHiReg SrcIsKill],
               BuildMI (Mem OUTARr) [imm32 Imm, use_kill SrcLoReg SrcIsKill]])))))"

definition expand_PUSHWRr :: "instr \<Rightarrow> instr list outcome" where
  "expand_PUSHWRr MI =
     obind (getReg MI 0) (\<lambda>SrcReg. obind (isKill MI 0) (\<lambda>SrcIsKill.
       Inr [setMIFlags (Flags MI) (BuildMI (Mem PHAstk) [use_kill SrcReg SrcIsKill])]))"

definition expand_POPWRd :: "instr \<Rightarrow> instr list outcome" where
  "expand_POPWRd MI =
     obind (getReg MI 0) (\<lambda>DstReg. obind (splitReg DstReg) (\<lambda>(DstLoReg, DstHiReg).
       Inr [setMIFlags (Flags MI) (BuildMI (Mem POPRd) [def_reg DstHiReg]),
            setMIFlags (Flags MI) (BuildMI (Mem POPRd) [def_reg DstLoReg])]))"

section \<open>Shifts\<close>

text \<open>
  The operands that the three shifts read, then the low byte first for the shift to the
  left and the high byte first for the shifts to the right; the instruction built last
  carries the marks of the status register.
\<close>

definition expand_shift :: "bool \<Rightarrow> alu_op \<Rightarrow> alu_op \<Rightarrow> instr \<Rightarrow> instr list outcome" where
  "expand_shift low_first OpLo OpHi MI =
     obind (getReg MI 0) (\<lambda>DstReg. obind (isDead MI 0) (\<lambda>DstIsDead.
     obind (isKill MI 1) (\<lambda>DstIsKill. obind (isDead MI 2) (\<lambda>ImpIsDead.
     obind (splitReg DstReg) (\<lambda>(DstLoReg, DstHiReg).
       let MIBLO = BuildMI (Alu OpLo) [def_dead DstLoReg DstIsDead, use_kill DstLoReg DstIsKill];
           MIBHI = BuildMI (Alu OpHi) [def_dead DstHiReg DstIsDead, use_kill DstHiReg DstIsKill]
       in if low_first then obind (mark_P ImpIsDead 2 3 MIBHI) (\<lambda>HI. Inr [MIBLO, HI])
          else obind (mark_P ImpIsDead 2 3 MIBLO) (\<lambda>LO. Inr [MIBHI, LO]))))))"

definition expand_LSLWRd :: "instr \<Rightarrow> instr list outcome" where
  "expand_LSLWRd = expand_shift True LSLRd ROLRd"

definition expand_LSRWRd :: "instr \<Rightarrow> instr list outcome" where
  "expand_LSRWRd = expand_shift False RORRd LSRRd"

definition expand_RORWRd :: "instr \<Rightarrow> instr list outcome" where
  "expand_RORWRd MI = Inl (Unreachable ''RORW unimplemented'')"

definition expand_ROLWRd :: "instr \<Rightarrow> instr list outcome" where
  "expand_ROLWRd MI = Inl (Unreachable ''ROLW unimplemented'')"

definition expand_ASRWRd :: "instr \<Rightarrow> instr list outcome" where
  "expand_ASRWRd = expand_shift False RORRd ASRRd"

section \<open>The stack pointer\<close>

text \<open>
  The specialisation for \<open>SPREAD\<close> is commented out in the source, although \<open>expandMI\<close>
  dispatches to it.
\<close>

definition expand_SPREAD :: "instr \<Rightarrow> instr list outcome" where
  "expand_SPREAD MI = Inl (Undefined ''expand<SNES::SPREAD>'')"

definition expand_SPWRITE :: "instr \<Rightarrow> instr list outcome" where
  "expand_SPWRITE MI =
     obind (getReg MI 1) (\<lambda>SrcReg. obind (isKill MI 1) (\<lambda>SrcIsKill.
     obind (splitReg SrcReg) (\<lambda>(SrcLoReg, SrcHiReg).
       Inr (List.map (setMIFlags (Flags MI))
         [BuildMI (Mem INRdA) [def_reg SNES_A, MO_Immediate P_ADDR],
          BuildMI (Alu BCLRs) [MO_Immediate 7],
          BuildMI (Mem OUTARr) [MO_Immediate 0x3e, use_kill SrcHiReg SrcIsKill],
          BuildMI (Mem OUTARr) [MO_Immediate P_ADDR, use_kill SNES_A True],
          BuildMI (Mem OUTARr) [MO_Immediate 0x3d, use_kill SrcLoReg SrcIsKill]]))))"

section \<open>Dispatch and the expansion loop\<close>

definition expand_wide :: "(instr \<Rightarrow> reg \<Rightarrow> bool) \<Rightarrow> wide_op \<Rightarrow> instr \<Rightarrow> instr list outcome" where
  "expand_wide avail Op MI = (case Op of
     ADDWRdRr \<Rightarrow> expandArith (Alu ADDRdRr) (Alu ADCRdRr) MI
   | ADCWRdRr \<Rightarrow> expandArith (Alu ADCRdRr) (Alu ADCRdRr) MI
   | SUBWRdRr \<Rightarrow> expandArith (Alu SUBRdRr) (Alu SBCRdRr) MI
   | SUBIWRdK \<Rightarrow> expand_SUBIWRdK MI
   | SBCWRdRr \<Rightarrow> expandArith (Alu SBCRdRr) (Alu SBCRdRr) MI
   | SBCIWRdK \<Rightarrow> expand_SBCIWRdK MI
   | ANDWRdRr \<Rightarrow> expandLogic (Alu ANDRdRr) MI
   | ANDIWRdK \<Rightarrow> expandLogicImm (Alu ANDimm16) MI
   | ORWRdRr \<Rightarrow> expandLogic (Alu ORRdRr) MI
   | ORIWRdK \<Rightarrow> expandLogicImm (Alu ORAimm16) MI
   | EORWRdRr \<Rightarrow> expandLogic (Alu EORRdRr) MI
   | COMWRd \<Rightarrow> expand_COMWRd MI
   | CPWRdRr \<Rightarrow> expand_CPWRdRr MI
   | CPCWRdRr \<Rightarrow> expand_CPCWRdRr MI
   | LDIWRdK \<Rightarrow> expand_LDIWRdK MI
   | LDSWRdK \<Rightarrow> expand_LDSWRdK MI
   | LDWRdPtr \<Rightarrow> expand_LDWRdPtr avail MI
   | LDWRdPtrPi \<Rightarrow> expand_LDWRdPtrPi MI
   | LDWRdPtrPd \<Rightarrow> expand_LDWRdPtrPd MI
   | LDDWRdYQ \<Rightarrow> expand_LDDWRdPtrQ avail MI
   | LDDWRdPtrQ \<Rightarrow> expand_LDDWRdPtrQ avail MI
   | LPMWRdZ \<Rightarrow> expand_LPMWRdZ MI
   | LPMWRdZPi \<Rightarrow> expand_LPMWRdZPi MI
   | STSWKRr \<Rightarrow> expand_STSWKRr MI
   | STWPtrRr \<Rightarrow> expand_STWPtrRr MI
   | STWPtrPiRr \<Rightarrow> expand_STWPtrPiRr MI
   | STWPtrPdRr \<Rightarrow> expand_STWPtrPdRr MI
   | STDWPtrQRr \<Rightarrow> expand_STDWPtrQRr MI
   | INWRdA \<Rightarrow> expand_INWRdA MI
   | OUTWARr \<Rightarrow> expand_OUTWARr MI
   | PUSHWRr \<Rightarrow> expand_PUSHWRr MI
   | POPWRd \<Rightarrow> expand_POPWRd MI
   | LSLWRd \<Rightarrow> expand_LSLWRd MI
   | LSRWRd \<Rightarrow> expand_LSRWRd MI
   | RORWRd \<Rightarrow> expand_RORWRd MI
   | ROLWRd \<Rightarrow> expand_ROLWRd MI
   | ASRWRd \<Rightarrow> expand_ASRWRd MI
   | SPREAD \<Rightarrow> expand_SPREAD MI
   | SPWRITE \<Rightarrow> expand_SPWRITE MI)"

text \<open>Whether the instruction was expanded, and what stands in its place.\<close>

definition expandMI :: "(instr \<Rightarrow> reg \<Rightarrow> bool) \<Rightarrow> instr \<Rightarrow> (bool \<times> instr list) outcome" where
  "expandMI avail MI = (case Opcode MI of
     Wide Op \<Rightarrow> obind (expand_wide avail Op MI) (\<lambda>is. Inr (True, is))
   | Atomic Op \<Rightarrow> obind (expand_atomic Op MI) (\<lambda>is. Inr (True, is))
   | _ \<Rightarrow> Inr (False, [MI]))"

text \<open>
  The walk over a block: the next instruction is fixed before an expansion, so inserted
  instructions are not visited in the same walk.
\<close>

definition expandMBB :: "(instr \<Rightarrow> reg \<Rightarrow> bool) \<Rightarrow> block \<Rightarrow> (bool \<times> block) outcome" where
  "expandMBB avail MBB =
     obind (omap (expandMI avail) MBB) (\<lambda>rs. Inr (list_ex fst rs, concat (List.map snd rs)))"

text \<open>
  The \<open>do\<close>/\<open>while\<close> loop over one block, at the given \<open>ExpandCount\<close>. The availability of
  registers is asked anew in every round.
\<close>

function expand_block ::
  "(nat \<Rightarrow> instr \<Rightarrow> reg \<Rightarrow> bool) \<Rightarrow> nat \<Rightarrow> block \<Rightarrow> (bool \<times> block) outcome" where
  "expand_block avail ExpandCount MBB =
     (if ExpandCount < 10 then
        obind (expandMBB (avail ExpandCount) MBB) (\<lambda>(BlockModified, MBB').
          if BlockModified
          then obind (expand_block avail (Suc ExpandCount) MBB') (\<lambda>(m, MBB''). Inr (True, MBB''))
          else Inr (False, MBB'))
      else Inl (Assertion ''pseudo expand limit reached''))"
  by pat_completeness auto

termination
  by (relation "measure (\<lambda>(a, c, b). 10 - c)") auto

declare expand_block.simps [simp del]

definition expand_function ::
  "(nat \<Rightarrow> instr \<Rightarrow> reg \<Rightarrow> bool) \<Rightarrow> block list \<Rightarrow> (bool \<times> block list) outcome" where
  "expand_function avail MF =
     obind (omap (expand_block avail 0) MF) (\<lambda>rs. Inr (list_ex fst rs, List.map snd rs))"

end
