(* ===== verification/Expand_Termination.thy ===== *)
theory Expand_Termination
  imports Expand_Pseudo "HOL-Library.Sublist"
begin

text \<open>
  The expansion pass finishes: every expansion gives instructions of a lower rank, so the
  limit of ten rounds is never reached and no instruction that \<open>expandMI\<close> dispatches is left.
  The opcodes it dispatches are those of \<open>Wide\<close> and \<open>Atomic\<close>.
\<close>

section \<open>Ranks\<close>

definition rank :: "instr \<Rightarrow> nat" where
  "rank MI = (case Opcode MI of Wide _ \<Rightarrow> 1 | Atomic _ \<Rightarrow> 2 | _ \<Rightarrow> 0)"

named_theorems expand_defs \<open>definitions of the expansions\<close>

lemmas [expand_defs] =
  expandArith_def expandLogic_def expandLogicImm_def expand_SUBIWRdK_def expand_SBCIWRdK_def
  expand_COMWRd_def expand_CPWRdRr_def expand_CPCWRdRr_def expand_LDIWRdK_def expand_LDSWRdK_def
  expand_load_pair_def expand_LDWRdPtr_def expand_LDWRdPtrPi_def expand_LDWRdPtrPd_def
  expand_LDDWRdPtrQ_def expand_LPMWRdZ_def expand_LPMWRdZPi_def
  expand_STSWKRr_def expand_STWPtrRr_def expand_STWPtrPiRr_def expand_STWPtrPdRr_def
  expand_STDWPtrQRr_def expand_INWRdA_def expand_OUTWARr_def expand_PUSHWRr_def expand_POPWRd_def
  expand_shift_def expand_LSLWRd_def expand_LSRWRd_def expand_RORWRd_def expand_ROLWRd_def
  expand_ASRWRd_def expand_SPREAD_def expand_SPWRITE_def

lemma mark_opcodes:
  "setIsDead i MI = Inr MI' \<Longrightarrow> Opcode MI' = Opcode MI"
  "setIsKill i MI = Inr MI' \<Longrightarrow> Opcode MI' = Opcode MI"
  "setIsDead_if b i MI = Inr MI' \<Longrightarrow> Opcode MI' = Opcode MI"
  "mark_P b i j MI = Inr MI' \<Longrightarrow> Opcode MI' = Opcode MI"
  using setIsDead_core setIsKill_core
  by (force simp: setIsDead_if_def mark_P_def outcome_inv split: if_splits)+

lemma expandArith_rank: "expandArith (Alu a) (Alu b) MI = Inr is \<Longrightarrow> \<forall>i \<in> set is. rank i = 0"
  by (auto simp: expandArith_def outcome_inv Let_def rank_def dest!: mark_opcodes split: prod.splits)

lemma expandLogic_rank: "expandLogic (Alu a) MI = Inr is \<Longrightarrow> \<forall>i \<in> set is. rank i = 0"
  by (auto simp: expandLogic_def outcome_inv Let_def rank_def dest!: mark_opcodes split: prod.splits)

lemma expandLogicImm_rank: "expandLogicImm (Alu a) MI = Inr is \<Longrightarrow> \<forall>i \<in> set is. rank i = 0"
  by (auto simp: expandLogicImm_def outcome_inv Let_def rank_def dest!: mark_opcodes split: prod.splits if_splits
   )

lemma expand_shift_rank: "expand_shift f a b MI = Inr is \<Longrightarrow> \<forall>i \<in> set is. rank i = 0"
  by (auto simp: expand_shift_def outcome_inv Let_def rank_def dest!: mark_opcodes split: prod.splits if_splits
   )

lemma expand_one_rank:
  "expand_SUBIWRdK MI = Inr is \<Longrightarrow> \<forall>i \<in> set is. rank i = 0"
  "expand_SBCIWRdK MI = Inr is \<Longrightarrow> \<forall>i \<in> set is. rank i = 0"
  "expand_COMWRd MI = Inr is \<Longrightarrow> \<forall>i \<in> set is. rank i = 0"
  "expand_CPWRdRr MI = Inr is \<Longrightarrow> \<forall>i \<in> set is. rank i = 0"
  "expand_CPCWRdRr MI = Inr is \<Longrightarrow> \<forall>i \<in> set is. rank i = 0"
  "expand_LDIWRdK MI = Inr is \<Longrightarrow> \<forall>i \<in> set is. rank i = 0"
  "expand_LDSWRdK MI = Inr is \<Longrightarrow> \<forall>i \<in> set is. rank i = 0"
  "expand_LDWRdPtrPi MI = Inr is \<Longrightarrow> \<forall>i \<in> set is. rank i = 0"
  "expand_LDWRdPtrPd MI = Inr is \<Longrightarrow> \<forall>i \<in> set is. rank i = 0"
  "expand_LPMWRdZ MI = Inr is \<Longrightarrow> \<forall>i \<in> set is. rank i = 0"
  "expand_LPMWRdZPi MI = Inr is \<Longrightarrow> \<forall>i \<in> set is. rank i = 0"
  "expand_STSWKRr MI = Inr is \<Longrightarrow> \<forall>i \<in> set is. rank i = 0"
  "expand_STWPtrRr MI = Inr is \<Longrightarrow> \<forall>i \<in> set is. rank i = 0"
  "expand_STWPtrPiRr MI = Inr is \<Longrightarrow> \<forall>i \<in> set is. rank i = 0"
  "expand_STWPtrPdRr MI = Inr is \<Longrightarrow> \<forall>i \<in> set is. rank i = 0"
  "expand_STDWPtrQRr MI = Inr is \<Longrightarrow> \<forall>i \<in> set is. rank i = 0"
  "expand_INWRdA MI = Inr is \<Longrightarrow> \<forall>i \<in> set is. rank i = 0"
  "expand_OUTWARr MI = Inr is \<Longrightarrow> \<forall>i \<in> set is. rank i = 0"
  "expand_PUSHWRr MI = Inr is \<Longrightarrow> \<forall>i \<in> set is. rank i = 0"
  "expand_POPWRd MI = Inr is \<Longrightarrow> \<forall>i \<in> set is. rank i = 0"
  "expand_RORWRd MI = Inr is \<Longrightarrow> \<forall>i \<in> set is. rank i = 0"
  "expand_ROLWRd MI = Inr is \<Longrightarrow> \<forall>i \<in> set is. rank i = 0"
  "expand_SPREAD MI = Inr is \<Longrightarrow> \<forall>i \<in> set is. rank i = 0"
  "expand_SPWRITE MI = Inr is \<Longrightarrow> \<forall>i \<in> set is. rank i = 0"
  "expand_LDWRdPtr avail MI = Inr is \<Longrightarrow> \<forall>i \<in> set is. rank i = 0"
  "expand_LDDWRdPtrQ avail MI = Inr is \<Longrightarrow> \<forall>i \<in> set is. rank i = 0"
  by (auto simp: expand_defs outcome_inv Let_def rank_def dest!: mark_opcodes split: prod.splits if_splits)

lemmas expansion_ranks =
  expandArith_rank expandLogic_rank expandLogicImm_rank expand_shift_rank expand_one_rank

lemma expand_wide_rank: "expand_wide avail Op MI = Inr is \<Longrightarrow> \<forall>i \<in> set is. rank i = 0"
  by (cases Op; simp only: expand_wide_def wide_op.case expand_LSLWRd_def expand_LSRWRd_def
    expand_ASRWRd_def; erule expansion_ranks)

lemma expand_atomic_rank: "expand_atomic Op MI = Inr is \<Longrightarrow> \<forall>i \<in> set is. rank i \<le> 1"
  by (cases Op) (auto simp: expand_atomic_def expandAtomic_def expandAtomicBinaryOp_def
    expandAtomicArithmeticOp_def outcome_inv Let_def rank_def)

lemma expandMI_rank:
  assumes "expandMI avail MI = Inr (m, is)"
  shows "(m \<longleftrightarrow> rank MI \<noteq> 0) \<and> (\<not> m \<longrightarrow> is = [MI]) \<and> (\<forall>i \<in> set is. rank i \<le> rank MI - 1)"
proof (cases "Opcode MI")
  case (Wide w)
  with assms expand_wide_rank show ?thesis by (fastforce simp: expandMI_def rank_def outcome_inv)
next
  case (Atomic a)
  with assms expand_atomic_rank show ?thesis by (fastforce simp: expandMI_def rank_def outcome_inv)
qed (use assms in \<open>auto simp: expandMI_def rank_def\<close>)

text \<open>The highest rank in a block, and how a walk lowers it.\<close>

definition bounded :: "nat \<Rightarrow> block \<Rightarrow> bool" where
  "bounded n MBB = (\<forall>i \<in> set MBB. rank i \<le> n)"

lemma bounded_2: "bounded 2 MBB"
  by (auto simp: bounded_def rank_def split: opcode.splits)

lemma bounded_simps [simp]:
  "bounded n []" "bounded n (x # xs) \<longleftrightarrow> rank x \<le> n \<and> bounded n xs"
  "bounded n (xs @ ys) \<longleftrightarrow> bounded n xs \<and> bounded n ys"
  by (auto simp: bounded_def)

lemma bounded_mono: "bounded m xs \<Longrightarrow> m \<le> n \<Longrightarrow> bounded n xs"
  by (fastforce simp: bounded_def)

lemma expandMBB_result:
  assumes "expandMBB avail MBB = Inr (m, MBB')"
  shows "(m \<longleftrightarrow> \<not> bounded 0 MBB) \<and> (\<not> m \<longrightarrow> MBB' = MBB) \<and> (bounded n MBB \<longrightarrow> bounded (n - 1) MBB')"
proof -
  from assms obtain rs where rs: "omap (expandMI avail) MBB = Inr rs" and m: "m = list_ex fst rs"
    and b: "MBB' = concat (List.map snd rs)"
    by (auto simp: expandMBB_def outcome_inv)
  from rs have "list_all2 (\<lambda>x y. expandMI avail x = Inr y) MBB rs" by (simp add: omap_Inr_iff)
  then have "list_all2 (\<lambda>x y. (fst y \<longleftrightarrow> rank x \<noteq> 0) \<and> (\<not> fst y \<longrightarrow> snd y = [x])
      \<and> bounded (rank x - 1) (snd y)) MBB rs"
    by (rule list_all2_mono) (metis bounded_def expandMI_rank prod.collapse)
  then show ?thesis unfolding m b
  proof (induction rule: list_all2_induct)
    case Nil
    then show ?case by simp
  next
    case (Cons x xs y ys)
    then have "bounded n (x # xs) \<Longrightarrow> bounded (n - 1) (snd y)" by (auto intro: bounded_mono)
    with Cons show ?case by auto
  qed
qed

text \<open>The instructions that are not dispatched stay, in their order.\<close>

definition kept :: "block \<Rightarrow> block" where
  "kept MBB = filter (\<lambda>i. rank i = 0) MBB"

lemma kept_MBB:
  assumes "expandMBB avail MBB = Inr (m, MBB')"
  shows "subseq (kept MBB) MBB'"
proof -
  from assms obtain rs where rs: "omap (expandMI avail) MBB = Inr rs" and b: "MBB' = concat (List.map snd rs)"
    by (auto simp: expandMBB_def outcome_inv)
  from rs have "list_all2 (\<lambda>x y. expandMI avail x = Inr y) MBB rs" by (simp add: omap_Inr_iff)
  then show ?thesis unfolding b kept_def
  proof (induction rule: list_all2_induct)
    case Nil
    then show ?case by simp
  next
    case (Cons x xs y ys)
    obtain m js where y: "y = (m, js)" by (cases y)
    have "rank x = 0 \<Longrightarrow> js = [x]" using Cons(1) expandMI_rank [of avail x m js] y by simp
    with Cons y show ?case by (auto intro: list_emb_append2)
  qed
qed

lemma kept_subseq: "subseq (kept a) b \<Longrightarrow> subseq (kept b) c \<Longrightarrow> subseq (kept a) c"
proof -
  assume a: "subseq (kept a) b" and b: "subseq (kept b) c"
  have "subseq (filter (\<lambda>i. rank i = 0) (kept a)) (kept b)" unfolding kept_def [of b] using a by (rule subseq_filter)
  moreover have "filter (\<lambda>i. rank i = 0) (kept a) = kept a" by (simp add: kept_def)
  ultimately show "subseq (kept a) c" using b subseq_order.order_trans by metis
qed

section \<open>The limit\<close>

text \<open>No expansion fails with the message of the loop's own assertion.\<close>

definition expand_limit :: code_error where
  "expand_limit = Assertion ''pseudo expand limit reached''"

definition no_limit :: "'a outcome \<Rightarrow> bool" where
  "no_limit m = (m \<noteq> Inl expand_limit)"

named_theorems no_limits

lemma no_limit_obind [no_limits]:
  "no_limit m \<Longrightarrow> (\<And>x. no_limit (f x)) \<Longrightarrow> no_limit (obind m f)"
  by (cases m) (simp_all add: no_limit_def)

lemma no_limit_shapes [no_limits]:
  "no_limit (Inr x)" "no_limit (Inl (Unreachable s))" "no_limit (Inl (Undefined s))"
  "s \<noteq> ''pseudo expand limit reached'' \<Longrightarrow> no_limit k \<Longrightarrow> no_limit (asserting b s k)"
  "(b \<Longrightarrow> no_limit m) \<Longrightarrow> (\<not> b \<Longrightarrow> no_limit m') \<Longrightarrow> no_limit (if b then m else m')"
  "(\<And>x y. p = (x, y) \<Longrightarrow> no_limit (g x y)) \<Longrightarrow> no_limit (case p of (x, y) \<Rightarrow> g x y)"
  by (simp_all add: no_limit_def expand_limit_def asserting_def split: prod.split)

lemma no_limit_getOperand [no_limits]: "no_limit (getOperand MI i)"
  by (simp add: getOperand_def no_limits)

lemma no_limit_wrong [no_limits]: "no_limit wrong_accessor" "no_limit (as_reg MO)"
  by (simp_all add: wrong_accessor_def as_reg_def no_limit_def expand_limit_def split: operand.split)

lemma no_limit_accessors [no_limits]:
  "no_limit (getReg MI i)" "no_limit (isDead MI i)" "no_limit (isKill MI i)" "no_limit (getImm MI i)"
  "no_limit (getImm32 MI i)" "no_limit (splitReg r)"
  by (auto simp: getReg_def isDead_def isKill_def getImm_def getImm32_def splitReg_def
    intro!: no_limits split: operand.split)

lemma no_limit_marks [no_limits]:
  "no_limit (setIsDead i MI)" "no_limit (setIsKill i MI)" "no_limit (setIsDead_if b i MI)"
  "no_limit (mark_P b i j MI)"
  by (auto simp: setIsDead_def setIsKill_def setIsDead_if_def mark_P_def no_limit_def expand_limit_def
    obind_def getOperand_def asserting_def split: operand.split sum.split if_splits)

lemma no_limit_halves [no_limits]:
  "no_limit (subiw_halves MO)" "no_limit (ldiw_halves MO)" "no_limit (direct_halves MO)"
  "no_limit (scavengeMainRegs avail MI)"
  by (auto simp: subiw_halves_def ldiw_halves_def direct_halves_def scavengeMainRegs_def
    no_limit_def expand_limit_def split: operand.split option.split)

lemma no_limit_groups [no_limits]:
  "no_limit (expandArith a b MI)" "no_limit (expandLogic a MI)" "no_limit (expandLogicImm a MI)"
  "no_limit (expand_shift l x y MI)" "no_limit (expand_load_pair avail MI a los hi d s dl dh k)"
  by (auto simp: expandArith_def expandLogic_def expandLogicImm_def expand_shift_def
    expand_load_pair_def Let_def intro!: no_limits)

lemma no_limit_one [no_limits]:
  "no_limit (expand_SUBIWRdK MI)"
  "no_limit (expand_SBCIWRdK MI)"
  "no_limit (expand_COMWRd MI)"
  "no_limit (expand_CPWRdRr MI)"
  "no_limit (expand_CPCWRdRr MI)"
  "no_limit (expand_LDIWRdK MI)"
  "no_limit (expand_LDSWRdK MI)"
  "no_limit (expand_LDWRdPtrPi MI)"
  "no_limit (expand_LDWRdPtrPd MI)"
  "no_limit (expand_LPMWRdZ MI)"
  "no_limit (expand_LPMWRdZPi MI)"
  "no_limit (expand_STSWKRr MI)"
  "no_limit (expand_STWPtrRr MI)"
  "no_limit (expand_STWPtrPiRr MI)"
  "no_limit (expand_STWPtrPdRr MI)"
  "no_limit (expand_STDWPtrQRr MI)"
  "no_limit (expand_INWRdA MI)"
  "no_limit (expand_OUTWARr MI)"
  "no_limit (expand_PUSHWRr MI)"
  "no_limit (expand_POPWRd MI)"
  "no_limit (expand_RORWRd MI)"
  "no_limit (expand_ROLWRd MI)"
  "no_limit (expand_SPREAD MI)"
  "no_limit (expand_SPWRITE MI)"
  "no_limit (expand_LDWRdPtr avail MI)" "no_limit (expand_LDDWRdPtrQ avail MI)"
  by (auto simp: expand_defs Let_def intro!: no_limits)

lemma no_limit_wide [no_limits]: "no_limit (expand_wide avail Op MI)"
  by (cases Op; simp only: expand_wide_def wide_op.case expand_LSLWRd_def expand_LSRWRd_def
    expand_ASRWRd_def; rule no_limits)

lemma no_limit_atomic [no_limits]: "no_limit (expand_atomic Op MI)"
  by (cases Op) (auto simp: expand_atomic_def expandAtomic_def expandAtomicBinaryOp_def
    expandAtomicArithmeticOp_def Let_def intro!: no_limits)

lemma no_limit_expandMI [no_limits]: "no_limit (expandMI avail MI)"
  by (auto simp: expandMI_def intro!: no_limits split: opcode.split)

lemma no_limit_omap [no_limits]: "(\<And>x. no_limit (f x)) \<Longrightarrow> no_limit (omap f xs)"
  by (induction xs) (auto intro!: no_limits)

lemma no_limit_expandMBB [no_limits]: "no_limit (expandMBB avail MBB)"
  by (auto simp: expandMBB_def intro!: no_limits)

section \<open>The loop over a block\<close>

text \<open>From rank \<open>n\<close> the loop needs at most \<open>n + 1\<close> rounds.\<close>

definition expanded :: "block \<Rightarrow> (bool \<times> block) outcome \<Rightarrow> bool" where
  "expanded MBB r = (case r of
     Inl e \<Rightarrow> e \<noteq> expand_limit
   | Inr (m, MBB') \<Rightarrow> bounded 0 MBB' \<and> (m \<longleftrightarrow> \<not> bounded 0 MBB) \<and> (\<not> m \<longrightarrow> MBB' = MBB)
       \<and> subseq (kept MBB) MBB')"

lemma expand_block_rounds: "bounded n MBB \<Longrightarrow> n + k < 10 \<Longrightarrow> expanded MBB (expand_block avail k MBB)"
proof (induction n arbitrary: k MBB)
  case 0
  show ?case
  proof (cases "expandMBB (avail k) MBB")
    case (Inl e)
    with 0 no_limit_expandMBB [of "avail k" MBB] show ?thesis
      by (subst expand_block.simps) (simp add: expanded_def no_limit_def)
  next
    case (Inr r)
    obtain m b where r: "r = (m, b)" by (cases r)
    from 0 expandMBB_result [OF Inr [unfolded r], of 0] kept_MBB [OF Inr [unfolded r]] Inr r show ?thesis
      by (subst expand_block.simps) (simp add: expanded_def)
  qed
next
  case (Suc n)
  show ?case
  proof (cases "expandMBB (avail k) MBB")
    case (Inl e)
    with Suc.prems no_limit_expandMBB [of "avail k" MBB] show ?thesis
      by (subst expand_block.simps) (simp add: expanded_def no_limit_def)
  next
    case (Inr r)
    obtain m b where r: "r = (m, b)" by (cases r)
    note res = expandMBB_result [OF Inr [unfolded r], of "Suc n"]
    with Suc.IH [of b "Suc k"] Suc.prems have "expanded b (expand_block avail (Suc k) b)" by simp
    with Inr r res Suc.prems kept_MBB [OF Inr [unfolded r]] show ?thesis
      by (subst expand_block.simps) (auto simp: expanded_def split: sum.splits intro: kept_subseq)
  qed
qed

text \<open>
  Property C8. The expansion of a block finishes: the assertion on ten rounds never fails.
  When no expansion fails, no instruction is left that \<open>expandMI\<close> dispatches, and the block is
  reported as modified exactly when it had one; otherwise it is unchanged. All other
  instructions stay in their order, also the pseudo instructions that \<open>expandMI\<close> has no case
  for, such as the stores of arguments, the frame set-ups, the selections and the extensions.
\<close>

theorem expansion_finishes:
  "(case expand_block avail 0 MBB of
      Inl e \<Rightarrow> e \<noteq> Assertion ''pseudo expand limit reached''
    | Inr (m, MBB') \<Rightarrow> (\<forall>i \<in> set MBB'. \<nexists>w. Opcode i = Wide w)
        \<and> (\<forall>i \<in> set MBB'. \<nexists>a. Opcode i = Atomic a)
        \<and> (m = (\<exists>i \<in> set MBB. (\<exists>w. Opcode i = Wide w) \<or> (\<exists>a. Opcode i = Atomic a)))
        \<and> (m \<or> MBB' = MBB)
        \<and> subseq (filter (\<lambda>i. (\<nexists>w. Opcode i = Wide w) \<and> (\<nexists>a. Opcode i = Atomic a)) MBB) MBB')"
proof -
  have b0: "bounded 0 B \<longleftrightarrow> (\<forall>i \<in> set B. (\<nexists>w. Opcode i = Wide w) \<and> (\<nexists>a. Opcode i = Atomic a))" for B
    by (auto simp: bounded_def rank_def split: opcode.splits)
  have k: "kept B = filter (\<lambda>i. (\<nexists>w. Opcode i = Wide w) \<and> (\<nexists>a. Opcode i = Atomic a)) B" for B
    unfolding kept_def by (rule filter_cong) (auto simp: rank_def split: opcode.splits)
  from expand_block_rounds [OF bounded_2, of 0 MBB avail]
  show ?thesis
    by (cases "expand_block avail 0 MBB") (auto simp: expanded_def expand_limit_def b0 k)
qed

lemma expansion_finishes_witness:
  "\<exists>b. expand_block (\<lambda>_ _ _. False) 0
         [BuildMI (Atomic AtomicLoad16) [def_reg SNES_A, use SNES_X]] = Inr (True, b)
     \<and> length b = 5 \<and> (\<forall>i \<in> set b. (\<nexists>w. Opcode i = Wide w) \<and> (\<nexists>a. Opcode i = Atomic a))"
proof -
  let ?B = "[BuildMI (Atomic AtomicLoad16) [def_reg SNES_A, use SNES_X]]"
  have "map_sum id (map_prod id length) (expand_block (\<lambda>_ _ _. False) 0 ?B) = Inr (True, 5)"
    by code_simp
  then obtain b where "expand_block (\<lambda>_ _ _. False) 0 ?B = Inr (True, b)" "length b = 5"
    by (cases "expand_block (\<lambda>_ _ _. False) 0 ?B") auto
  with expansion_finishes [of ?B "\<lambda>_ _ _. False"] show ?thesis by auto
qed

end
