(* ===== verification/Byte_Machine.thy ===== *)
theory Byte_Machine
  imports Cond_Codes
begin

unbundle bit_operations_syntax

text \<open>
  What the byte instructions do, so that expansions can be compared with the 16-bit
  operations they replace. The arithmetic unit of the processor is not part of the
  program: it is the parameter \<open>alu\<close> with the documented behaviour as laws (locale
  \<open>documented_alu\<close>). Executing an instruction reads its operands in the order in which
  \<open>SNESInstrInfo.td\<close> lists them.
\<close>

section \<open>Halves of words\<close>

definition join :: "u8 \<Rightarrow> u8 \<Rightarrow> u16" where
  "join h l = word_cat h l"

lemma byte_range: "0 \<le> uint (b :: u8)" "uint (b :: u8) < 256" "uint (b :: u8) \<le> 255"
  using uint_bounded [of b] by simp_all

lemma sint_msb: "sint (w :: 'a::len word) = uint w - (if bit w (LENGTH('a) - 1) then 2 ^ LENGTH('a) else 0)"
proof -
  have "Suc (LENGTH('a) - 1) = LENGTH('a)" by simp
  then show ?thesis
    by (simp add: sint_uint signed_take_bit_eq_take_bit_minus bit_uint_iff take_bit_int_eq_self)
qed

lemma uint_join: "uint (join h l) = 256 * uint h + uint l"
proof -
  have "0 \<le> 256 * uint h" "256 * uint h + uint l < 65536"
    using byte_range [of h] byte_range [of l] by linarith+
  moreover have "uint (push_bit 8 (ucast h) :: u16) = 256 * uint h"
    using byte_range [of h] by (simp add: push_bit_eq_mult uint_mult_lem [THEN iffD1] uint_up_ucast is_up)
  ultimately show ?thesis
    by (simp add: join_def word_cat_eq uint_plus_if' uint_up_ucast is_up)
qed

lemma bit_join: "bit (join h l) n = (if n < 8 then bit l n else n < 16 \<and> bit h (n - 8))"
  by (auto simp: join_def bit_word_cat_iff dest: bit_imp_le_length)

lemma sint_join: "sint (join h l) = 256 * sint h + uint l"
  using sint_msb [of h] sint_msb [of "join h l"] by (simp add: uint_join bit_join)

lemma join_eq_iff [simp]: "join h l = join h' l' \<longleftrightarrow> h = h' \<and> l = l'"
proof
  assume "join h l = join h' l'"
  then have eq: "256 * uint h + uint l = 256 * uint h' + uint l'" by (metis uint_join)
  with byte_range [of l] byte_range [of l'] have "uint h = uint h'" by linarith
  with eq have "uint l = uint l'" by simp
  with \<open>uint h = uint h'\<close> show "h = h' \<and> l = l'" by (simp add: word_uint_eq_iff)
qed simp

lemma join_zero: "join h l = 0 \<longleftrightarrow> h = 0 \<and> l = 0"
  using byte_range [of l] byte_range [of h]
  by (auto simp: word_uint_eq_iff uint_join add_nonneg_eq_0_iff)

text \<open>Addition and subtraction of 16 bits from two steps of 8 bits with a carry.\<close>

definition carry_add :: "'a::len word \<Rightarrow> 'a word \<Rightarrow> bool \<Rightarrow> bool" where
  "carry_add a b c = (2 ^ LENGTH('a) \<le> uint a + uint b + of_bool c)"

definition borrow_sub :: "'a::len word \<Rightarrow> 'a word \<Rightarrow> bool \<Rightarrow> bool" where
  "borrow_sub a b c = (uint a < uint b + of_bool c)"

lemma mod_window:
  "0 \<le> x \<Longrightarrow> x < 2 * m \<Longrightarrow> x mod m = x - (if m \<le> x then m else 0)"
  "- m \<le> x \<Longrightarrow> x < m \<Longrightarrow> x mod m = x + (if x < 0 then m else 0)" for x m :: int
  using mod_pos_pos_trivial [of "x - m" m] mod_pos_pos_trivial [of "x + m" m] mod_pos_pos_trivial [of x m]
  by auto

lemma uint_add3: "uint (a + b + of_bool c :: 'a::len word)
   = uint a + uint b + of_bool c - (if carry_add a b c then 2 ^ LENGTH('a) else 0)"
proof -
  have "a + b + of_bool c = word_of_int (uint a + uint b + of_bool c)" by simp
  then have "uint (a + b + of_bool c) = (uint a + uint b + of_bool c) mod 2 ^ LENGTH('a)"
    by (metis uint_word_of_int)
  moreover have "0 \<le> uint a + uint b + of_bool c" by simp
  moreover have "uint a + uint b + of_bool c < 2 * 2 ^ LENGTH('a)"
    using uint_bounded [of a] uint_bounded [of b] by (cases c; simp only: of_bool_eq; linarith)
  ultimately show ?thesis by (simp only: carry_add_def mod_window)
qed

lemma uint_sub3: "uint (a - b - of_bool c :: 'a::len word)
   = uint a - uint b - of_bool c + (if borrow_sub a b c then 2 ^ LENGTH('a) else 0)"
proof -
  have "a - b - of_bool c = word_of_int (uint a - uint b - of_bool c)" by simp
  then have "uint (a - b - of_bool c) = (uint a - uint b - of_bool c) mod 2 ^ LENGTH('a)"
    by (metis uint_word_of_int)
  moreover have "- (2 ^ LENGTH('a)) \<le> uint a - uint b - of_bool c"
    using uint_bounded [of b] uint_nonnegative [of a] by (cases c; simp only: of_bool_eq; linarith)
  moreover have "uint a - uint b - of_bool c < 2 ^ LENGTH('a)"
    using uint_bounded [of a] uint_nonnegative [of b] by (cases c; simp only: of_bool_eq; linarith)
  ultimately show ?thesis by (simp add: borrow_sub_def mod_window)
qed

lemma byte_width: "LENGTH(8) = 8" "LENGTH(16) = 16" "(2::int) ^ 8 = 256" "(2::int) ^ 16 = 65536"
  by simp_all

lemma carry_join: "carry_add (join h l) (join h' l') c = carry_add h h' (carry_add l l' c)"
  using byte_range [of l] byte_range [of l'] byte_range [of h] byte_range [of h']
  unfolding carry_add_def uint_join
  by (cases c; cases "carry_add l l' c"; simp only: carry_add_def of_bool_eq simp_thms byte_width; linarith)

lemma borrow_join: "borrow_sub (join h l) (join h' l') c = borrow_sub h h' (borrow_sub l l' c)"
  using byte_range [of l] byte_range [of l'] byte_range [of h] byte_range [of h']
  unfolding borrow_sub_def uint_join
  by (cases c; cases "borrow_sub l l' c"; simp only: borrow_sub_def of_bool_eq simp_thms byte_width; linarith)

lemma join_add:
  "join h l + join h' l' + of_bool c
     = join (h + h' + of_bool (carry_add l l' c)) (l + l' + of_bool c)"
  by (simp add: word_uint_eq_iff uint_join uint_add3 carry_join)

lemma join_sub:
  "join h l - join h' l' - of_bool c
     = join (h - h' - of_bool (borrow_sub l l' c)) (l - l' - of_bool c)"
  by (simp add: word_uint_eq_iff uint_join uint_sub3 borrow_join)

lemma join_bitwise:
  "join h l AND join h' l' = join (h AND h') (l AND l')"
  "join h l OR join h' l' = join (h OR h') (l OR l')"
  "join h l XOR join h' l' = join (h XOR h') (l XOR l')"
  "NOT (join h l) = join (NOT h) (NOT l)"
  by (rule bit_word_eqI; auto simp: bit_simps bit_join dest: bit_imp_le_length)+

section \<open>Comparisons\<close>

text \<open>
  The flags after comparing \<open>x\<close> with \<open>y\<close>, with a borrow \<open>c\<close> coming in and \<open>z\<close> telling that
  the lower parts were equal: carry is the unsigned order, \<open>S\<close> the signed one, and zero
  survives only when this part is equal as well.
\<close>

definition compares :: "flags \<Rightarrow> bool \<Rightarrow> bool \<Rightarrow> 'a::len word \<Rightarrow> 'a word \<Rightarrow> bool" where
  "compares F z c x y \<longleftrightarrow>
     C_flag F = (uint x < uint y + of_bool c) \<and> S_flag F = (sint x < sint y + of_bool c)
     \<and> Z_flag F = (z \<and> x - y - of_bool c = 0)"

text \<open>Comparing the low parts and then the high parts with borrow compares the whole.\<close>

lemma compares_join:
  assumes lo: "compares F z c l l'" and hi: "compares G (Z_flag F) (C_flag F) h h'"
  shows "compares G z c (join h l) (join h' l')"
proof -
  note r = byte_range [of l] byte_range [of l']
  have C: "C_flag F = borrow_sub l l' c"
    using lo by (simp add: compares_def borrow_sub_def)
  have "Z_flag G = (z \<and> join h l - join h' l' - of_bool c = 0)"
    using lo hi unfolding join_sub join_zero compares_def C [unfolded compares_def] by (auto simp: C)
  moreover have "C_flag G = (uint (join h l) < uint (join h' l') + of_bool c)"
    using hi borrow_join [of h l h' l' c] by (simp add: compares_def C borrow_sub_def)
  moreover have "S_flag G = (sint (join h l) < sint (join h' l') + of_bool c)"
  proof -
    have S: "S_flag G = (sint h < sint h' + of_bool (borrow_sub l l' c))"
      using hi by (simp add: compares_def C)
    show ?thesis
      unfolding S sint_join using r
      by (cases c; cases "borrow_sub l l' c"; simp only: borrow_sub_def of_bool_eq simp_thms; linarith)
  qed
  ultimately show ?thesis by (simp add: compares_def)
qed

text \<open>What the condition codes say after a comparison.\<close>

lemma compares_cond:
  "compares F True False x y \<Longrightarrow>
     cond_holds F COND_EQ = (x = y) \<and> cond_holds F COND_NE = (x \<noteq> y)
     \<and> cond_holds F COND_LT = (x <s y) \<and> cond_holds F COND_GE = (y \<le>s x)
     \<and> cond_holds F COND_LO = (x < y) \<and> cond_holds F COND_SH = (y \<le> x)"
  by (auto simp: compares_def cond_holds_def word_sless_alt word_sle_eq word_less_def word_le_def)

section \<open>The arithmetic unit\<close>

type_synonym alu_unit = "alu_op \<Rightarrow> flags \<Rightarrow> u8 \<Rightarrow> u8 \<Rightarrow> u8 \<times> flags"

text \<open>
  The documented result of each operation on the bytes \<open>a\<close> and \<open>b\<close>, given the carry, and
  the carry it leaves where the expansions use it.
\<close>

definition alu_value :: "alu_op \<Rightarrow> bool \<Rightarrow> 'a::len word \<Rightarrow> 'a word \<Rightarrow> 'a word" where
  "alu_value op c a b = (case op of
     ADDRdRr \<Rightarrow> a + b | ADCRdRr \<Rightarrow> a + b + of_bool c
   | SUBRdRr \<Rightarrow> a - b | SUBIRdK \<Rightarrow> a - b | SBCRdRr \<Rightarrow> a - b - of_bool c | SBCIRdK \<Rightarrow> a - b - of_bool c
   | ANDRdRr \<Rightarrow> a AND b | ORRdRr \<Rightarrow> a OR b | EORRdRr \<Rightarrow> a XOR b | COMRd \<Rightarrow> NOT a
   | LSLRd \<Rightarrow> push_bit 1 a | ROLRd \<Rightarrow> push_bit 1 a OR of_bool c
   | LSRRd \<Rightarrow> drop_bit 1 a | RORRd \<Rightarrow> drop_bit 1 a OR push_bit (LENGTH('a) - 1) (of_bool c)
   | ASRRd \<Rightarrow> signed_drop_bit 1 a
   | _ \<Rightarrow> a)"

definition alu_carry :: "alu_op \<Rightarrow> bool \<Rightarrow> 'a::len word \<Rightarrow> 'a word \<Rightarrow> bool option" where
  "alu_carry op c a b = (case op of
     ADDRdRr \<Rightarrow> Some (carry_add a b False) | ADCRdRr \<Rightarrow> Some (carry_add a b c)
   | SUBRdRr \<Rightarrow> Some (borrow_sub a b False) | SUBIRdK \<Rightarrow> Some (borrow_sub a b False)
   | SBCRdRr \<Rightarrow> Some (borrow_sub a b c) | SBCIRdK \<Rightarrow> Some (borrow_sub a b c)
   | LSLRd \<Rightarrow> Some (bit a (LENGTH('a) - 1)) | ROLRd \<Rightarrow> Some (bit a (LENGTH('a) - 1))
   | LSRRd \<Rightarrow> Some (bit a 0) | RORRd \<Rightarrow> Some (bit a 0) | ASRRd \<Rightarrow> Some (bit a 0)
   | _ \<Rightarrow> None)"

definition valued_ops :: "alu_op list" where
  "valued_ops = [ADDRdRr, ADCRdRr, SUBRdRr, SUBIRdK, SBCRdRr, SBCIRdK, ANDRdRr, ORRdRr, EORRdRr,
     COMRd, LSLRd, LSRRd, ASRRd, ROLRd, RORRd, MOVRdRr, LDIRdK]"

locale documented_alu =
  fixes alu :: alu_unit
  assumes alu_result: "op \<in> set valued_ops \<Longrightarrow> fst (alu op F a b) = alu_value op (C_flag F) a b"
    and alu_carry_out:
      "alu_carry op (C_flag F) a b = Some c \<Longrightarrow> C_flag (snd (alu op F a b)) = c"
    and alu_keeps: "op \<in> set alu_keeps_P \<Longrightarrow> snd (alu op F a b) = F"
    and alu_cp: "compares (snd (alu CPRdRr F a b)) True False a b"
    and alu_cpc: "compares (snd (alu CPCRdRr F a b)) (Z_flag F) (C_flag F) a b"

subsection \<open>An arithmetic unit with that behaviour\<close>

definition sub_flags :: "bool \<Rightarrow> bool \<Rightarrow> u8 \<Rightarrow> u8 \<Rightarrow> flags" where
  "sub_flags z c a b =
     (let r = a - b - of_bool c; d = sint a - sint b - of_bool c
      in \<lparr>C_flag = borrow_sub a b c, Z_flag = (z \<and> r = 0), N_flag = bit r 7,
          V_flag = (d < -128 \<or> 127 < d)\<rparr>)"

definition reference_alu :: alu_unit where
  "reference_alu op F a b =
     (alu_value op (C_flag F) a b,
      if op = CPRdRr then sub_flags True False a b
      else if op = CPCRdRr then sub_flags (Z_flag F) (C_flag F) a b
      else case alu_carry op (C_flag F) a b of Some c \<Rightarrow> F\<lparr>C_flag := c\<rparr> | None \<Rightarrow> F)"

lemma byte_sint_range: "- 128 \<le> sint (b :: u8)" "sint (b :: u8) \<le> 127"
  using sint_greater_eq [of b] sint_less [of b] by simp_all

lemma sub_flags_compares: "compares (sub_flags z c a b) z c a b"
proof -
  let ?d = "sint a - sint b - of_bool c"
  have "a - b - of_bool c = word_of_int ?d" by simp
  then have "sint (a - b - of_bool c) = sint (word_of_int ?d :: u8)" by (rule arg_cong)
  also have "\<dots> = signed_take_bit 7 ?d" by (subst sint_sbintrunc') simp
  also have "\<dots> = take_bit 8 (?d + 128) - 128"
    using signed_take_bit_eq_take_bit_shift [of 7 ?d] by simp
  finally have s: "sint (a - b - of_bool c) = (?d + 128) mod 256 - 128"
    by (simp add: take_bit_eq_mod)
  have b: "bit (a - b - of_bool c) 7 = (sint (a - b - of_bool c) < 0)"
    using bit_last_iff [of "a - b - of_bool c"] by (simp only: byte_width) simp
  have "(bit (a - b - of_bool c) 7 \<noteq> (?d < -128 \<or> 127 < ?d)) = (?d < 0)"
  proof -
    consider "?d < -128" | "-128 \<le> ?d \<and> ?d \<le> 127" | "127 < ?d" by linarith
    then show ?thesis
    proof cases
      case 1
      moreover have "(?d + 128) mod 256 = ?d + 128 + 256"
        using 1 byte_sint_range [of a] byte_sint_range [of b] mod_window(2) [of 256 "?d + 128"]
        by (cases c) auto
      ultimately show ?thesis
        using byte_sint_range [of a] byte_sint_range [of b] unfolding b s by (cases c) auto
    next
      case 2
      then have "(?d + 128) mod 256 = ?d + 128" by simp
      with 2 show ?thesis unfolding b s by auto
    next
      case 3
      moreover have "(?d + 128) mod 256 = ?d + 128 - 256"
        using 3 byte_sint_range [of a] byte_sint_range [of b] mod_window(1) [of "?d + 128" 256]
        by (cases c) auto
      ultimately show ?thesis
        using byte_sint_range [of a] byte_sint_range [of b] unfolding b s by (cases c) auto
    qed
  qed
  then show ?thesis
    by (auto simp: compares_def sub_flags_def Let_def S_flag_def borrow_sub_def)
qed

interpretation reference_unit: documented_alu reference_alu
  by unfold_locales
    (auto simp: reference_alu_def sub_flags_compares alu_carry_def alu_keeps_P_def split: if_splits)

section \<open>Executing byte instructions\<close>

record machine =
  byte_reg :: "reg \<Rightarrow> u8"
  status :: flags
  memory :: "u16 \<Rightarrow> u8"
  port :: "u8 \<Rightarrow> u8"

definition byte_regs :: "reg list" where
  "byte_regs = [SNES_AL, SNES_AH, SNES_XL, SNES_XH, SNES_YL, SNES_YH]"

text \<open>The 16-bit registers are views of their halves.\<close>

definition reg16 :: "machine \<Rightarrow> reg \<Rightarrow> u16" where
  "reg16 s r = join (byte_reg s (getSubReg_hi r)) (byte_reg s (getSubReg_lo r))"

definition set_byte :: "reg \<Rightarrow> u8 \<Rightarrow> machine \<Rightarrow> machine" where
  "set_byte r v s = s\<lparr>byte_reg := (byte_reg s)(r := v)\<rparr>"

definition set_reg16 :: "reg \<Rightarrow> u16 \<Rightarrow> machine \<Rightarrow> machine" where
  "set_reg16 r v s = set_byte (getSubReg_hi r) (ucast (drop_bit 8 v)) (set_byte (getSubReg_lo r) (ucast v) s)"

definition set_mem :: "u16 \<Rightarrow> u8 \<Rightarrow> machine \<Rightarrow> machine" where
  "set_mem a v s = s\<lparr>memory := (memory s)(a := v)\<rparr>"

definition byte_operand :: "machine \<Rightarrow> operand \<Rightarrow> u8 option" where
  "byte_operand s MO = (case MO of
     MO_Register r \<Rightarrow> if RegNo r \<in> set byte_regs then Some (byte_reg s (RegNo r)) else None
   | MO_Immediate v \<Rightarrow> Some (ucast v)
   | _ \<Rightarrow> None)"

definition explicit :: "operand \<Rightarrow> bool" where
  "explicit MO = (case MO of MO_Register r \<Rightarrow> \<not> IsImp r | _ \<Rightarrow> True)"

definition run_alu :: "alu_unit \<Rightarrow> alu_op \<Rightarrow> reg option \<Rightarrow> u8 \<Rightarrow> u8 \<Rightarrow> machine \<Rightarrow> machine" where
  "run_alu alu op dest a b s =
     (let (v, F) = alu op (status s) a b; s' = s\<lparr>status := F\<rparr>
      in case dest of None \<Rightarrow> s' | Some r \<Rightarrow> set_byte r v s')"

text \<open>
  The immediate instructions of 16 bits work on the accumulator: \<open>SNESImm16\<close> has fields for
  the opcode and the constant and none for a register, and \<open>SNESInstrInfo.td\<close> gives them the
  class \<open>AccRegs\<close>. Whatever registers the operands name, \<open>A\<close> is combined with the constant,
  and the zero and negative flags follow the result.
\<close>

definition imm16_ops :: "alu_op list" where
  "imm16_ops = [ANDimm16, ORAimm16]"

definition imm16_value :: "alu_op \<Rightarrow> u16 \<Rightarrow> u16 \<Rightarrow> u16" where
  "imm16_value op a k = (if op = ANDimm16 then a AND k else a OR k)"

definition exec_imm16 :: "alu_op \<Rightarrow> operand list \<Rightarrow> machine \<Rightarrow> machine option" where
  "exec_imm16 op ops s = (case ops of
     [MO_Register d, MO_Register r, MO_Immediate k] \<Rightarrow>
       (let v = imm16_value op (reg16 s SNES_A) (ucast k)
        in Some (set_reg16 SNES_A v (s\<lparr>status := (status s)\<lparr>Z_flag := (v = 0), N_flag := bit v 15\<rparr>\<rparr>)))
   | _ \<Rightarrow> None)"

text \<open>The destination comes first when there is one; the tied source follows it.\<close>

definition exec_alu :: "alu_unit \<Rightarrow> alu_op \<Rightarrow> operand list \<Rightarrow> machine \<Rightarrow> machine option" where
  "exec_alu alu op ops s =
     (if op \<in> {CPRdRr, CPCRdRr}
      then (case List.map (byte_operand s) ops of [Some a, Some b] \<Rightarrow> Some (run_alu alu op None a b s) | _ \<Rightarrow> None)
      else if op \<in> set valued_ops
      then (case ops of
          MO_Register d # srcs \<Rightarrow>
            if IsDef d \<and> RegNo d \<in> set byte_regs
            then (case List.map (byte_operand s) srcs of
                [Some a] \<Rightarrow> Some (run_alu alu op (Some (RegNo d)) a 0 s)
              | [Some a, Some b] \<Rightarrow> Some (run_alu alu op (Some (RegNo d)) a b s)
              | _ \<Rightarrow> None)
            else None
        | _ \<Rightarrow> None)
      else if op \<in> set imm16_ops then exec_imm16 op ops s
      else None)"

definition pointer :: "machine \<Rightarrow> reg_operand \<Rightarrow> u16 option" where
  "pointer s r = (if class_contains MainRegs (RegNo r) then Some (reg16 s (RegNo r)) else None)"

definition load_byte :: "reg_operand \<Rightarrow> u16 \<Rightarrow> machine \<Rightarrow> machine option" where
  "load_byte d a s =
     (if IsDef d \<and> RegNo d \<in> set byte_regs then Some (set_byte (RegNo d) (memory s a) s) else None)"

definition store_byte :: "operand \<Rightarrow> u16 \<Rightarrow> machine \<Rightarrow> machine option" where
  "store_byte MO a s = map_option (\<lambda>v. set_mem a v s) (byte_operand s MO)"

text \<open>
  The fields of \<open>SNESInstrFormats.td\<close> for the displacement of \<open>LDDRdPtrQ\<close> and \<open>STDPtrQRr\<close>
  (\<open>memri{5-0}\<close> of \<open>FSTDLDD\<close>) and for the port of \<open>INRdA\<close> and \<open>OUTARr\<close> (\<open>A\<close> of \<open>FIORdA\<close> and
  \<open>FIOARr\<close>) have six bits: an instruction with a larger number is no instruction of the
  processor, and the machine stops.
\<close>

definition six_bits :: "u64 \<Rightarrow> bool" where
  "six_bits q = (q \<le> 63)"

definition exec_mem :: "mem_op \<Rightarrow> operand list \<Rightarrow> machine \<Rightarrow> machine option" where
  "exec_mem op ops s = (case (op, ops) of
     (LDSRdK, [MO_Register d, MO_Immediate k]) \<Rightarrow> load_byte d (ucast k) s
   | (LDRdPtr, [MO_Register d, MO_Register p]) \<Rightarrow>
       Option.bind (pointer s p) (\<lambda>a. load_byte d a s)
   | (LDRdPtrPi, [MO_Register d, MO_Register w, MO_Register p]) \<Rightarrow>
       Option.bind (pointer s p) (\<lambda>a. map_option (set_reg16 (RegNo w) (a + 1)) (load_byte d a s))
   | (LDRdPtrPd, [MO_Register d, MO_Register w, MO_Register p]) \<Rightarrow>
       Option.bind (pointer s p) (\<lambda>a. load_byte d (a - 1) (set_reg16 (RegNo w) (a - 1) s))
   | (LDDRdPtrQ, [MO_Register d, MO_Register p, MO_Immediate q]) \<Rightarrow>
       if six_bits q then Option.bind (pointer s p) (\<lambda>a. load_byte d (a + ucast q) s) else None
   | (STSKRr, [MO_Immediate k, MO]) \<Rightarrow> store_byte MO (ucast k) s
   | (STPtrRr, [MO_Register p, MO]) \<Rightarrow> Option.bind (pointer s p) (\<lambda>a. store_byte MO a s)
   | (STPtrPiRr, [MO_Register w, MO_Register p, MO, MO_Immediate i]) \<Rightarrow>
       Option.bind (pointer s p) (\<lambda>a. map_option (set_reg16 (RegNo w) (a + 1)) (store_byte MO a s))
   | (STPtrPdRr, [MO_Register w, MO_Register p, MO, MO_Immediate i]) \<Rightarrow>
       Option.bind (pointer s p) (\<lambda>a. store_byte MO (a - 1) (set_reg16 (RegNo w) (a - 1) s))
   | (STDPtrQRr, [MO_Register p, MO_Immediate q, MO]) \<Rightarrow>
       if six_bits q then Option.bind (pointer s p) (\<lambda>a. store_byte MO (a + ucast q) s) else None
   | (INRdA, [MO_Register d, MO_Immediate k]) \<Rightarrow>
       if six_bits k \<and> IsDef d \<and> RegNo d \<in> set byte_regs then Some (set_byte (RegNo d) (port s (ucast k)) s) else None
   | (OUTARr, [MO_Immediate k, MO]) \<Rightarrow>
       if six_bits k then map_option (\<lambda>v. s\<lparr>port := (port s)(ucast k := v)\<rparr>) (byte_operand s MO) else None
   | _ \<Rightarrow> None)"

text \<open>What an instruction is up to liveness marks and implicit operands.\<close>

definition meaning :: "instr \<Rightarrow> opcode \<times> operand list" where
  "meaning MI = (Opcode MI, filter explicit (List.map operand_core (Operands MI)))"

definition exec :: "alu_unit \<Rightarrow> instr \<Rightarrow> machine \<Rightarrow> machine option" where
  "exec alu MI s = (case meaning MI of
     (Alu op, ops) \<Rightarrow> exec_alu alu op ops s
   | (Mem op, ops) \<Rightarrow> exec_mem op ops s
   | _ \<Rightarrow> None)"

fun run :: "alu_unit \<Rightarrow> instr list \<Rightarrow> machine \<Rightarrow> machine option" where
  "run alu [] s = Some s"
| "run alu (i # is) s = Option.bind (exec alu i s) (run alu is)"

section \<open>Facts\<close>

lemma explicit_simps [build_simps]:
  "explicit (use r)" "explicit (use_kill r k)" "explicit (def_reg r)" "explicit (def_dead r d)"
  "explicit (MO_Immediate v)" "\<not> explicit (implicit_def r)" "\<not> explicit (implicit_use r)"
  by (simp_all add: explicit_def use_def use_kill_def def_reg_def def_dead_def implicit_def_def
    implicit_use_def)

lemma meaning_BuildMI: "meaning (BuildMI op ops) = (op, filter explicit (List.map operand_core ops))"
  by (simp add: meaning_def BuildMI_def comp_def build_simps filter_empty_conv)

lemma meaning_core:
  "Opcode MI' = Opcode MI \<Longrightarrow> List.map operand_core (Operands MI') = List.map operand_core (Operands MI)
   \<Longrightarrow> meaning MI' = meaning MI"
  by (simp add: meaning_def)

lemma byte_reg_set [simp]:
  "byte_reg (set_byte r v s) r' = (if r' = r then v else byte_reg s r')"
  "status (set_byte r v s) = status s" "memory (set_byte r v s) = memory s" "port (set_byte r v s) = port s"
  by (simp_all add: set_byte_def)

lemma mem_set [simp]:
  "byte_reg (set_mem a v s) = byte_reg s" "status (set_mem a v s) = status s"
  "memory (set_mem a v s) = (memory s)(a := v)" "port (set_mem a v s) = port s"
  by (simp_all add: set_mem_def)

lemma splitReg_sub: "splitReg r = Inr (lo, hi) \<Longrightarrow>
  getSubReg_lo r = lo \<and> getSubReg_hi r = hi \<and> lo \<in> set byte_regs \<and> hi \<in> set byte_regs \<and> lo \<noteq> hi"
  by (auto dest!: splitReg_cases simp: getSubReg_lo_def getSubReg_hi_def byte_regs_def)

lemma exec_by_meaning:
  "meaning MI = (Alu op, ops) \<Longrightarrow> exec alu MI s = exec_alu alu op ops s"
  "meaning MI = (Mem m, ops) \<Longrightarrow> exec alu MI s = exec_mem m ops s"
  by (simp_all add: exec_def)

text \<open>Nothing but the halves of one register and the flags changes.\<close>

definition only_changes :: "reg list \<Rightarrow> machine \<Rightarrow> machine \<Rightarrow> bool" where
  "only_changes rs s s' \<longleftrightarrow>
     (\<forall>r. r \<notin> getSubReg_lo ` set rs \<union> getSubReg_hi ` set rs \<longrightarrow> byte_reg s' r = byte_reg s r)
     \<and> memory s' = memory s \<and> port s' = port s"

context documented_alu
begin

lemma run_alu_value:
  assumes "op \<in> set valued_ops"
  shows "run_alu alu op (Some d) a b s
    = set_byte d (alu_value op (C_flag (status s)) a b) (s\<lparr>status := snd (alu op (status s) a b)\<rparr>)"
  using alu_result [OF assms, of "status s" a b]
  by (cases "alu op (status s) a b") (simp add: run_alu_def)

text \<open>Two instructions on the halves of a register, in either order.\<close>

lemma run_halves:
  assumes i: "meaning i = (Alu op1, def_reg x # use x # src1)"
    and j: "meaning j = (Alu op2, def_reg y # use y # src2)"
    and ops: "op1 \<in> set valued_ops" "op2 \<in> set valued_ops"
    and xy: "x \<in> set byte_regs" "y \<in> set byte_regs" "x \<noteq> y"
    and a: "src1 = [] \<and> a = 0 \<or> (\<exists>MO. src1 = [MO] \<and> byte_operand s MO = Some a)"
    and b: "src2 = [] \<and> b = 0 \<or> (\<exists>MO. src2 = [MO] \<and> (\<forall>s'. (\<forall>r. r \<noteq> x \<longrightarrow> byte_reg s' r = byte_reg s r) \<longrightarrow> byte_operand s' MO = Some b))"
  shows "\<exists>s'. run alu [i, j] s = Some s'
    \<and> byte_reg s' x = alu_value op1 (C_flag (status s)) (byte_reg s x) a
    \<and> byte_reg s' y = alu_value op2 (C_flag (snd (alu op1 (status s) (byte_reg s x) a))) (byte_reg s y) b
    \<and> status s' = snd (alu op2 (snd (alu op1 (status s) (byte_reg s x) a)) (byte_reg s y) b)
    \<and> (\<forall>r. r \<noteq> x \<and> r \<noteq> y \<longrightarrow> byte_reg s' r = byte_reg s r)
    \<and> memory s' = memory s \<and> port s' = port s"
proof -
  have nc: "op \<in> set valued_ops \<Longrightarrow> op \<noteq> CPRdRr \<and> op \<noteq> CPCRdRr" for op
    by (auto simp: valued_ops_def)
  let ?s1 = "run_alu alu op1 (Some x) (byte_reg s x) a s"
  have 1: "exec alu i s = Some ?s1"
    using a ops xy nc [OF ops(1)]
    by (auto simp: exec_by_meaning(1) [OF i] exec_alu_def byte_operand_def use_def def_reg_def def_dead_def)
  have k: "\<forall>r. r \<noteq> x \<longrightarrow> byte_reg ?s1 r = byte_reg s r"
    by (simp add: run_alu_value ops)
  have 2: "exec alu j ?s1 = Some (run_alu alu op2 (Some y) (byte_reg s y) b ?s1)"
    using b k ops xy nc [OF ops(2)]
    by (auto simp: exec_by_meaning(1) [OF j] exec_alu_def byte_operand_def use_def def_reg_def def_dead_def)
  have "run alu [i, j] s = Some (run_alu alu op2 (Some y) (byte_reg s y) b ?s1)"
    by (simp add: 1 2)
  with xy show ?thesis by (simp add: run_alu_value ops)
qed

end

end
