(* ===== verification/Expand_Refinement.thy ===== *)
theory Expand_Refinement
  imports Expand_Pseudo Byte_Machine
begin

unbundle bit_operations_syntax

text \<open>
  The expansions do what the pseudo instructions mean: running the byte instructions on the
  halves of a register gives the 16-bit result and carry, 16-bit comparisons, and the
  16-bit loads and stores in little-endian order.
\<close>

section \<open>Instructions up to liveness\<close>

text \<open>\<open>MI\<close> has the operands of \<open>BuildMI\<close>, with any kill and dead marks.\<close>

definition built_as :: "instr \<Rightarrow> opcode \<Rightarrow> operand list \<Rightarrow> bool" where
  "built_as MI op ops \<longleftrightarrow> Opcode MI = op
     \<and> List.map operand_core (Operands MI) = Operands (BuildMI op ops)"

lemma core_reg [simp]:
  "operand_core MO = use r \<longleftrightarrow> (\<exists>k d. MO = MO_Register \<lparr>RegNo = r, IsDef = False, IsImp = False, IsKill = k, IsDead = d\<rparr>)"
  "operand_core MO = def_reg r \<longleftrightarrow> (\<exists>k d. MO = MO_Register \<lparr>RegNo = r, IsDef = True, IsImp = False, IsKill = k, IsDead = d\<rparr>)"
  "operand_core MO = implicit_def r \<longleftrightarrow> (\<exists>k d. MO = MO_Register \<lparr>RegNo = r, IsDef = True, IsImp = True, IsKill = k, IsDead = d\<rparr>)"
  "operand_core MO = implicit_use r \<longleftrightarrow> (\<exists>k d. MO = MO_Register \<lparr>RegNo = r, IsDef = False, IsImp = True, IsKill = k, IsDead = d\<rparr>)"
  "operand_core MO = MO_Immediate v \<longleftrightarrow> MO = MO_Immediate v"
proof -
  have *: "operand_core MO = MO_Register \<lparr>RegNo = r, IsDef = a, IsImp = b, IsKill = False, IsDead = False\<rparr>
      \<longleftrightarrow> (\<exists>k d. MO = MO_Register \<lparr>RegNo = r, IsDef = a, IsImp = b, IsKill = k, IsDead = d\<rparr>)" for a b
  proof (cases MO)
    case (MO_Register x)
    then show ?thesis by (cases x) (auto simp: operand_core_def)
  qed (auto simp: operand_core_def)
  show "operand_core MO = use r \<longleftrightarrow> (\<exists>k d. MO = MO_Register \<lparr>RegNo = r, IsDef = False, IsImp = False, IsKill = k, IsDead = d\<rparr>)"
    unfolding use_def by (rule *)
  show "operand_core MO = def_reg r \<longleftrightarrow> (\<exists>k d. MO = MO_Register \<lparr>RegNo = r, IsDef = True, IsImp = False, IsKill = k, IsDead = d\<rparr>)"
    unfolding def_reg_def def_dead_def by (rule *)
  show "operand_core MO = implicit_def r \<longleftrightarrow> (\<exists>k d. MO = MO_Register \<lparr>RegNo = r, IsDef = True, IsImp = True, IsKill = k, IsDead = d\<rparr>)"
    unfolding implicit_def_def by (rule *)
  show "operand_core MO = implicit_use r \<longleftrightarrow> (\<exists>k d. MO = MO_Register \<lparr>RegNo = r, IsDef = False, IsImp = True, IsKill = k, IsDead = d\<rparr>)"
    unfolding implicit_use_def by (rule *)
  show "operand_core MO = MO_Immediate v \<longleftrightarrow> MO = MO_Immediate v"
    by (cases MO) (auto simp: operand_core_def)
qed

text \<open>The steps of an expansion, evaluated on operands that are known.\<close>

lemmas operand_steps = getReg_def isDead_def isKill_def getImm_def getImm32_def getOperand_def as_reg_def

lemma setIsDead_meaning:
  "setIsDead i MI = Inr MI' \<Longrightarrow> meaning MI' = meaning MI"
  "setIsDead_if b i MI = Inr MI' \<Longrightarrow> meaning MI' = meaning MI"
  "setIsKill i MI = Inr MI' \<Longrightarrow> meaning MI' = meaning MI"
  by (auto simp: setIsDead_if_def meaning_def dest: setIsDead_core setIsKill_core split: if_splits)

lemma setIsDead_built:
  assumes "op \<notin> set alu_keeps_P" "op \<notin> {MULRdRr, MULSRdRr}"
  shows "\<exists>MI'. setIsDead (length ops) (BuildMI (Alu op) ops) = Inr MI'
    \<and> meaning MI' = meaning (BuildMI (Alu op) ops)"
    "\<exists>MI'. setIsDead_if b (length ops) (BuildMI (Alu op) ops) = Inr MI'
    \<and> meaning MI' = meaning (BuildMI (Alu op) ops)"
proof -
  have "\<exists>MI'. setIsDead (length ops) (BuildMI (Alu op) ops) = Inr MI'"
    using assms
    by (simp add: setIsDead_def getOperand_def BuildMI_def ImplicitDefs_def nth_append implicit_def_def)
  with setIsDead_meaning(1) show 1: "\<exists>MI'. setIsDead (length ops) (BuildMI (Alu op) ops) = Inr MI'
    \<and> meaning MI' = meaning (BuildMI (Alu op) ops)" by blast
  then show "\<exists>MI'. setIsDead_if b (length ops) (BuildMI (Alu op) ops) = Inr MI'
    \<and> meaning MI' = meaning (BuildMI (Alu op) ops)" by (cases b) (simp_all add: setIsDead_if_def)
qed

lemma reads_P_writes_P: "op \<in> set alu_reads_P \<Longrightarrow> op \<notin> set alu_keeps_P \<and> op \<notin> {MULRdRr, MULSRdRr}"
  by (auto simp: alu_reads_P_def alu_keeps_P_def)

lemma setIsKill_built:
  assumes "op \<in> set alu_reads_P"
  shows "\<exists>MI'. setIsKill (Suc (length ops)) (BuildMI (Alu op) ops) = Inr MI'
    \<and> meaning MI' = meaning (BuildMI (Alu op) ops)"
proof -
  have "\<exists>MI'. setIsKill (Suc (length ops)) (BuildMI (Alu op) ops) = Inr MI'"
    using assms reads_P_writes_P [OF assms]
    by (simp add: setIsKill_def getOperand_def BuildMI_def ImplicitDefs_def ImplicitUses_def
      nth_append implicit_use_def)
  with setIsDead_meaning(3) show ?thesis by blast
qed

lemma mark_P_built:
  assumes "op \<in> set alu_reads_P"
  shows "\<exists>MI'. mark_P b (length ops) (Suc (length ops)) (BuildMI (Alu op) ops) = Inr MI'
    \<and> meaning MI' = meaning (BuildMI (Alu op) ops)"
proof -
  note w = reads_P_writes_P [OF assms]
  have "\<exists>MI'. mark_P b (length ops) (Suc (length ops)) (BuildMI (Alu op) ops) = Inr MI'"
    using assms w
    by (cases b) (simp_all add: mark_P_def setIsDead_if_def setIsDead_def setIsKill_def getOperand_def
      BuildMI_def ImplicitDefs_def ImplicitUses_def nth_append implicit_use_def implicit_def_def)
  moreover have "meaning MI' = meaning MI" if "mark_P b i j MI = Inr MI'" for i j MI MI'
    using that by (auto simp: mark_P_def obind_eq_Inr dest!: setIsDead_meaning)
  ultimately show ?thesis by blast
qed

text \<open>The two instructions of an expansion, by meaning.\<close>

definition expands_to :: "instr list outcome \<Rightarrow> (opcode \<times> operand list) list \<Rightarrow> bool" where
  "expands_to r ms \<longleftrightarrow> (\<exists>is. r = Inr is \<and> List.map meaning is = ms)"

lemma expands_to_Inr [simp]: "expands_to (Inr is) ms \<longleftrightarrow> List.map meaning is = ms"
  by (simp add: expands_to_def)

lemma expands_to_mark:
  assumes "op \<in> set alu_reads_P" "length ops = n" "k = Suc n"
    and "\<And>y. meaning y = meaning (BuildMI (Alu op) ops) \<Longrightarrow> expands_to (f y) ms"
  shows "expands_to (obind (mark_P b n k (BuildMI (Alu op) ops)) f) ms"
  using mark_P_built [OF assms(1), where ops = ops and b = b] assms(2-) by auto

lemma expands_to_dead:
  assumes "op \<notin> set alu_keeps_P" "op \<notin> {MULRdRr, MULSRdRr}" "length ops = n"
    and "\<And>y. meaning y = meaning (BuildMI (Alu op) ops) \<Longrightarrow> expands_to (f y) ms"
  shows "expands_to (obind (setIsDead n (BuildMI (Alu op) ops)) f) ms"
    "expands_to (obind (setIsDead_if b n (BuildMI (Alu op) ops)) f) ms"
  using setIsDead_built(1) [OF assms(1,2), of ops] setIsDead_built(2) [OF assms(1,2), of b ops] assms(3-)
  by auto

lemma expands_to_kill:
  assumes "op \<in> set alu_reads_P" "Suc (length ops) = n"
    and "\<And>y. meaning y = meaning (BuildMI (Alu op) ops) \<Longrightarrow> expands_to (f y) ms"
  shows "expands_to (obind (setIsKill n (BuildMI (Alu op) ops)) f) ms"
  using setIsKill_built [OF assms(1), where ops = ops] assms(2-) by auto

lemmas expands_to_intros = expands_to_mark expands_to_dead expands_to_kill

text \<open>What the groups of expansions insert.\<close>

lemma expandArith_meaning:
  assumes "Operands MI = MO_Register r0 # MO_Register r1 # MO_Register r2 # MO_Register r3 # rest"
    and "splitReg (RegNo r0) = Inr (dl, dh)" "splitReg (RegNo r2) = Inr (rl, rh)"
    and "hi \<in> set alu_reads_P"
  shows "expands_to (expandArith (Alu lo) (Alu hi) MI)
    [(Alu lo, [def_reg dl, use dl, use rl]), (Alu hi, [def_reg dh, use dh, use rh])]"
  using assms
  by (auto simp: expandArith_def operand_steps meaning_BuildMI build_simps intro!: expands_to_intros)

lemma expandLogic_meaning:
  assumes "Operands MI = MO_Register r0 # MO_Register r1 # MO_Register r2 # MO_Register r3 # rest"
    and "splitReg (RegNo r0) = Inr (dl, dh)" "splitReg (RegNo r2) = Inr (rl, rh)"
    and "op \<notin> set alu_keeps_P" "op \<notin> {MULRdRr, MULSRdRr}"
  shows "expands_to (expandLogic (Alu op) MI)
    [(Alu op, [def_reg dl, use dl, use rl]), (Alu op, [def_reg dh, use dh, use rh])]"
  using assms
  by (auto simp: expandLogic_def operand_steps meaning_BuildMI build_simps intro!: expands_to_intros)

lemma imm_meaning:
  assumes "Operands MI = MO_Register r0 # MO_Register r1 # MO_Immediate v # MO_Register r3 # rest"
    and "splitReg (RegNo r0) = Inr (dl, dh)"
  shows "expands_to (expand_SUBIWRdK MI)
    [(Alu SUBIRdK, [def_reg dl, use dl, lo8_imm (ucast v)]), (Alu SBCIRdK, [def_reg dh, use dh, hi8_imm (ucast v)])]"
    "expands_to (expand_SBCIWRdK MI)
    [(Alu SBCIRdK, [def_reg dl, use dl, lo8_imm (ucast v)]), (Alu SBCIRdK, [def_reg dh, use dh, hi8_imm (ucast v)])]"
  using assms
  by (auto simp: expand_SUBIWRdK_def expand_SBCIWRdK_def subiw_halves_def operand_steps meaning_BuildMI
    build_simps lo8_imm_def hi8_imm_def imm32_def alu_reads_P_def intro!: expands_to_intros)

lemma unary_meaning:
  assumes "Operands MI = MO_Register r0 # MO_Register r1 # MO_Register r2 # rest"
    and "splitReg (RegNo r0) = Inr (dl, dh)"
  shows "expands_to (expand_COMWRd MI)
      [(Alu COMRd, [def_reg dl, use dl]), (Alu COMRd, [def_reg dh, use dh])]"
    "expands_to (expand_LSLWRd MI)
      [(Alu LSLRd, [def_reg dl, use dl]), (Alu ROLRd, [def_reg dh, use dh])]"
    "expands_to (expand_LSRWRd MI)
      [(Alu LSRRd, [def_reg dh, use dh]), (Alu RORRd, [def_reg dl, use dl])]"
    "expands_to (expand_ASRWRd MI)
      [(Alu ASRRd, [def_reg dh, use dh]), (Alu RORRd, [def_reg dl, use dl])]"
  using assms
  by (auto simp: expand_COMWRd_def expand_LSLWRd_def expand_LSRWRd_def expand_ASRWRd_def expand_shift_def
    operand_steps meaning_BuildMI build_simps alu_reads_P_def alu_keeps_P_def intro!: expands_to_intros)

section \<open>An operation on 16 bits as two on 8 bits\<close>

text \<open>
  \<open>low_high op lo hi\<close>: doing \<open>lo\<close> on the low bytes and then \<open>hi\<close> on the high bytes, with the
  carry of the first step, gives the value and the carry of \<open>op\<close> on 16 bits. \<open>high_low\<close> is
  the same for the other order.
\<close>

definition low_high :: "alu_op \<Rightarrow> alu_op \<Rightarrow> alu_op \<Rightarrow> bool" where
  "low_high op lo hi \<longleftrightarrow> (\<forall>C c1 h l h' l'. (\<forall>c. alu_carry lo C l l' = Some c \<longrightarrow> c1 = c) \<longrightarrow>
     alu_value op C (join h l) (join h' l') = join (alu_value hi c1 h h') (alu_value lo C l l')
     \<and> (\<forall>c. alu_carry op C (join h l) (join h' l') = Some c \<longrightarrow> alu_carry hi c1 h h' = Some c))"

definition high_low :: "alu_op \<Rightarrow> alu_op \<Rightarrow> alu_op \<Rightarrow> bool" where
  "high_low op hi lo \<longleftrightarrow> (\<forall>C c1 h l h' l'. (\<forall>c. alu_carry hi C h h' = Some c \<longrightarrow> c1 = c) \<longrightarrow>
     alu_value op C (join h l) (join h' l') = join (alu_value hi C h h') (alu_value lo c1 l l')
     \<and> (\<forall>c. alu_carry op C (join h l) (join h' l') = Some c \<longrightarrow> alu_carry lo c1 l l' = Some c))"

lemma low_high_carry:
  "low_high ADCRdRr ADCRdRr ADCRdRr" "low_high SBCRdRr SBCRdRr SBCRdRr" "low_high SBCIRdK SBCIRdK SBCIRdK"
  by (simp_all add: low_high_def alu_value_def alu_carry_def carry_join borrow_join join_add join_sub)

lemma low_high_plain:
  "low_high ADDRdRr ADDRdRr ADCRdRr" "low_high SUBRdRr SUBRdRr SBCRdRr" "low_high SUBIRdK SUBIRdK SBCIRdK"
  using join_add [where c = False] join_sub [where c = False]
  by (simp_all add: low_high_def alu_value_def alu_carry_def carry_join borrow_join)

lemma low_high_logic:
  "low_high ANDRdRr ANDRdRr ANDRdRr" "low_high ORRdRr ORRdRr ORRdRr" "low_high EORRdRr EORRdRr EORRdRr"
  "low_high COMRd COMRd COMRd"
  by (auto simp: low_high_def alu_value_def alu_carry_def join_bitwise)

lemma join_shl: "push_bit 1 (join h l) = join (push_bit 1 h OR of_bool (bit l 7)) (push_bit 1 l)"
proof (rule bit_word_eqI)
  fix n assume "n < LENGTH(16)"
  then show "bit (push_bit 1 (join h l)) n
      = bit (join (push_bit 1 h OR of_bool (bit l 7)) (push_bit 1 l)) n"
    by (cases "n < 8"; cases "n = 8") (auto simp: bit_join bit_simps simp del: push_bit_Suc)
qed

lemma join_shr: "drop_bit 1 (join h l) = join (drop_bit 1 h) (drop_bit 1 l OR push_bit 7 (of_bool (bit h 0)))"
proof (rule bit_word_eqI)
  fix n assume n: "n < LENGTH(16)"
  have l8: "\<not> bit l (Suc n)" if "7 \<le> n"
    using that bit_imp_le_length [of l "Suc n"] by auto
  have low: "bit (drop_bit 1 l OR push_bit 7 (of_bool (bit h 0))) n
      = (if n = 7 then bit h 0 else bit l (Suc n))" if "n < 8"
    using that l8 by (cases "n = 7") (auto simp: bit_or_iff bit_drop_bit_eq bit_push_bit_iff bit_of_bool_iff)
  show "bit (drop_bit 1 (join h l)) n
      = bit (join (drop_bit 1 h) (drop_bit 1 l OR push_bit 7 (of_bool (bit h 0)))) n"
  proof (cases "n < 8")
    case True
    have "bit (join (drop_bit 1 h) (drop_bit 1 l OR push_bit 7 (of_bool (bit h 0)))) n
        = (if n = 7 then bit h 0 else bit l (Suc n))"
      by (simp only: bit_join True if_True low)
    with True show ?thesis
      by (cases "n = 7") (simp_all add: bit_drop_bit_eq bit_join)
  next
    case False
    then have "Suc (n - 8) = n - 7" by simp
    moreover have "\<not> bit h 8" using bit_imp_le_length [of h 8] by auto
    moreover have "n \<noteq> 15 \<Longrightarrow> n - 8 < 7" using n by simp
    ultimately show ?thesis
      using False n by (cases "n = 15") (simp_all add: bit_join bit_drop_bit_eq)
  qed
qed

lemma join_sar: "signed_drop_bit 1 (join h l) = join (signed_drop_bit 1 h) (drop_bit 1 l OR push_bit 7 (of_bool (bit h 0)))"
proof (rule bit_word_eqI)
  fix n assume n: "n < LENGTH(16)"
  have l8: "\<not> bit l (Suc n)" if "7 \<le> n"
    using that bit_imp_le_length [of l "Suc n"] by auto
  have low: "bit (drop_bit 1 l OR push_bit 7 (of_bool (bit h 0))) n
      = (if n = 7 then bit h 0 else bit l (Suc n))" if "n < 8"
    using that l8 by (cases "n = 7") (auto simp: bit_or_iff bit_drop_bit_eq bit_push_bit_iff bit_of_bool_iff)
  show "bit (signed_drop_bit 1 (join h l)) n
      = bit (join (signed_drop_bit 1 h) (drop_bit 1 l OR push_bit 7 (of_bool (bit h 0)))) n"
  proof (cases "n < 8")
    case True
    have "bit (join (signed_drop_bit 1 h) (drop_bit 1 l OR push_bit 7 (of_bool (bit h 0)))) n
        = (if n = 7 then bit h 0 else bit l (Suc n))"
      by (simp only: bit_join True if_True low)
    with True show ?thesis
      by (cases "n = 7") (simp_all add: bit_signed_drop_bit_iff bit_join)
  next
    case False
    then have "Suc (n - 8) = n - 7" by simp
    moreover have "\<not> bit h 8" using bit_imp_le_length [of h 8] by auto
    moreover have "n \<noteq> 15 \<Longrightarrow> n - 8 < 7" using n by simp
    ultimately show ?thesis
      using False n by (cases "n = 15") (simp_all add: bit_join bit_signed_drop_bit_iff)
  qed
qed

lemmas join_shift = join_shl join_shr join_sar

lemma low_high_shift: "low_high LSLRd LSLRd ROLRd"
  by (simp add: low_high_def alu_value_def alu_carry_def join_shift(1) [simplified] bit_join)

lemma high_low_shift: "high_low LSRRd LSRRd RORRd" "high_low ASRRd ASRRd RORRd"
  by (simp_all add: high_low_def alu_value_def alu_carry_def join_shift(2,3) [simplified] bit_join)

text \<open>
  From \<open>s\<close> to \<open>s'\<close> the operation \<open>op\<close> was done on the 16-bit register \<open>d\<close> and \<open>b\<close>: the value,
  the carry where the operation has one, and nothing else but flags changes.
\<close>

definition widened :: "alu_op \<Rightarrow> reg \<Rightarrow> u16 \<Rightarrow> machine \<Rightarrow> machine \<Rightarrow> bool" where
  "widened op d b s s' \<longleftrightarrow>
     reg16 s' d = alu_value op (C_flag (status s)) (reg16 s d) b
     \<and> (\<forall>c. alu_carry op (C_flag (status s)) (reg16 s d) b = Some c \<longrightarrow> C_flag (status s') = c)
     \<and> only_changes [d] s s'"

text \<open>The second operands of the two halves, as bytes.\<close>

definition byte_source :: "machine \<Rightarrow> operand list \<Rightarrow> u8 \<Rightarrow> bool" where
  "byte_source s src a \<longleftrightarrow> src = [] \<and> a = 0 \<or> (\<exists>MO. src = [MO] \<and> byte_operand s MO = Some a)"

definition stable_source :: "reg \<Rightarrow> operand list \<Rightarrow> bool" where
  "stable_source x src \<longleftrightarrow> (\<forall>MO \<in> set src. \<forall>s s'. (\<forall>r. r \<noteq> x \<longrightarrow> byte_reg s' r = byte_reg s r)
     \<longrightarrow> byte_operand s' MO = byte_operand s MO)"

context documented_alu
begin

lemma run_low_high:
  assumes ms: "List.map meaning is = [(Alu o1, def_reg dl # use dl # src1), (Alu o2, def_reg dh # use dh # src2)]"
    and d: "splitReg d = Inr (dl, dh)"
    and ops: "o1 \<in> set valued_ops" "o2 \<in> set valued_ops"
    and a: "byte_source s src1 bl" and b: "byte_source s src2 bh" "stable_source dl src2"
    and lh: "low_high op o1 o2"
  shows "\<exists>s'. run alu is s = Some s' \<and> widened op d (join bh bl) s s'"
proof -
  obtain i j where ij: "is = [i, j]" and m: "meaning i = (Alu o1, def_reg dl # use dl # src1)"
      "meaning j = (Alu o2, def_reg dh # use dh # src2)"
    using ms by (auto simp: map_eq_Cons_conv)
  note sub = splitReg_sub [OF d]
  let ?F = "snd (alu o1 (status s) (byte_reg s dl) bl)"
  have 1: "src1 = [] \<and> bl = 0 \<or> (\<exists>MO. src1 = [MO] \<and> byte_operand s MO = Some bl)"
    using a by (simp add: byte_source_def)
  have 2: "src2 = [] \<and> bh = 0 \<or> (\<exists>MO. src2 = [MO] \<and>
      (\<forall>s'. (\<forall>r. r \<noteq> dl \<longrightarrow> byte_reg s' r = byte_reg s r) \<longrightarrow> byte_operand s' MO = Some bh))"
    using b unfolding byte_source_def stable_source_def by (metis list.set_intros(1))
  have xy: "dl \<in> set byte_regs" "dh \<in> set byte_regs" "dl \<noteq> dh" using sub by auto
  obtain s' where s': "run alu [i, j] s = Some s'"
    "byte_reg s' dl = alu_value o1 (C_flag (status s)) (byte_reg s dl) bl"
    "byte_reg s' dh = alu_value o2 (C_flag ?F) (byte_reg s dh) bh"
    "status s' = snd (alu o2 ?F (byte_reg s dh) bh)"
    "\<forall>r. r \<noteq> dl \<and> r \<noteq> dh \<longrightarrow> byte_reg s' r = byte_reg s r" "memory s' = memory s" "port s' = port s"
    using run_halves [OF m ops xy 1 2] by blast
  have "\<forall>c. alu_carry o1 (C_flag (status s)) (byte_reg s dl) bl = Some c \<longrightarrow> C_flag ?F = c"
    by (simp add: alu_carry_out)
  with lh have "alu_value op (C_flag (status s)) (join (byte_reg s dh) (byte_reg s dl)) (join bh bl)
      = join (byte_reg s' dh) (byte_reg s' dl)"
    "\<forall>c. alu_carry op (C_flag (status s)) (join (byte_reg s dh) (byte_reg s dl)) (join bh bl) = Some c
      \<longrightarrow> alu_carry o2 (C_flag ?F) (byte_reg s dh) bh = Some c"
    unfolding s'(2,3) low_high_def by blast+
  then have "widened op d (join bh bl) s s'"
    using s' sub by (auto simp: widened_def reg16_def only_changes_def alu_carry_out)
  with s'(1) ij show ?thesis by blast
qed

lemma run_high_low:
  assumes ms: "List.map meaning is = [(Alu o1, [def_reg dh, use dh]), (Alu o2, [def_reg dl, use dl])]"
    and d: "splitReg d = Inr (dl, dh)"
    and ops: "o1 \<in> set valued_ops" "o2 \<in> set valued_ops"
    and hl: "high_low op o1 o2"
  shows "\<exists>s'. run alu is s = Some s' \<and> widened op d (join 0 0) s s'"
proof -
  obtain i j where ij: "is = [i, j]" and m: "meaning i = (Alu o1, [def_reg dh, use dh])"
      "meaning j = (Alu o2, [def_reg dl, use dl])"
    using ms by (auto simp: map_eq_Cons_conv)
  note sub = splitReg_sub [OF d]
  let ?F = "snd (alu o1 (status s) (byte_reg s dh) 0)"
  have xy: "dh \<in> set byte_regs" "dl \<in> set byte_regs" "dh \<noteq> dl" using sub by auto
  obtain s' where s': "run alu [i, j] s = Some s'"
    "byte_reg s' dh = alu_value o1 (C_flag (status s)) (byte_reg s dh) 0"
    "byte_reg s' dl = alu_value o2 (C_flag ?F) (byte_reg s dl) 0"
    "status s' = snd (alu o2 ?F (byte_reg s dl) 0)"
    "\<forall>r. r \<noteq> dh \<and> r \<noteq> dl \<longrightarrow> byte_reg s' r = byte_reg s r" "memory s' = memory s" "port s' = port s"
    using run_halves [OF m ops xy, where s = s and a = 0 and b = 0] by auto
  have "\<forall>c. alu_carry o1 (C_flag (status s)) (byte_reg s dh) 0 = Some c \<longrightarrow> C_flag ?F = c"
    by (simp add: alu_carry_out)
  with hl have "alu_value op (C_flag (status s)) (join (byte_reg s dh) (byte_reg s dl)) (join 0 0)
      = join (byte_reg s' dh) (byte_reg s' dl)"
    "\<forall>c. alu_carry op (C_flag (status s)) (join (byte_reg s dh) (byte_reg s dl)) (join 0 0) = Some c
      \<longrightarrow> alu_carry o2 (C_flag ?F) (byte_reg s dl) 0 = Some c"
    unfolding s'(2,3) high_low_def by blast+
  then have "widened op d (join 0 0) s s'"
    using s' sub by (auto simp: widened_def reg16_def only_changes_def alu_carry_out)
  with s'(1) ij show ?thesis by blast
qed

end

section \<open>Arithmetic, logic and shifts\<close>

text \<open>A state for examples: \<open>A = 0x12ff\<close>, \<open>X = 0x0102\<close>, and \<open>Y = 0\<close>.\<close>

definition sample_machine :: machine where
  "sample_machine = \<lparr>byte_reg = (\<lambda>_. 0)(SNES_AL := 0xff, SNES_AH := 0x12, SNES_XL := 2, SNES_XH := 1),
     status = \<lparr>C_flag = True, Z_flag = False, N_flag = False, V_flag = False\<rparr>,
     memory = (\<lambda>a. ucast a), port = (\<lambda>_. 0)\<rparr>"

lemma sample_regs [simp]:
  "reg16 sample_machine SNES_A = 0x12ff" "reg16 sample_machine SNES_X = 0x0102"
  "reg16 sample_machine SNES_Y = 0" "memory sample_machine a = ucast a"
  by (simp_all add: sample_machine_def reg16_def getSubReg_lo_def getSubReg_hi_def word_uint_eq_iff uint_join)

text \<open>
  The byte operation that a pseudo instruction does on 16 bits. \<open>ANDIWRdK\<close> and \<open>ORIWRdK\<close> are
  not in the table: they are not expanded to byte operations.
\<close>

definition wide_alu :: "wide_op \<Rightarrow> alu_op option" where
  "wide_alu w = (case w of
     ADDWRdRr \<Rightarrow> Some ADDRdRr | ADCWRdRr \<Rightarrow> Some ADCRdRr
   | SUBWRdRr \<Rightarrow> Some SUBRdRr | SBCWRdRr \<Rightarrow> Some SBCRdRr
   | SUBIWRdK \<Rightarrow> Some SUBIRdK | SBCIWRdK \<Rightarrow> Some SBCIRdK
   | ANDWRdRr \<Rightarrow> Some ANDRdRr | ORWRdRr \<Rightarrow> Some ORRdRr | EORWRdRr \<Rightarrow> Some EORRdRr
   | COMWRd \<Rightarrow> Some COMRd | LSLWRd \<Rightarrow> Some LSLRd | LSRWRd \<Rightarrow> Some LSRRd | ASRWRd \<Rightarrow> Some ASRRd
   | _ \<Rightarrow> None)"

text \<open>The second operand of a pseudo instruction and its value.\<close>

definition wide_source :: "wide_op \<Rightarrow> machine \<Rightarrow> operand list \<Rightarrow> u16 \<Rightarrow> bool" where
  "wide_source w s src b =
     (if w \<in> {SUBIWRdK, SBCIWRdK} then (\<exists>v. src = [MO_Immediate v] \<and> b = ucast v)
      else if w \<in> {COMWRd, LSLWRd, LSRWRd, ASRWRd} then src = [] \<and> b = 0
      else (\<exists>r \<in> set (class_members MainRegs). src = [use r] \<and> b = reg16 s r))"

lemma imm_bytes:
  "byte_source s [lo8_imm (ucast v)] (ucast (v :: u64))"
  "byte_source s [hi8_imm (ucast v)] (ucast (drop_bit 8 v))"
  "stable_source x [lo8_imm w]" "stable_source x [hi8_imm w]"
  "join (ucast (drop_bit 8 v)) (ucast v) = ucast v"
proof -
  have 1: "ucast (ucast ((ucast v :: u32) AND 255) :: u64) = (ucast v :: u8)"
    by (rule bit_word_eqI) (auto simp: bit_simps and_mask8)
  have 2: "ucast (ucast (drop_bit 8 (ucast v :: u32) AND 255) :: u64) = (ucast (drop_bit 8 v) :: u8)"
    by (rule bit_word_eqI) (auto simp: bit_simps and_mask8)
  show "byte_source s [lo8_imm (ucast v)] (ucast (v :: u64))"
    using 1 by (simp add: byte_source_def lo8_imm_def imm32_def byte_operand_def)
  show "byte_source s [hi8_imm (ucast v)] (ucast (drop_bit 8 v))"
    using 2 by (simp add: byte_source_def hi8_imm_def imm32_def byte_operand_def)
  show "stable_source x [lo8_imm w]" "stable_source x [hi8_imm w]"
    by (simp_all add: stable_source_def lo8_imm_def hi8_imm_def imm32_def byte_operand_def)
  show "join (ucast (drop_bit 8 v)) (ucast v) = ucast v"
    by (rule bit_word_eqI) (auto simp: bit_join bit_simps)
qed

lemma reg_bytes:
  assumes "splitReg r = Inr (rl, rh)"
  shows "byte_source s [use rl] (byte_reg s rl)" "byte_source s [use rh] (byte_reg s rh)"
    "splitReg d = Inr (dl, dh) \<Longrightarrow> stable_source dl [use rh]"
    "join (byte_reg s rh) (byte_reg s rl) = reg16 s r"
  using splitReg_sub [OF assms] splitReg_disjoint [of d dl dh r rl rh] assms
  by (auto simp: byte_source_def stable_source_def byte_operand_def use_def reg16_def)

lemma built_two:
  assumes "built_as MI (Wide w) [def_reg d, use d, use r]" "w \<in> set wide_writes_P"
  shows "\<exists>r0 r1 r2 r3 rest. Operands MI = MO_Register r0 # MO_Register r1 # MO_Register r2 # MO_Register r3 # rest
    \<and> RegNo r0 = d \<and> RegNo r2 = r"
  using assms
  by (auto simp: built_as_def BuildMI_def ImplicitDefs_def map_eq_Cons_conv map_eq_append_conv)

lemma built_imm:
  assumes "built_as MI (Wide w) [def_reg d, use d, MO_Immediate v]" "w \<in> set wide_writes_P"
  shows "\<exists>r0 r1 r3 rest. Operands MI = MO_Register r0 # MO_Register r1 # MO_Immediate v # MO_Register r3 # rest
    \<and> RegNo r0 = d"
  using assms
  by (auto simp: built_as_def BuildMI_def ImplicitDefs_def map_eq_Cons_conv map_eq_append_conv)

lemma built_one:
  assumes "built_as MI (Wide w) [def_reg d, use d]" "w \<in> set wide_writes_P"
  shows "\<exists>r0 r1 r2 rest. Operands MI = MO_Register r0 # MO_Register r1 # MO_Register r2 # rest
    \<and> RegNo r0 = d"
  using assms
  by (auto simp: built_as_def BuildMI_def ImplicitDefs_def map_eq_Cons_conv map_eq_append_conv)

lemma wide_alu_writes_P: "wide_alu w = Some op \<Longrightarrow> w \<in> set wide_writes_P"
  by (auto simp: wide_alu_def wide_writes_P_def split: wide_op.splits)

text \<open>The operations of the first and of the second instruction of an expansion.\<close>

definition half_ops :: "wide_op \<Rightarrow> alu_op \<times> alu_op" where
  "half_ops w = (case w of
     ADDWRdRr \<Rightarrow> (ADDRdRr, ADCRdRr) | ADCWRdRr \<Rightarrow> (ADCRdRr, ADCRdRr)
   | SUBWRdRr \<Rightarrow> (SUBRdRr, SBCRdRr) | SBCWRdRr \<Rightarrow> (SBCRdRr, SBCRdRr)
   | SUBIWRdK \<Rightarrow> (SUBIRdK, SBCIRdK) | SBCIWRdK \<Rightarrow> (SBCIRdK, SBCIRdK)
   | ANDWRdRr \<Rightarrow> (ANDRdRr, ANDRdRr) | ORWRdRr \<Rightarrow> (ORRdRr, ORRdRr) | EORWRdRr \<Rightarrow> (EORRdRr, EORRdRr)
   | COMWRd \<Rightarrow> (COMRd, COMRd) | LSLWRd \<Rightarrow> (LSLRd, ROLRd) | LSRWRd \<Rightarrow> (LSRRd, RORRd)
   | ASRWRd \<Rightarrow> (ASRRd, RORRd) | _ \<Rightarrow> (MOVRdRr, MOVRdRr))"

lemma half_ops_widen:
  "wide_alu w = Some op \<Longrightarrow> w \<notin> {LSRWRd, ASRWRd} \<Longrightarrow> low_high op (fst (half_ops w)) (snd (half_ops w))"
  "wide_alu w = Some op \<Longrightarrow> w \<in> {LSRWRd, ASRWRd} \<Longrightarrow> high_low op (fst (half_ops w)) (snd (half_ops w))"
  "fst (half_ops w) \<in> set valued_ops" "snd (half_ops w) \<in> set valued_ops"
  by (cases w; auto simp: wide_alu_def half_ops_def valued_ops_def
    intro: low_high_carry low_high_plain low_high_logic low_high_shift high_low_shift)+

lemma two_reg_expansion:
  assumes "wide_alu w = Some op" "w \<notin> {SUBIWRdK, SBCIWRdK, COMWRd, LSLWRd, LSRWRd, ASRWRd}"
    and "Operands MI = MO_Register r0 # MO_Register r1 # MO_Register r2 # MO_Register r3 # rest"
    and "splitReg (RegNo r0) = Inr (dl, dh)" "splitReg (RegNo r2) = Inr (rl, rh)"
  shows "expands_to (expand_wide avail w MI)
    [(Alu (fst (half_ops w)), [def_reg dl, use dl, use rl]), (Alu (snd (half_ops w)), [def_reg dh, use dh, use rh])]"
proof -
  note arith = expandArith_meaning [OF assms(3-5)] and logic = expandLogic_meaning [OF assms(3-5)]
  from assms(1,2) show ?thesis
    by (cases w) (simp_all add: wide_alu_def expand_wide_def half_ops_def alu_reads_P_def alu_keeps_P_def arith logic)
qed

lemma imm_expansion:
  assumes "w \<in> {SUBIWRdK, SBCIWRdK}"
    and "Operands MI = MO_Register r0 # MO_Register r1 # MO_Immediate v # MO_Register r3 # rest"
    and "splitReg (RegNo r0) = Inr (dl, dh)"
  shows "expands_to (expand_wide avail w MI)
    [(Alu (fst (half_ops w)), [def_reg dl, use dl, lo8_imm (ucast v)]),
     (Alu (snd (half_ops w)), [def_reg dh, use dh, hi8_imm (ucast v)])]"
  using assms(1) imm_meaning [OF assms(2,3)] by (cases w) (simp_all add: expand_wide_def half_ops_def)

lemma unary_low_expansion:
  assumes "w \<in> {COMWRd, LSLWRd}"
    and "Operands MI = MO_Register r0 # MO_Register r1 # MO_Register r2 # rest"
    and "splitReg (RegNo r0) = Inr (dl, dh)"
  shows "expands_to (expand_wide avail w MI)
    [(Alu (fst (half_ops w)), [def_reg dl, use dl]), (Alu (snd (half_ops w)), [def_reg dh, use dh])]"
  using assms(1) unary_meaning [OF assms(2,3)] by (cases w) (simp_all add: expand_wide_def half_ops_def)

lemma unary_high_expansion:
  assumes "w \<in> {LSRWRd, ASRWRd}"
    and "Operands MI = MO_Register r0 # MO_Register r1 # MO_Register r2 # rest"
    and "splitReg (RegNo r0) = Inr (dl, dh)"
  shows "expands_to (expand_wide avail w MI)
    [(Alu (fst (half_ops w)), [def_reg dh, use dh]), (Alu (snd (half_ops w)), [def_reg dl, use dl])]"
  using assms(1) unary_meaning [OF assms(2,3)] by (cases w) (simp_all add: expand_wide_def half_ops_def)

context documented_alu
begin

text \<open>Running what an expansion inserted.\<close>

lemma widened_low_high:
  assumes e: "expands_to r [(Alu (fst (half_ops w)), def_reg dl # use dl # src1),
      (Alu (snd (half_ops w)), def_reg dh # use dh # src2)]"
    and w: "wide_alu w = Some op" "w \<notin> {LSRWRd, ASRWRd}"
    and "splitReg d = Inr (dl, dh)" "byte_source s src1 bl" "byte_source s src2 bh" "stable_source dl src2"
  shows "\<exists>is s'. r = Inr is \<and> run alu is s = Some s' \<and> widened op d (join bh bl) s s'"
proof -
  obtain js where "r = Inr js" "List.map meaning js = [(Alu (fst (half_ops w)), def_reg dl # use dl # src1),
      (Alu (snd (half_ops w)), def_reg dh # use dh # src2)]"
    using e by (auto simp: expands_to_def)
  with run_low_high [OF this(2) assms(4) half_ops_widen(3,4) assms(5-7) half_ops_widen(1) [OF w]]
  show ?thesis by simp
qed

lemma widened_high_low:
  assumes e: "expands_to r [(Alu (fst (half_ops w)), [def_reg dh, use dh]),
      (Alu (snd (half_ops w)), [def_reg dl, use dl])]"
    and w: "wide_alu w = Some op" "w \<in> {LSRWRd, ASRWRd}"
    and "splitReg d = Inr (dl, dh)"
  shows "\<exists>is s'. r = Inr is \<and> run alu is s = Some s' \<and> widened op d (join 0 0) s s'"
proof -
  obtain js where "r = Inr js" "List.map meaning js = [(Alu (fst (half_ops w)), [def_reg dh, use dh]),
      (Alu (snd (half_ops w)), [def_reg dl, use dl])]"
    using e by (auto simp: expands_to_def)
  with run_high_low [OF this(2) assms(4) half_ops_widen(3,4) half_ops_widen(2) [OF w], of s]
  show ?thesis by simp
qed

lemma wide_arithmetic:
  assumes w: "wide_alu w = Some op" and d: "class_contains MainRegs d"
    and MI: "built_as MI (Wide w) ([def_reg d, use d] @ src)" and src: "wide_source w s src b"
  shows "\<exists>is s'. expand_wide avail w MI = Inr is \<and> run alu is s = Some s' \<and> widened op d b s s'"
proof -
  note P = wide_alu_writes_P [OF w]
  obtain dl dh where dd: "splitReg d = Inr (dl, dh)" using splitReg_ok [OF d] by blast
  have z: "byte_source s [] 0" "stable_source x []" for x
    by (simp_all add: byte_source_def stable_source_def)
  have jz: "join 0 0 = 0" by (simp add: join_zero)
  consider (imm) v where "w \<in> {SUBIWRdK, SBCIWRdK}" "src = [MO_Immediate v]" "b = ucast v"
    | (low) "w \<in> {COMWRd, LSLWRd}" "src = []" "b = 0"
    | (high) "w \<in> {LSRWRd, ASRWRd}" "src = []" "b = 0"
    | (two) r where "w \<notin> {SUBIWRdK, SBCIWRdK, COMWRd, LSLWRd, LSRWRd, ASRWRd}"
        "class_contains MainRegs r" "src = [use r]" "b = reg16 s r"
    using src unfolding wide_source_def class_contains_def by (auto split: if_splits)
  then show ?thesis
  proof cases
    case imm
    then obtain r0 r1 r3 rest where o: "RegNo r0 = d"
      "Operands MI = MO_Register r0 # MO_Register r1 # MO_Immediate v # MO_Register r3 # rest"
      using built_imm [of MI w d v] MI P by auto
    note i = imm_bytes(1,2) [of s v]
    have "w \<notin> {LSRWRd, ASRWRd}" using imm(1) by auto
    note widened_low_high [OF imm_expansion [OF imm(1) o(2) dd [folded o(1)]] w this dd i imm_bytes(4)]
    then show ?thesis by (simp only: imm_bytes(5) imm(3))
  next
    case low
    then obtain r0 r1 r2 rest where o: "RegNo r0 = d"
      "Operands MI = MO_Register r0 # MO_Register r1 # MO_Register r2 # rest"
      using built_one [of MI w d] MI P by auto
    have "w \<notin> {LSRWRd, ASRWRd}" using low(1) by auto
    note widened_low_high [OF unary_low_expansion [OF low(1) o(2) dd [folded o(1)]] w this dd z(1) z(1) z(2)]
    then show ?thesis by (simp only: jz low(3))
  next
    case high
    then obtain r0 r1 r2 rest where o: "RegNo r0 = d"
      "Operands MI = MO_Register r0 # MO_Register r1 # MO_Register r2 # rest"
      using built_one [of MI w d] MI P by auto
    note widened_high_low [OF unary_high_expansion [OF high(1) o(2) dd [folded o(1)]] w high(1) dd]
    then show ?thesis by (simp only: jz high(3))
  next
    case two
    then obtain r0 r1 r2 r3 rest where o: "RegNo r0 = d" "RegNo r2 = r"
      "Operands MI = MO_Register r0 # MO_Register r1 # MO_Register r2 # MO_Register r3 # rest"
      using built_two [of MI w d r] MI P by auto
    obtain rl rh where rr: "splitReg r = Inr (rl, rh)" using splitReg_ok [OF two(2)] by blast
    have "w \<notin> {LSRWRd, ASRWRd}" using two(1) by auto
    note widened_low_high [OF two_reg_expansion [OF w two(1) o(3) dd [folded o(1)] rr [folded o(2)]] w this dd
        reg_bytes(1,2) [OF rr] reg_bytes(3) [OF rr dd]]
    then show ?thesis by (simp only: reg_bytes(4) [OF rr] two(4))
  qed
qed

end

text \<open>
  Property C4. The expansions of thirteen 16-bit pseudo instructions refine the operation on
  16 bits: addition and subtraction of registers without and with carry, subtraction of an
  immediate without and with carry, and, or and exclusive or of registers, the complement, and
  the three shifts by one. On every processor whose byte operations behave as documented, and
  with any liveness marks, the expansion succeeds, and running it leaves in the destination the
  value of the operation applied to the 16-bit operands, in the carry the carry of the 16-bit
  operation where it has one, and every other register, the memory and the ports as they were.
  The logic pseudo instructions with an immediate are the subject of another property: their
  expansions do not refine the operation.
\<close>

theorem wide_arithmetic_refines:
  assumes "documented_alu alu" and "wide_alu w = Some op" and "class_contains MainRegs d"
    and "built_as MI (Wide w) ([def_reg d, use d] @ src)" and "wide_source w s src b"
  shows "\<exists>is s'. expand_wide avail w MI = Inr is \<and> run alu is s = Some s'
    \<and> reg16 s' d = alu_value op (C_flag (status s)) (reg16 s d) b
    \<and> (\<forall>c. alu_carry op (C_flag (status s)) (reg16 s d) b = Some c \<longrightarrow> C_flag (status s') = c)
    \<and> only_changes [d] s s'"
  using documented_alu.wide_arithmetic [OF assms, of avail] by (simp add: widened_def)

lemma wide_arithmetic_refines_witness:
  "\<exists>is s'. expand_wide (\<lambda>_ _. False) ADDWRdRr (BuildMI (Wide ADDWRdRr) [def_reg SNES_A, use SNES_A, use SNES_X]) = Inr is
     \<and> run reference_alu is sample_machine = Some s' \<and> reg16 s' SNES_A = 0x1401"
proof -
  let ?M = "BuildMI (Wide ADDWRdRr) [def_reg SNES_A, use SNES_A, use SNES_X]"
  have "built_as ?M (Wide ADDWRdRr) ([def_reg SNES_A, use SNES_A] @ [use SNES_X])"
    by (simp add: built_as_def BuildMI_def ImplicitDefs_def ImplicitUses_def wide_writes_P_def wide_reads_P_def
      build_simps)
  moreover have "wide_source ADDWRdRr sample_machine [use SNES_X] 0x0102"
    by (simp add: wide_source_def class_members_def use_def)
  ultimately show ?thesis
    using wide_arithmetic_refines [OF reference_unit.documented_alu_axioms, of ADDWRdRr ADDRdRr SNES_A ?M
        "[use SNES_X]" sample_machine "0x0102" "\<lambda>_ _. False"]
    by (auto simp: wide_alu_def alu_value_def)
qed

section \<open>Comparisons\<close>

lemma compare_meaning:
  assumes "Operands MI = MO_Register r0 # MO_Register r1 # MO_Register r2 # rest"
    and "splitReg (RegNo r0) = Inr (dl, dh)" "splitReg (RegNo r1) = Inr (rl, rh)"
  shows "expands_to (expand_CPWRdRr MI) [(Alu CPRdRr, [use dl, use rl]), (Alu CPCRdRr, [use dh, use rh])]"
    "expands_to (expand_CPCWRdRr MI) [(Alu CPCRdRr, [use dl, use rl]), (Alu CPCRdRr, [use dh, use rh])]"
  using assms
  by (auto simp: expand_CPWRdRr_def expand_CPCWRdRr_def operand_steps meaning_BuildMI build_simps
    alu_reads_P_def intro!: expands_to_intros)

lemma built_compare:
  assumes "built_as MI (Wide w) [use d, use r]" "w \<in> set wide_writes_P"
  shows "\<exists>r0 r1 r2 rest. Operands MI = MO_Register r0 # MO_Register r1 # MO_Register r2 # rest
    \<and> RegNo r0 = d \<and> RegNo r1 = r"
  using assms
  by (auto simp: built_as_def BuildMI_def ImplicitDefs_def map_eq_Cons_conv map_eq_append_conv)

lemma exec_compare:
  assumes "meaning i = (Alu op, [use a, use b])" "op \<in> {CPRdRr, CPCRdRr}"
    and "a \<in> set byte_regs" "b \<in> set byte_regs"
  shows "exec alu i s = Some (s\<lparr>status := snd (alu op (status s) (byte_reg s a) (byte_reg s b))\<rparr>)"
  using assms
  by (auto simp: exec_by_meaning(1) [OF assms(1)] exec_alu_def byte_operand_def use_def run_alu_def
    split: prod.split)

lemma only_status [simp]: "reg16 (s\<lparr>status := F\<rparr>) = reg16 s" "only_changes [] s (s\<lparr>status := F\<rparr>)"
  by (simp_all add: fun_eq_iff reg16_def only_changes_def)

context documented_alu
begin

lemma run_compare:
  assumes ms: "List.map meaning is = [(Alu op, [use dl, use rl]), (Alu CPCRdRr, [use dh, use rh])]"
    and op: "op = CPRdRr \<and> z \<and> \<not> c \<or> op = CPCRdRr \<and> z = Z_flag (status s) \<and> c = C_flag (status s)"
    and d: "splitReg d = Inr (dl, dh)" and r: "splitReg r = Inr (rl, rh)"
  shows "\<exists>F. run alu is s = Some (s\<lparr>status := F\<rparr>) \<and> compares F z c (reg16 s d) (reg16 s r)"
proof -
  obtain i j where ij: "is = [i, j]" and m: "meaning i = (Alu op, [use dl, use rl])"
      "meaning j = (Alu CPCRdRr, [use dh, use rh])"
    using ms by (auto simp: map_eq_Cons_conv)
  note sub = splitReg_sub [OF d] splitReg_sub [OF r]
  let ?F = "snd (alu op (status s) (byte_reg s dl) (byte_reg s rl))"
  let ?G = "snd (alu CPCRdRr ?F (byte_reg s dh) (byte_reg s rh))"
  have "op \<in> {CPRdRr, CPCRdRr}" using op by auto
  then have "run alu is s = Some (s\<lparr>status := ?G\<rparr>)"
    using sub by (simp add: ij exec_compare [OF m(1)] exec_compare [OF m(2)])
  moreover have "compares ?F z c (byte_reg s dl) (byte_reg s rl)"
    using op alu_cp [of "status s"] alu_cpc [of "status s"] by metis
  then have "compares ?G z c (reg16 s d) (reg16 s r)"
    using compares_join [OF _ alu_cpc] sub by (simp add: reg16_def)
  ultimately show ?thesis by blast
qed

lemma wide_compare:
  assumes "class_contains MainRegs d" "class_contains MainRegs r" and w: "w \<in> {CPWRdRr, CPCWRdRr}"
    and MI: "built_as MI (Wide w) [use d, use r]"
    and z: "z = (w = CPWRdRr \<or> Z_flag (status s))" and c: "c = (w = CPCWRdRr \<and> C_flag (status s))"
  shows "\<exists>is F. expand_wide avail w MI = Inr is \<and> run alu is s = Some (s\<lparr>status := F\<rparr>)
    \<and> compares F z c (reg16 s d) (reg16 s r)"
proof -
  obtain dl dh where dd: "splitReg d = Inr (dl, dh)" using splitReg_ok [OF assms(1)] by blast
  obtain rl rh where rr: "splitReg r = Inr (rl, rh)" using splitReg_ok [OF assms(2)] by blast
  have "w \<in> set wide_writes_P" using w by (auto simp: wide_writes_P_def)
  then obtain r0 r1 r2 rest where o: "RegNo r0 = d" "RegNo r1 = r"
      "Operands MI = MO_Register r0 # MO_Register r1 # MO_Register r2 # rest"
    using built_compare [OF MI] by auto
  let ?op = "if w = CPWRdRr then CPRdRr else CPCRdRr"
  have "expands_to (expand_wide avail w MI) [(Alu ?op, [use dl, use rl]), (Alu CPCRdRr, [use dh, use rh])]"
    using w compare_meaning [OF o(3) dd [folded o(1)] rr [folded o(2)]] by (auto simp: expand_wide_def)
  then obtain js where js: "expand_wide avail w MI = Inr js"
      "List.map meaning js = [(Alu ?op, [use dl, use rl]), (Alu CPCRdRr, [use dh, use rh])]"
    by (auto simp: expands_to_def)
  have "?op = CPRdRr \<and> z \<and> \<not> c \<or> ?op = CPCRdRr \<and> z = Z_flag (status s) \<and> c = C_flag (status s)"
    using w z c by auto
  from run_compare [OF js(2) this dd rr] js(1) show ?thesis by blast
qed

end

text \<open>
  Property C5. The expansion of the 16-bit comparison sets the flags so that every condition
  code compares the 16-bit registers: equality, signed order (\<open>COND_LT\<close>, \<open>COND_GE\<close>) and
  unsigned order (\<open>COND_LO\<close>, \<open>COND_SH\<close>). Nothing but flags changes.
\<close>

theorem wide_compare_conditions:
  assumes "documented_alu alu" "class_contains MainRegs d" "class_contains MainRegs r"
    and "built_as MI (Wide CPWRdRr) [use d, use r]"
  shows "\<exists>is F. expand_wide avail CPWRdRr MI = Inr is \<and> run alu is s = Some (s\<lparr>status := F\<rparr>)
    \<and> cond_holds F COND_EQ = (reg16 s d = reg16 s r) \<and> cond_holds F COND_NE = (reg16 s d \<noteq> reg16 s r)
    \<and> cond_holds F COND_LT = (reg16 s d <s reg16 s r) \<and> cond_holds F COND_GE = (reg16 s r \<le>s reg16 s d)
    \<and> cond_holds F COND_LO = (reg16 s d < reg16 s r) \<and> cond_holds F COND_SH = (reg16 s r \<le> reg16 s d)"
proof -
  obtain js F where "expand_wide avail CPWRdRr MI = Inr js" "run alu js s = Some (s\<lparr>status := F\<rparr>)"
    "compares F True False (reg16 s d) (reg16 s r)"
    using documented_alu.wide_compare [OF assms(1-3) _ assms(4), of True s False avail] by auto
  with compares_cond [OF this(3)] show ?thesis by blast
qed

lemma wide_compare_conditions_witness:
  "\<exists>is F. expand_wide (\<lambda>_ _. False) CPWRdRr (BuildMI (Wide CPWRdRr) [use SNES_Y, use SNES_A]) = Inr is
     \<and> run reference_alu is sample_machine = Some (sample_machine\<lparr>status := F\<rparr>)
     \<and> cond_holds F COND_LT \<and> cond_holds F COND_LO \<and> \<not> cond_holds F COND_EQ"
proof -
  have "built_as (BuildMI (Wide CPWRdRr) [use SNES_Y, use SNES_A]) (Wide CPWRdRr) [use SNES_Y, use SNES_A]"
    by (simp add: built_as_def BuildMI_def ImplicitDefs_def ImplicitUses_def wide_writes_P_def wide_reads_P_def
      build_simps)
  moreover have "(0 :: u16) <s 4863" by (simp add: word_sless_alt)
  ultimately show ?thesis
    using wide_compare_conditions [OF reference_unit.documented_alu_axioms,
        of SNES_Y SNES_A _ "\<lambda>_ _. False" sample_machine] by fastforce
qed

section \<open>Loads and stores\<close>

text \<open>16-bit values lie in memory with the low byte first.\<close>

definition read16 :: "(u16 \<Rightarrow> u8) \<Rightarrow> u16 \<Rightarrow> u16" where
  "read16 m a = join (m (a + 1)) (m a)"

definition write16 :: "(u16 \<Rightarrow> u8) \<Rightarrow> u16 \<Rightarrow> u16 \<Rightarrow> u16 \<Rightarrow> u8" where
  "write16 m a v = m(a := ucast v, a + 1 := ucast (drop_bit 8 v))"

text \<open>
  The forms of a 16-bit load into \<open>d\<close>: the pseudo instruction, the operands after the
  destination, the address, the pointer register with its new value where it moves, and
  whether the access can be done: not when the displacement of the second byte does not fit
  its field, and not when a moving pointer is the register loaded. A pointer that stands
  still must be another register than the destination: for the same register the expansion
  goes through a temporary of 16 bits, which this machine does not model.
\<close>

inductive load_form ::
  "machine \<Rightarrow> reg \<Rightarrow> wide_op \<Rightarrow> operand list \<Rightarrow> u16 \<Rightarrow> (reg \<times> u16) option \<Rightarrow> bool \<Rightarrow> bool" for s d where
  load_direct: "load_form s d LDSWRdK [MO_Immediate k] (ucast k) None True"
| load_indirect:
    "class_contains MainRegs p \<Longrightarrow> p \<noteq> d \<Longrightarrow> load_form s d LDWRdPtr [use p] (reg16 s p) None True"
| load_displaced:
    "class_contains MainRegs p \<Longrightarrow> p \<noteq> d \<Longrightarrow> w \<in> {LDDWRdPtrQ, LDDWRdYQ}
     \<Longrightarrow> load_form s d w [use p, MO_Immediate q] (reg16 s p + ucast q) None ((ucast q :: u32) \<le> 62)"
| load_increment:
    "class_contains MainRegs p
     \<Longrightarrow> load_form s d LDWRdPtrPi [def_reg p, use p] (reg16 s p) (Some (p, reg16 s p + 2)) (p \<noteq> d)"
| load_decrement:
    "class_contains MainRegs p
     \<Longrightarrow> load_form s d LDWRdPtrPd [def_reg p, use p] (reg16 s p - 2) (Some (p, reg16 s p - 2)) (p \<noteq> d)"

inductive store_form ::
  "machine \<Rightarrow> reg \<Rightarrow> wide_op \<Rightarrow> operand list \<Rightarrow> u16 \<Rightarrow> (reg \<times> u16) option \<Rightarrow> bool \<Rightarrow> bool" for s r where
  store_direct: "store_form s r STSWKRr [MO_Immediate k, use r] (ucast k) None True"
| store_indirect:
    "class_contains MainRegs p \<Longrightarrow> store_form s r STWPtrRr [use p, use r] (reg16 s p) None True"
| store_displaced:
    "class_contains MainRegs p
     \<Longrightarrow> store_form s r STDWPtrQRr [use p, MO_Immediate q, use r] (reg16 s p + ucast q) None
           ((ucast q :: u32) \<le> 62)"
| store_increment:
    "class_contains MainRegs p
     \<Longrightarrow> store_form s r STWPtrPiRr [def_reg p, use p, use r, MO_Immediate i] (reg16 s p)
           (Some (p, reg16 s p + 2)) (p \<noteq> r)"
| store_decrement:
    "class_contains MainRegs p
     \<Longrightarrow> store_form s r STWPtrPdRr [def_reg p, use p, use r, MO_Immediate i] (reg16 s p - 2)
           (Some (p, reg16 s p - 2)) (p \<noteq> r)"

text \<open>
  The displacement of the second byte: it has six bits up to the displacement 62 of the
  pseudo instruction, while the assertion of the expansion lets 63 pass.
\<close>

lemma six_bits_imm32:
  assumes "(ucast (k :: u64) :: u32) \<le> 62"
  shows "six_bits (ucast (ucast k :: u32))" "six_bits (ucast ((ucast k :: u32) + 1))" "(ucast k :: u32) \<le> 63"
proof -
  let ?w = "ucast k :: u32"
  have w: "uint ?w \<le> 62" using assms by (simp add: word_le_def)
  have s: "uint (?w + 1) = uint ?w + 1" using w by (simp add: uint_word_ariths)
  have "uint (ucast x :: u64) = uint x" for x :: u32 by (simp add: uint_up_ucast is_up)
  then show "six_bits (ucast ?w)" "six_bits (ucast (?w + 1))"
    using w s unfolding six_bits_def word_le_def by (simp_all del: of_int_add)
  show "?w \<le> 63" using w by (simp add: word_le_def)
qed

lemma six_bits_last: "\<not> six_bits (ucast ((63 :: u32) + 1))" "six_bits 1"
  by (simp_all add: six_bits_def)

text \<open>The bytes of the displaced addresses.\<close>

lemma imm32_address:
  "ucast (ucast (ucast (k :: u64) :: u32) :: u64) = (ucast k :: u16)"
  "ucast (ucast ((ucast (k :: u64) :: u32) + 1) :: u64) = (ucast k + 1 :: u16)"
proof -
  show "ucast (ucast (ucast (k :: u64) :: u32) :: u64) = (ucast k :: u16)"
    by (rule bit_word_eqI) (auto simp: bit_simps)
  have "(ucast (ucast w :: u64) :: u16) = ucast w" for w :: u32
    by (rule bit_word_eqI) (auto simp: bit_simps)
  moreover have "(ucast (w + 1) :: u16) = ucast w + 1" for w :: u32
    by (simp add: word_uint_eq_iff uint_word_ariths unsigned_ucast_eq take_bit_eq_mod mod_mod_cancel mod_simps)
  moreover have "(ucast (ucast k :: u32) :: u16) = ucast k"
    by (rule bit_word_eqI) (auto simp: bit_simps)
  ultimately show "ucast (ucast ((ucast (k :: u64) :: u32) + 1) :: u64) = (ucast k + 1 :: u16)"
    by simp
qed

text \<open>Executing one byte access.\<close>

lemma reg16_set_byte:
  "reg16 (set_byte x v s) r = join (if getSubReg_hi r = x then v else byte_reg s (getSubReg_hi r))
     (if getSubReg_lo r = x then v else byte_reg s (getSubReg_lo r))"
  by (simp add: reg16_def)

lemma sub_regs_inj:
  assumes "class_contains MainRegs r" "class_contains MainRegs r'"
  shows "getSubReg_lo r = getSubReg_lo r' \<longleftrightarrow> r = r'" "getSubReg_hi r = getSubReg_hi r' \<longleftrightarrow> r = r'"
    "getSubReg_lo r \<noteq> getSubReg_hi r'" "getSubReg_hi r \<noteq> getSubReg_lo r'"
    "getSubReg_lo r \<in> set byte_regs" "getSubReg_hi r \<in> set byte_regs"
  using assms by (auto simp: getSubReg_lo_def getSubReg_hi_def byte_regs_def)

lemma join_halves: "join (ucast (drop_bit 8 v)) (ucast v) = v"
  by (rule bit_word_eqI) (auto simp: bit_join bit_simps)

lemma halves_join: "ucast (join h l) = l" "ucast (drop_bit 8 (join h l)) = h"
  by (rule bit_word_eqI; auto simp: bit_join bit_simps dest: bit_imp_le_length)+

lemma set_reg16_simps:
  "memory (set_reg16 p v s) = memory s" "status (set_reg16 p v s) = status s" "port (set_reg16 p v s) = port s"
  "byte_reg (set_reg16 p v s) r = (if r = getSubReg_hi p then ucast (drop_bit 8 v)
     else if r = getSubReg_lo p then ucast v else byte_reg s r)"
  by (simp_all add: set_reg16_def)

lemma exec_access:
  "meaning i = (Mem LDSRdK, [def_reg x, MO_Immediate k]) \<Longrightarrow> x \<in> set byte_regs
    \<Longrightarrow> exec alu i s = Some (set_byte x (memory s (ucast k)) s)"
  "meaning i = (Mem LDRdPtr, [def_reg x, use p]) \<Longrightarrow> x \<in> set byte_regs \<Longrightarrow> class_contains MainRegs p
    \<Longrightarrow> exec alu i s = Some (set_byte x (memory s (reg16 s p)) s)"
  "meaning i = (Mem LDDRdPtrQ, [def_reg x, use p, MO_Immediate k]) \<Longrightarrow> x \<in> set byte_regs \<Longrightarrow> class_contains MainRegs p
    \<Longrightarrow> six_bits k \<Longrightarrow> exec alu i s = Some (set_byte x (memory s (reg16 s p + ucast k)) s)"
  "meaning i = (Mem LDRdPtrPi, [def_reg x, def_reg p, use p]) \<Longrightarrow> x \<in> set byte_regs \<Longrightarrow> class_contains MainRegs p
    \<Longrightarrow> exec alu i s = Some (set_reg16 p (reg16 s p + 1) (set_byte x (memory s (reg16 s p)) s))"
  "meaning i = (Mem LDRdPtrPd, [def_reg x, def_reg p, use p]) \<Longrightarrow> x \<in> set byte_regs \<Longrightarrow> class_contains MainRegs p
    \<Longrightarrow> exec alu i s = Some (set_byte x (memory s (reg16 s p - 1)) (set_reg16 p (reg16 s p - 1) s))"
  "meaning i = (Mem STSKRr, [MO_Immediate k, use x]) \<Longrightarrow> x \<in> set byte_regs
    \<Longrightarrow> exec alu i s = Some (set_mem (ucast k) (byte_reg s x) s)"
  "meaning i = (Mem STPtrRr, [use p, use x]) \<Longrightarrow> x \<in> set byte_regs \<Longrightarrow> class_contains MainRegs p
    \<Longrightarrow> exec alu i s = Some (set_mem (reg16 s p) (byte_reg s x) s)"
  "meaning i = (Mem STDPtrQRr, [use p, MO_Immediate k, use x]) \<Longrightarrow> x \<in> set byte_regs \<Longrightarrow> class_contains MainRegs p
    \<Longrightarrow> six_bits k \<Longrightarrow> exec alu i s = Some (set_mem (reg16 s p + ucast k) (byte_reg s x) s)"
  "meaning i = (Mem STPtrPiRr, [def_reg p, use p, use x, MO_Immediate k]) \<Longrightarrow> x \<in> set byte_regs \<Longrightarrow> class_contains MainRegs p
    \<Longrightarrow> exec alu i s = Some (set_reg16 p (reg16 s p + 1) (set_mem (reg16 s p) (byte_reg s x) s))"
  "meaning i = (Mem STPtrPdRr, [def_reg p, use p, use x, MO_Immediate k]) \<Longrightarrow> x \<in> set byte_regs \<Longrightarrow> class_contains MainRegs p
    \<Longrightarrow> x \<noteq> getSubReg_lo p \<Longrightarrow> x \<noteq> getSubReg_hi p
    \<Longrightarrow> exec alu i s = Some (set_mem (reg16 s p - 1) (byte_reg s x) (set_reg16 p (reg16 s p - 1) s))"
  by (simp_all add: exec_by_meaning(2) exec_mem_def use_def def_reg_def def_dead_def load_byte_def pointer_def
    store_byte_def byte_operand_def set_reg16_simps)

lemma plain_BuildMI:
  "Operands (BuildMI (Wide w) ops) = ops" if "w \<notin> set wide_writes_P"
    "w \<notin> {PUSHWRr, POPWRd, SPWRITE, LPMWRdZ, LPMWRdZPi, SPREAD}"
  using that by (auto simp: BuildMI_def ImplicitDefs_def ImplicitUses_def wide_reads_P_def wide_writes_P_def)

lemma load_meaning:
  assumes d: "splitReg d = Inr (dl, dh)" and MI: "built_as MI (Wide w) (def_reg d # ops)"
  shows
  "w = LDSWRdK \<Longrightarrow> ops = [MO_Immediate k] \<Longrightarrow> expands_to (expand_wide avail w MI)
     [(Mem LDSRdK, [def_reg dl, imm32 (ucast k)]), (Mem LDSRdK, [def_reg dh, imm32 (ucast k + 1)])]"
  "w = LDWRdPtr \<Longrightarrow> ops = [use p] \<Longrightarrow> p \<noteq> d \<Longrightarrow> expands_to (expand_wide avail w MI)
     [(Mem LDRdPtr, [def_reg dl, use p]), (Mem LDDRdPtrQ, [def_reg dh, use p, MO_Immediate 1])]"
  "w \<in> {LDDWRdPtrQ, LDDWRdYQ} \<Longrightarrow> ops = [use p, MO_Immediate k] \<Longrightarrow> p \<noteq> d \<Longrightarrow> (ucast k :: u32) \<le> 63
    \<Longrightarrow> expands_to (expand_wide avail w MI)
     [(Mem LDDRdPtrQ, [def_reg dl, use p, imm32 (ucast k)]), (Mem LDDRdPtrQ, [def_reg dh, use p, imm32 (ucast k + 1)])]"
  "w = LDWRdPtrPi \<Longrightarrow> ops = [def_reg p, use p] \<Longrightarrow> p \<noteq> d \<Longrightarrow> expands_to (expand_wide avail w MI)
     [(Mem LDRdPtrPi, [def_reg dl, def_reg p, use p]), (Mem LDRdPtrPi, [def_reg dh, def_reg p, use p])]"
  "w = LDWRdPtrPd \<Longrightarrow> ops = [def_reg p, use p] \<Longrightarrow> p \<noteq> d \<Longrightarrow> expands_to (expand_wide avail w MI)
     [(Mem LDRdPtrPd, [def_reg dh, def_reg p, use p]), (Mem LDRdPtrPd, [def_reg dl, def_reg p, use p])]"
  using MI d
  by (auto simp: built_as_def plain_BuildMI wide_writes_P_def map_eq_Cons_conv expand_wide_def operand_steps
    expand_LDSWRdK_def expand_LDWRdPtr_def expand_LDDWRdPtrQ_def expand_LDWRdPtrPi_def expand_LDWRdPtrPd_def
    expand_load_pair_def direct_halves_def meaning_BuildMI build_simps imm32_def)

lemma store_meaning:
  assumes r: "splitReg r = Inr (rl, rh)" and MI: "built_as MI (Wide w) ops"
  shows
  "w = STSWKRr \<Longrightarrow> ops = [MO_Immediate k, use r] \<Longrightarrow> expands_to (expand_wide avail w MI)
     [(Mem STSKRr, [imm32 (ucast k + 1), use rh]), (Mem STSKRr, [imm32 (ucast k), use rl])]"
  "w = STWPtrRr \<Longrightarrow> ops = [use p, use r] \<Longrightarrow> expands_to (expand_wide avail w MI)
     [(Mem STPtrRr, [use p, use rl]), (Mem STDPtrQRr, [use p, MO_Immediate 1, use rh])]"
  "w = STDWPtrQRr \<Longrightarrow> ops = [use p, MO_Immediate k, use r] \<Longrightarrow> (ucast k :: u32) \<le> 63
    \<Longrightarrow> expands_to (expand_wide avail w MI)
     [(Mem STDPtrQRr, [use p, imm32 (ucast k), use rl]), (Mem STDPtrQRr, [use p, imm32 (ucast k + 1), use rh])]"
  "w = STWPtrPiRr \<Longrightarrow> ops = [def_reg p, use p, use r, MO_Immediate k] \<Longrightarrow> p \<noteq> r \<Longrightarrow> expands_to (expand_wide avail w MI)
     [(Mem STPtrPiRr, [def_reg p, use p, use rl, imm32 (ucast k)]), (Mem STPtrPiRr, [def_reg p, use p, use rh, imm32 (ucast k)])]"
  "w = STWPtrPdRr \<Longrightarrow> ops = [def_reg p, use p, use r, MO_Immediate k] \<Longrightarrow> p \<noteq> r \<Longrightarrow> expands_to (expand_wide avail w MI)
     [(Mem STPtrPdRr, [def_reg p, use p, use rh, imm32 (ucast k)]), (Mem STPtrPdRr, [def_reg p, use p, use rl, imm32 (ucast k)])]"
  using MI r
  by (auto simp: built_as_def plain_BuildMI wide_writes_P_def map_eq_Cons_conv expand_wide_def operand_steps
    expand_STSWKRr_def expand_STWPtrRr_def expand_STDWPtrQRr_def expand_STWPtrPiRr_def expand_STWPtrPdRr_def
    direct_halves_def meaning_BuildMI build_simps imm32_def)

text \<open>
  What cannot be done: the assertions of the expansions fail, or the second access has a
  displacement of 64.
\<close>

lemma load_refused:
  assumes MI: "built_as MI (Wide w) (def_reg d # ops)" and "expand_wide avail w MI = Inr is"
  shows "w \<in> {LDDWRdPtrQ, LDDWRdYQ} \<Longrightarrow> ops = [use p, MO_Immediate k] \<Longrightarrow> (ucast k :: u32) \<le> 63"
    "w \<in> {LDWRdPtrPi, LDWRdPtrPd} \<Longrightarrow> ops = [def_reg p, use p] \<Longrightarrow> p \<noteq> d"
  using assms
  by (auto simp: built_as_def plain_BuildMI wide_writes_P_def map_eq_Cons_conv expand_wide_def operand_steps
    expand_LDDWRdPtrQ_def expand_LDWRdPtrPi_def expand_LDWRdPtrPd_def outcome_inv)

lemma store_refused:
  assumes MI: "built_as MI (Wide w) ops" and "expand_wide avail w MI = Inr is"
  shows "w = STDWPtrQRr \<Longrightarrow> ops = [use p, MO_Immediate k, use r] \<Longrightarrow> (ucast k :: u32) \<le> 63"
    "w \<in> {STWPtrPiRr, STWPtrPdRr} \<Longrightarrow> ops = [def_reg p, use p, use r, MO_Immediate k] \<Longrightarrow> p \<noteq> r"
  using assms
  by (auto simp: built_as_def plain_BuildMI wide_writes_P_def map_eq_Cons_conv expand_wide_def operand_steps
    expand_STDWPtrQRr_def expand_STWPtrPiRr_def expand_STWPtrPdRr_def outcome_inv)

lemma displacement_stuck:
  assumes "expands_to r [m1, m2]" "\<not> six_bits q"
    and "m2 = (Mem LDDRdPtrQ, [def_reg x, use p, MO_Immediate q]) \<or> m2 = (Mem STDPtrQRr, [use p, MO_Immediate q, use x])"
  shows "r = Inr is \<Longrightarrow> run alu is s = None"
  using assms
  by (auto simp: expands_to_def map_eq_Cons_conv bind_eq_None_conv exec_by_meaning(2) exec_mem_def use_def
    def_reg_def def_dead_def)

lemma displacement_63: "(ucast (k :: u64) :: u32) \<le> 63 \<Longrightarrow> \<not> (ucast k :: u32) \<le> 62 \<Longrightarrow> (ucast k :: u32) = 63"
  by (simp add: word_le_def word_uint_eq_iff)

text \<open>Running the two accesses.\<close>

lemma expands_to_two:
  "expands_to r [m1, m2] \<Longrightarrow> (\<And>i j. meaning i = m1 \<Longrightarrow> meaning j = m2 \<Longrightarrow> run alu [i, j] s = Some s')
   \<Longrightarrow> P s' \<Longrightarrow> \<exists>is s'. r = Inr is \<and> run alu is s = Some s' \<and> P s'"
  by (auto simp: expands_to_def map_eq_Cons_conv)

definition pointer_moved :: "reg list \<Rightarrow> (reg \<times> u16) option \<Rightarrow> machine \<Rightarrow> machine \<Rightarrow> bool" where
  "pointer_moved rs upd s s' \<longleftrightarrow> (case upd of
     None \<Rightarrow> (\<forall>r. r \<notin> getSubReg_lo ` set rs \<union> getSubReg_hi ` set rs \<longrightarrow> byte_reg s' r = byte_reg s r)
   | Some (p, v) \<Rightarrow> reg16 s' p = v
       \<and> (\<forall>r. r \<notin> getSubReg_lo ` set (p # rs) \<union> getSubReg_hi ` set (p # rs) \<longrightarrow> byte_reg s' r = byte_reg s r))"

text \<open>The loads that fit, and the ones that do not.\<close>

lemma load_fits:
  assumes "class_contains MainRegs d" and f: "load_form s d w ops a upd True"
    and "built_as MI (Wide w) (def_reg d # ops)"
  shows "\<exists>is s'. expand_wide avail w MI = Inr is \<and> run alu is s = Some s'
      \<and> reg16 s' d = read16 (memory s) a \<and> pointer_moved [d] upd s s'
      \<and> memory s' = memory s \<and> status s' = status s \<and> port s' = port s"
proof -
  obtain dl dh where dd: "splitReg d = Inr (dl, dh)" using splitReg_ok [OF assms(1)] by blast
  note sub = splitReg_sub [OF dd]
  note m = load_meaning [OF dd assms(3)]
  from f show ?thesis
  proof cases
    case (load_direct k)
    show ?thesis
      by (rule expands_to_two [OF m(1) [OF load_direct(1,2)]])
        (use sub in \<open>auto simp: exec_access imm32_def imm32_address reg16_set_byte read16_def load_direct
          pointer_moved_def\<close>)
  next
    case (load_indirect p)
    with sub_regs_inj [OF assms(1), of p] sub_regs_inj [of p p] sub show ?thesis
      by (intro expands_to_two [OF m(2) [OF load_indirect(1,2)]])
        (auto simp: exec_access six_bits_last(2) reg16_def read16_def pointer_moved_def simp del: class_contains_Main)
  next
    case (load_displaced p q)
    then have "(ucast q :: u32) \<le> 62" by simp
    note six = six_bits_imm32 [OF this]
    from load_displaced sub_regs_inj [OF assms(1), of p] sub_regs_inj [of p p] sub six show ?thesis
      by (intro expands_to_two [OF m(3) [OF _ load_displaced(1)]])
        (auto simp: exec_access reg16_def read16_def pointer_moved_def imm32_def imm32_address add.assoc
          simp del: class_contains_Main)
  next
    case (load_increment p)
    with sub_regs_inj [OF assms(1), of p] sub_regs_inj [of p p] sub show ?thesis
      by (intro expands_to_two [OF m(4) [OF load_increment(1,2)]])
        (auto simp: exec_access read16_def pointer_moved_def set_reg16_simps reg16_def join_halves
          simp del: class_contains_Main)
  next
    case (load_decrement p)
    with sub_regs_inj [OF assms(1), of p] sub_regs_inj [of p p] sub show ?thesis
      by (intro expands_to_two [OF m(5) [OF load_decrement(1,2)]])
        (auto simp: exec_access read16_def pointer_moved_def set_reg16_simps reg16_def join_halves
          simp del: class_contains_Main)
  qed
qed

lemma load_unfit:
  assumes "class_contains MainRegs d" and f: "load_form s d w ops a upd False"
    and MI: "built_as MI (Wide w) (def_reg d # ops)"
    and js: "expand_wide avail w MI = Inr js"
  shows "run alu js s = None"
proof -
  obtain dl dh where dd: "splitReg d = Inr (dl, dh)" using splitReg_ok [OF assms(1)] by blast
  note no = load_refused [OF MI js]
  from f show ?thesis
  proof cases
    case (load_displaced p q)
    note le = no(1) [OF load_displaced(7,1)]
    have k: "(ucast q :: u32) = 63" using displacement_63 [OF le] load_displaced by simp
    note two = load_meaning(3) [OF dd MI load_displaced(7,1,6) le, of avail]
    show ?thesis
      using displacement_stuck [OF two six_bits_last(1) _ js, where x = dh and p = p] by (simp add: k imm32_def)
  qed (use no(2) in auto)
qed



lemma store_fits:
  assumes "class_contains MainRegs r" and f: "store_form s r w ops a upd True" and "built_as MI (Wide w) ops"
  shows "\<exists>is s'. expand_wide avail w MI = Inr is \<and> run alu is s = Some s'
      \<and> memory s' = write16 (memory s) a (reg16 s r) \<and> pointer_moved [] upd s s'
      \<and> status s' = status s \<and> port s' = port s"
proof -
  obtain rl rh where rr: "splitReg r = Inr (rl, rh)" using splitReg_ok [OF assms(1)] by blast
  note sub = splitReg_sub [OF rr]
  note m = store_meaning [OF rr assms(3)]
  have tw: "x + 1 \<noteq> x" for x :: u16 by simp
  note upd = fun_upd_twist [OF tw]
  from f show ?thesis
  proof cases
    case (store_direct k)
    show ?thesis
      by (rule expands_to_two [OF m(1) [OF store_direct(1,2)]])
        (use sub in \<open>auto simp: exec_access imm32_def imm32_address write16_def halves_join reg16_def store_direct upd pointer_moved_def\<close>)
  next
    case (store_indirect p)
    with sub_regs_inj [OF assms(1), of p] sub_regs_inj [of p p] sub show ?thesis
      by (intro expands_to_two [OF m(2) [OF store_indirect(1,2)]])
        (auto simp: exec_access six_bits_last(2) write16_def halves_join reg16_def pointer_moved_def simp del: class_contains_Main)
  next
    case (store_displaced p q)
    then have "(ucast q :: u32) \<le> 62" by simp
    note six = six_bits_imm32 [OF this]
    from store_displaced sub_regs_inj [OF assms(1), of p] sub_regs_inj [of p p] sub six show ?thesis
      by (intro expands_to_two [OF m(3) [OF store_displaced(1,2)]])
        (auto simp: exec_access write16_def halves_join reg16_def pointer_moved_def imm32_def imm32_address add.assoc
          simp del: class_contains_Main)
  next
    case (store_increment p i)
    with sub_regs_inj [OF assms(1), of p] sub_regs_inj [of p p] sub show ?thesis
      by (intro expands_to_two [OF m(4) [OF store_increment(1,2)]])
        (auto simp: exec_access write16_def halves_join pointer_moved_def set_reg16_simps reg16_def join_halves imm32_def
          simp del: class_contains_Main)
  next
    case (store_decrement p i)
    with sub_regs_inj [OF assms(1), of p] sub_regs_inj [of p p] sub show ?thesis
      by (intro expands_to_two [OF m(5) [OF store_decrement(1,2)]])
        (auto simp: exec_access write16_def halves_join upd pointer_moved_def set_reg16_simps reg16_def join_halves imm32_def
          simp del: class_contains_Main)
  qed
qed

lemma store_unfit:
  assumes "class_contains MainRegs r" and f: "store_form s r w ops a upd False"
    and MI: "built_as MI (Wide w) ops" and js: "expand_wide avail w MI = Inr js"
  shows "run alu js s = None"
proof -
  obtain rl rh where rr: "splitReg r = Inr (rl, rh)" using splitReg_ok [OF assms(1)] by blast
  note no = store_refused [OF MI js]
  from f show ?thesis
  proof cases
    case (store_displaced p q)
    note le = no(1) [OF store_displaced(1,2)]
    have k: "(ucast q :: u32) = 63" using displacement_63 [OF le] store_displaced by simp
    note two = store_meaning(3) [OF rr MI store_displaced(1,2) le, of avail]
    show ?thesis
      using displacement_stuck [OF two six_bits_last(1) _ js, where x = rh and p = p] by (simp add: k imm32_def)
  qed (use no(2) in auto)
qed




section \<open>Logic with an immediate\<close>

text \<open>
  The expansions of \<open>ANDIWRdK\<close> and \<open>ORIWRdK\<close> give the two bytes of the constant to
  instructions that combine the whole accumulator with a constant of 16 bits. A step is left
  out when it would not change a byte.
\<close>

definition imm_step :: "alu_op \<Rightarrow> reg \<Rightarrow> u32 \<Rightarrow> (opcode \<times> operand list) list" where
  "imm_step op r v =
     (if isLogicImmOpRedundant (Alu op) v then [] else [(Alu op, [def_reg r, use r, imm32 v])])"

lemma logic_imm_meaning:
  assumes "Operands MI = MO_Register r0 # MO_Register r1 # MO_Immediate k # MO_Register r3 # rest"
    and "splitReg (RegNo r0) = Inr (dl, dh)" and "op \<in> set imm16_ops"
  shows "expands_to (expandLogicImm (Alu op) MI)
    (imm_step op dl (ucast k AND 0xff) @ imm_step op dh (drop_bit 8 (ucast k) AND 0xff))"
proof -
  have op: "op \<notin> set alu_keeps_P" "op \<notin> {MULRdRr, MULSRdRr}"
    using assms(3) by (auto simp: imm16_ops_def alu_keeps_P_def)
  have lo: "\<exists>y. setIsDead 3 (BuildMI (Alu op) [a, b, c]) = Inr y \<and> meaning y = meaning (BuildMI (Alu op) [a, b, c])"
    and hi: "\<exists>y. setIsDead_if z 3 (BuildMI (Alu op) [a, b, c]) = Inr y \<and> meaning y = meaning (BuildMI (Alu op) [a, b, c])"
    for a b c z
    using setIsDead_built(1) [OF op, of "[a, b, c]"] setIsDead_built(2) [OF op, of z "[a, b, c]"]
    by (simp_all add: numeral_3_eq_3)
  let ?bl = "BuildMI (Alu op) [def_dead dl (IsDead r0), use_kill dl (IsKill r1), imm32 (ucast k AND 0xff)]"
  let ?bh = "BuildMI (Alu op) [def_dead dh (IsDead r0), use_kill dh (IsKill r1), imm32 (drop_bit 8 (ucast k) AND 0xff)]"
  obtain y z where y: "setIsDead 3 ?bl = Inr y" "meaning y = meaning ?bl"
    and z: "setIsDead_if (IsDead r3) 3 ?bh = Inr z" "meaning z = meaning ?bh"
    using lo hi by meson
  show ?thesis
    using assms(1,2) y z
    by (simp add: expandLogicImm_def operand_steps Let_def imm_step_def meaning_BuildMI build_simps imm32_def)
qed

lemma exec_imm_step:
  assumes "meaning i = (Alu op, [def_reg r, use r, MO_Immediate v])" "op \<in> set imm16_ops"
  shows "\<exists>F. exec alu i s = Some (set_reg16 SNES_A (imm16_value op (reg16 s SNES_A) (ucast v)) (s\<lparr>status := F\<rparr>))"
  using assms
  by (auto simp: exec_by_meaning(1) [OF assms(1)] exec_alu_def exec_imm16_def imm16_ops_def valued_ops_def
    def_reg_def def_dead_def use_def Let_def)

definition accumulator_only :: "u16 \<Rightarrow> machine \<Rightarrow> machine \<Rightarrow> bool" where
  "accumulator_only v s s' \<longleftrightarrow> reg16 s' SNES_A = v \<and> only_changes [SNES_A] s s'"

lemma accumulator_set: "accumulator_only v s (set_reg16 SNES_A v (s\<lparr>status := F\<rparr>))"
  by (simp add: accumulator_only_def only_changes_def set_reg16_simps reg16_def join_halves getSubReg_lo_def
    getSubReg_hi_def)

definition imm_effect :: "alu_op \<Rightarrow> u32 \<Rightarrow> u16 \<Rightarrow> u16" where
  "imm_effect op v x = (if isLogicImmOpRedundant (Alu op) v then x else imm16_value op x (ucast v))"

lemma run_imm_step:
  assumes "List.map meaning is = imm_step op r v" "op \<in> set imm16_ops"
  shows "\<exists>s'. run alu is s = Some s' \<and> accumulator_only (imm_effect op v (reg16 s SNES_A)) s s'"
proof (cases "isLogicImmOpRedundant (Alu op) v")
  case True
  with assms show ?thesis by (simp add: imm_step_def imm_effect_def accumulator_only_def only_changes_def)
next
  case False
  then obtain i where i: "is = [i]" "meaning i = (Alu op, [def_reg r, use r, MO_Immediate (ucast v)])"
    using assms(1) by (auto simp: imm_step_def imm32_def map_eq_Cons_conv)
  have u: "ucast (ucast v :: u64) = (ucast v :: u16)" for v :: u32
    by (rule bit_word_eqI) (auto simp: bit_simps)
  obtain F where "exec alu i s = Some (set_reg16 SNES_A (imm16_value op (reg16 s SNES_A) (ucast v)) (s\<lparr>status := F\<rparr>))"
    using exec_imm_step [OF i(2) assms(2), of alu s] by (auto simp: u)
  with False i(1) accumulator_set show ?thesis by (auto simp: imm_effect_def)
qed

lemma run_append: "run alu (xs @ ys) s = Option.bind (run alu xs s) (run alu ys)"
  by (induction xs arbitrary: s) (auto simp: bind_assoc split: Option.bind_splits)

lemma accumulator_trans:
  "accumulator_only v s s1 \<Longrightarrow> accumulator_only w s1 s2 \<Longrightarrow> accumulator_only w s s2"
  by (simp add: accumulator_only_def only_changes_def)

lemma run_imm_steps:
  assumes "List.map meaning is = imm_step op r1 v1 @ imm_step op r2 v2" "op \<in> set imm16_ops"
  shows "\<exists>s'. run alu is s = Some s'
    \<and> accumulator_only (imm_effect op v2 (imm_effect op v1 (reg16 s SNES_A))) s s'"
proof -
  obtain xs ys where x: "is = xs @ ys" "List.map meaning xs = imm_step op r1 v1" "List.map meaning ys = imm_step op r2 v2"
    using assms(1) by (auto simp: map_eq_append_conv)
  obtain s1 where s1: "run alu xs s = Some s1" "accumulator_only (imm_effect op v1 (reg16 s SNES_A)) s s1"
    using run_imm_step [OF x(2) assms(2)] by blast
  obtain s2 where s2: "run alu ys s1 = Some s2" "accumulator_only (imm_effect op v2 (reg16 s1 SNES_A)) s1 s2"
    using run_imm_step [OF x(3) assms(2)] by blast
  have "reg16 s1 SNES_A = imm_effect op v1 (reg16 s SNES_A)" using s1(2) by (simp add: accumulator_only_def)
  with s1(1) s2(1) accumulator_trans [OF s1(2) s2(2)] show ?thesis by (simp add: x(1) run_append)
qed

text \<open>The effect of the two steps on the constant \<open>c\<close>, byte by byte.\<close>

lemma imm_bytes_u16:
  fixes k :: u64
  defines "c \<equiv> ucast k :: u16"
  shows "ucast ((ucast k :: u32) AND 0xff) = c AND 0xff" "ucast (drop_bit 8 (ucast k :: u32) AND 0xff) = drop_bit 8 c"
    "(ucast k :: u32) AND 0xff = 0xff \<longleftrightarrow> c AND 0xff = 0xff" "(ucast k :: u32) AND 0xff = 0 \<longleftrightarrow> c AND 0xff = 0"
    "drop_bit 8 (ucast k :: u32) AND 0xff = 0xff \<longleftrightarrow> drop_bit 8 c = 0xff"
    "drop_bit 8 (ucast k :: u32) AND 0xff = 0 \<longleftrightarrow> drop_bit 8 c = 0"
proof -
  have m: "(0xff :: u32) = mask 8" "(0xff :: u16) = mask 8" by (simp_all add: mask_eq_exp_minus_1)
  have lo: "ucast (take_bit 8 (ucast k :: u32)) = take_bit 8 c" "ucast (take_bit 8 c) = take_bit 8 (ucast k :: u32)"
    and hi: "ucast (take_bit 8 (drop_bit 8 (ucast k :: u32))) = drop_bit 8 c"
      "ucast (drop_bit 8 c) = take_bit 8 (drop_bit 8 (ucast k :: u32))"
    unfolding c_def by (rule bit_word_eqI; auto simp: bit_simps dest: bit_imp_le_length)+
  have u: "ucast (mask 8 :: u32) = (mask 8 :: u16)" "ucast (mask 8 :: u16) = (mask 8 :: u32)"
    by (simp_all add: mask_eq_exp_minus_1)
  show "ucast ((ucast k :: u32) AND 0xff) = c AND 0xff" "ucast (drop_bit 8 (ucast k :: u32) AND 0xff) = drop_bit 8 c"
    using lo hi unfolding m by (simp_all only: take_bit_eq_mask)
  show "(ucast k :: u32) AND 0xff = 0xff \<longleftrightarrow> c AND 0xff = 0xff"
    using lo u unfolding m take_bit_eq_mask [symmetric] by metis
  show "(ucast k :: u32) AND 0xff = 0 \<longleftrightarrow> c AND 0xff = 0"
    using lo unfolding m take_bit_eq_mask [symmetric] by (metis unsigned_0)
  show "drop_bit 8 (ucast k :: u32) AND 0xff = 0xff \<longleftrightarrow> drop_bit 8 c = 0xff"
    using hi u unfolding m take_bit_eq_mask [symmetric] by metis
  show "drop_bit 8 (ucast k :: u32) AND 0xff = 0 \<longleftrightarrow> drop_bit 8 c = 0"
    using hi unfolding m take_bit_eq_mask [symmetric] by (metis unsigned_0)
qed


lemma imm_effects:
  fixes k :: u64
  defines "c \<equiv> ucast k :: u16"
  shows "imm_effect ANDimm16 (drop_bit 8 (ucast k) AND 0xff) (imm_effect ANDimm16 (ucast k AND 0xff) x)
     = x AND (if c AND 0xff = 0xff then - 1 else c AND 0xff) AND (if drop_bit 8 c = 0xff then - 1 else drop_bit 8 c)"
    "imm_effect ORAimm16 (drop_bit 8 (ucast k) AND 0xff) (imm_effect ORAimm16 (ucast k AND 0xff) x)
     = x OR (c AND 0xff) OR drop_bit 8 c"
  unfolding c_def
  by (simp_all add: imm_effect_def isLogicImmOpRedundant_def imm16_value_def imm_bytes_u16 ac_simps
      del: drop_bit_and unsigned_and_eq)

lemma halves_of: "\<exists>h l. c = join h l \<and> c AND 0xff = join 0 l \<and> drop_bit 8 c = join 0 h"
proof (intro exI conjI)
  show "c = join (ucast (drop_bit 8 c)) (ucast c)" by (simp add: join_halves)
  have m: "(0xff :: u16) = mask 8" by (simp add: mask_eq_exp_minus_1)
  show "c AND 0xff = join 0 (ucast c)" "drop_bit 8 c = join 0 (ucast (drop_bit 8 c))"
    unfolding m by (rule bit_word_eqI; auto simp: bit_join bit_simps dest: bit_imp_le_length)+
qed

lemma join_consts: "(0xff :: u16) = join 0 0xff" "(- 1 :: u16) = join 0xff 0xff" "(0 :: u16) = join 0 0" "(0xffff :: u16) = join 0xff 0xff"
  by (simp_all add: word_uint_eq_iff uint_join unsigned_minus_1_eq_mask mask_eq_exp_minus_1)

lemma and_right_iff:
  "(if c AND 0xff = 0xff then - 1 else c AND 0xff) AND (if drop_bit 8 c = 0xff then - 1 else drop_bit 8 c) = c
    \<longleftrightarrow> c = 0xffff \<or> c = (0 :: u16)"
    "(if c AND 0xff = 0xff then - 1 else c AND 0xff) AND (if drop_bit 8 c = 0xff then - 1 else drop_bit 8 c) = - 1
    \<longleftrightarrow> c = 0xffff"
proof -
  obtain h l where c: "c = join h l" "c AND 0xff = join 0 l" "drop_bit 8 c = join 0 h" using halves_of by blast
  have n: "(0xff :: u8) = - 1" by simp
  show "(if c AND 0xff = 0xff then - 1 else c AND 0xff) AND (if drop_bit 8 c = 0xff then - 1 else drop_bit 8 c) = c
    \<longleftrightarrow> c = 0xffff \<or> c = (0 :: u16)"
   "(if c AND 0xff = 0xff then - 1 else c AND 0xff) AND (if drop_bit 8 c = 0xff then - 1 else drop_bit 8 c) = - 1
    \<longleftrightarrow> c = 0xffff"
    unfolding c(2,3) unfolding c(1) join_consts by (auto simp: join_bitwise)
qed

lemma or_right_iff:
  "(c AND 0xff) OR drop_bit 8 c = c \<longleftrightarrow> drop_bit 8 c = (0 :: u16)" "(c AND 0xff) OR drop_bit 8 c = 0 \<longleftrightarrow> c = 0"
proof -
  obtain h l where c: "c = join h l" "c AND 0xff = join 0 l" "drop_bit 8 c = join 0 h" using halves_of by blast
  show "(c AND 0xff) OR drop_bit 8 c = c \<longleftrightarrow> drop_bit 8 c = (0 :: u16)"
   "(c AND 0xff) OR drop_bit 8 c = 0 \<longleftrightarrow> c = 0"
    unfolding c(2,3) unfolding c(1) join_consts by (auto simp: join_bitwise or_eq_0_iff)
qed

text \<open>A machine whose accumulator, and every other register, has a given value.\<close>

definition uniform_machine :: "u8 \<Rightarrow> machine" where
  "uniform_machine b = \<lparr>byte_reg = (\<lambda>_. b), status = \<lparr>C_flag = False, Z_flag = False, N_flag = False, V_flag = False\<rparr>,
     memory = (\<lambda>_. 0), port = (\<lambda>_. 0)\<rparr>"

lemma uniform_reg [simp]: "reg16 (uniform_machine b) r = join b b"
  by (simp add: uniform_machine_def reg16_def)

lemma only_changes_other:
  assumes "only_changes [d] s s'" "class_contains MainRegs d" "d \<noteq> SNES_A"
  shows "reg16 s' SNES_A = reg16 s SNES_A"
  using assms by (auto simp: only_changes_def reg16_def getSubReg_lo_def getSubReg_hi_def)

text \<open>
  The steps with the effect \<open>f\<close> on the accumulator do \<open>g\<close> on the register \<open>d\<close>, in every state,
  when \<open>d\<close> is the accumulator and \<open>f\<close> is \<open>g\<close>, or when neither does anything.
\<close>

lemma imm_steps_right_iff:
  assumes e: "\<And>s. \<exists>s'. run alu is s = Some s' \<and> accumulator_only (f (reg16 s SNES_A)) s s'"
    and d: "class_contains MainRegs d"
    and eq: "f (join b b) = g (join b b) \<Longrightarrow> \<forall>x. f x = g x" and id: "f (join b b) = join b b \<Longrightarrow> is = [] \<and> (\<forall>x. g x = x)"
  shows "(\<forall>s s'. run alu is s = Some s' \<longrightarrow> reg16 s' d = g (reg16 s d) \<and> only_changes [d] s s')
    \<longleftrightarrow> (d = SNES_A \<and> f (join b b) = g (join b b)) \<or> f (join b b) = join b b"
proof
  assume all: "\<forall>s s'. run alu is s = Some s' \<longrightarrow> reg16 s' d = g (reg16 s d) \<and> only_changes [d] s s'"
  obtain s' where s': "run alu is (uniform_machine b) = Some s'" "accumulator_only (f (join b b)) (uniform_machine b) s'"
    using e [of "uniform_machine b"] by auto
  with all have "reg16 s' d = g (join b b)" "only_changes [d] (uniform_machine b) s'" by auto
  with s'(2) only_changes_other [OF _ d, of "uniform_machine b" s']
  show "(d = SNES_A \<and> f (join b b) = g (join b b)) \<or> f (join b b) = join b b"
    by (cases "d = SNES_A") (auto simp: accumulator_only_def)
next
  assume r: "(d = SNES_A \<and> f (join b b) = g (join b b)) \<or> f (join b b) = join b b"
  show "\<forall>s s'. run alu is s = Some s' \<longrightarrow> reg16 s' d = g (reg16 s d) \<and> only_changes [d] s s'"
  proof (intro allI impI)
    fix s s' assume s': "run alu is s = Some s'"
    from r show "reg16 s' d = g (reg16 s d) \<and> only_changes [d] s s'"
    proof
      assume "d = SNES_A \<and> f (join b b) = g (join b b)"
      with eq e [of s] s' show ?thesis by (auto simp: accumulator_only_def)
    next
      assume "f (join b b) = join b b"
      with id s' show ?thesis by (auto simp: only_changes_def)
    qed
  qed
qed


lemma logic_imm_steps:
  assumes "class_contains MainRegs d" and w: "w = ANDIWRdK \<and> op = ANDimm16 \<or> w = ORIWRdK \<and> op = ORAimm16"
    and "built_as MI (Wide w) [def_reg d, use d, MO_Immediate k]"
  shows "\<exists>is lo hi. expand_wide avail w MI = Inr is \<and> List.map meaning is
    = imm_step op lo (ucast k AND 0xff) @ imm_step op hi (drop_bit 8 (ucast k) AND 0xff)"
proof -
  obtain dl dh where dd: "splitReg d = Inr (dl, dh)" using splitReg_ok [OF assms(1)] by blast
  have "w \<in> set wide_writes_P" using w by (auto simp: wide_writes_P_def)
  then obtain r0 r1 r3 rest where o: "RegNo r0 = d"
      "Operands MI = MO_Register r0 # MO_Register r1 # MO_Immediate k # MO_Register r3 # rest"
    using built_imm [OF assms(3)] by auto
  have op: "op \<in> set imm16_ops" using w by (auto simp: imm16_ops_def)
  have "expand_wide avail w MI = expandLogicImm (Alu op) MI" using w by (auto simp: expand_wide_def)
  with logic_imm_meaning [OF o(2) dd [folded o(1)] op] show ?thesis by (auto simp: expands_to_def)
qed

lemma and_imm_result:
  assumes "class_contains MainRegs d" and c: "c = (ucast (k :: u64) :: u16)"
    and m: "List.map meaning js = imm_step ANDimm16 lo (ucast k AND 0xff) @ imm_step ANDimm16 hi (drop_bit 8 (ucast k) AND 0xff)"
    and a: "a = (if c AND 0xff = 0xff then - 1 else c AND 0xff) AND (if drop_bit 8 c = 0xff then - 1 else drop_bit 8 c)"
  shows "\<exists>s'. run alu js s = Some s' \<and> only_changes [SNES_A] s s' \<and> reg16 s' SNES_A = reg16 s SNES_A AND a"
    and "(\<forall>s s'. run alu js s = Some s' \<longrightarrow> reg16 s' d = reg16 s d AND c \<and> only_changes [d] s s')
      \<longleftrightarrow> c = 0xffff \<or> d = SNES_A \<and> c = 0"
proof -
  have op: "ANDimm16 \<in> set imm16_ops" by (simp add: imm16_ops_def)
  have e: "\<exists>s'. run alu js s = Some s' \<and> accumulator_only (reg16 s SNES_A AND a) s s'" for s
    using run_imm_steps [OF m op, of alu s] unfolding imm_effects(1) c [symmetric] a .
  then show "\<exists>s'. run alu js s = Some s' \<and> only_changes [SNES_A] s s' \<and> reg16 s' SNES_A = reg16 s SNES_A AND a"
    unfolding accumulator_only_def by blast
  have ones: "join 0xff 0xff = (- 1 :: u16)" by (rule join_consts(2) [symmetric])
  have m1: "(0xffff :: u16) = - 1" by simp
  have id: "x AND 0xffff = x" for x :: u16 unfolding m1 by simp
  have empty: "js = []" if "c = 0xffff"
  proof -
    have "(0xffff :: u16) AND 0xff = 0xff" "drop_bit 8 (0xffff :: u16) = 0xff" by (simp_all add: drop_bit_eq_div)
    with m show ?thesis unfolding imm_step_def isLogicImmOpRedundant_def using imm_bytes_u16(3,5) [of k] that c
      by simp
  qed
  have "(\<forall>s s'. run alu js s = Some s' \<longrightarrow> reg16 s' d = reg16 s d AND c \<and> only_changes [d] s s')
    \<longleftrightarrow> (d = SNES_A \<and> join 0xff 0xff AND a = join 0xff 0xff AND c) \<or> join 0xff 0xff AND a = join 0xff 0xff"
    by (rule imm_steps_right_iff [OF e assms(1)]) (use empty and_right_iff [of c] in \<open>auto simp: ones id a\<close>)
  then show "(\<forall>s s'. run alu js s = Some s' \<longrightarrow> reg16 s' d = reg16 s d AND c \<and> only_changes [d] s s')
      \<longleftrightarrow> c = 0xffff \<or> d = SNES_A \<and> c = 0" using and_right_iff [of c] by (auto simp: ones a)
qed

lemma or_imm_result:
  assumes "class_contains MainRegs d" and c: "c = (ucast (k :: u64) :: u16)"
    and m: "List.map meaning js = imm_step ORAimm16 lo (ucast k AND 0xff) @ imm_step ORAimm16 hi (drop_bit 8 (ucast k) AND 0xff)"
    and a: "a = (c AND 0xff) OR drop_bit 8 c"
  shows "\<exists>s'. run alu js s = Some s' \<and> only_changes [SNES_A] s s' \<and> reg16 s' SNES_A = reg16 s SNES_A OR a"
    and "(\<forall>s s'. run alu js s = Some s' \<longrightarrow> reg16 s' d = reg16 s d OR c \<and> only_changes [d] s s')
      \<longleftrightarrow> c = 0 \<or> d = SNES_A \<and> drop_bit 8 c = 0"
proof -
  have op: "ORAimm16 \<in> set imm16_ops" by (simp add: imm16_ops_def)
  have e: "\<exists>s'. run alu js s = Some s' \<and> accumulator_only (reg16 s SNES_A OR a) s s'" for s
    using run_imm_steps [OF m op, of alu s] unfolding imm_effects(2) c [symmetric] a .
  then show "\<exists>s'. run alu js s = Some s' \<and> only_changes [SNES_A] s s' \<and> reg16 s' SNES_A = reg16 s SNES_A OR a"
    unfolding accumulator_only_def by blast
  have zero: "join 0 0 = (0 :: u16)" by (rule join_consts(3) [symmetric])
  have empty: "js = []" if "c = 0"
    using m unfolding imm_step_def isLogicImmOpRedundant_def using imm_bytes_u16(4,6) [of k] that c by simp
  have "(\<forall>s s'. run alu js s = Some s' \<longrightarrow> reg16 s' d = reg16 s d OR c \<and> only_changes [d] s s')
    \<longleftrightarrow> (d = SNES_A \<and> join 0 0 OR a = join 0 0 OR c) \<or> join 0 0 OR a = join 0 0"
    by (rule imm_steps_right_iff [OF e assms(1)]) (use empty or_right_iff [of c] in \<open>auto simp: zero a\<close>)
  then show "(\<forall>s s'. run alu js s = Some s' \<longrightarrow> reg16 s' d = reg16 s d OR c \<and> only_changes [d] s s')
      \<longleftrightarrow> c = 0 \<or> d = SNES_A \<and> drop_bit 8 c = 0" using or_right_iff [of c] by (auto simp: zero a)
qed

text \<open>
  Property C39. The expansions of the logic pseudo instructions with an immediate. Each half
  becomes an instruction on the whole accumulator, whatever register the pseudo instruction
  names: the accumulator ends as its value and the two bytes of the constant, each extended
  with zeros (a byte of ones is left out), for \<open>ANDIWRdK\<close>, and as its value or the two bytes
  for \<open>ORIWRdK\<close>; no other register changes. So the expansion does the 16-bit operation of the
  pseudo instruction exactly for the constant that changes nothing and, when the register is
  the accumulator, for the constant zero of \<open>ANDIWRdK\<close> and constants of one byte of \<open>ORIWRdK\<close>.
\<close>

theorem logic_immediate_expansion:
  assumes "class_contains MainRegs d" and w: "w = ANDIWRdK \<and> op = ANDimm16 \<or> w = ORIWRdK \<and> op = ORAimm16"
    and MI: "built_as MI (Wide w) [def_reg d, use d, MO_Immediate k]" and c: "c = (ucast k :: u16)"
  shows "\<exists>is. expand_wide avail w MI = Inr is
    \<and> (\<forall>s. \<exists>s'. run alu is s = Some s' \<and> only_changes [SNES_A] s s'
        \<and> reg16 s' SNES_A = (if w = ANDIWRdK
            then reg16 s SNES_A AND (if c AND 0xff = 0xff then - 1 else c AND 0xff)
              AND (if drop_bit 8 c = 0xff then - 1 else drop_bit 8 c)
            else reg16 s SNES_A OR (c AND 0xff) OR drop_bit 8 c))
    \<and> ((\<forall>s s'. run alu is s = Some s' \<longrightarrow>
          reg16 s' d = (if w = ANDIWRdK then reg16 s d AND c else reg16 s d OR c) \<and> only_changes [d] s s')
       \<longleftrightarrow> (if w = ANDIWRdK then c = 0xffff \<or> d = SNES_A \<and> c = 0
          else c = 0 \<or> d = SNES_A \<and> drop_bit 8 c = 0))"
proof -
  obtain js lo hi where js: "expand_wide avail w MI = Inr js"
    and m: "List.map meaning js = imm_step op lo (ucast k AND 0xff) @ imm_step op hi (drop_bit 8 (ucast k) AND 0xff)"
    using logic_imm_steps [OF assms(1) w MI, of avail] by blast
  show ?thesis
  proof (cases "w = ANDIWRdK")
    case True
    with w have t: "op = ANDimm16" "(w = ANDIWRdK) = True" by simp_all
    from and_imm_result [OF assms(1) c m [unfolded t(1)] refl, of alu] js show ?thesis unfolding t(2) if_True by blast
  next
    case False
    with w have t: "op = ORAimm16" "(w = ANDIWRdK) = False" by simp_all
    from or_imm_result [OF assms(1) c m [unfolded t(1)] refl, of alu] js show ?thesis
      unfolding t(2) if_False or.assoc by blast
  qed
qed

lemma logic_immediate_expansion_witness:
  "\<exists>is s'. expand_wide (\<lambda>_ _. False) ANDIWRdK
       (BuildMI (Wide ANDIWRdK) [def_reg SNES_X, use SNES_X, MO_Immediate 0x1234]) = Inr is
     \<and> run reference_alu is sample_machine = Some s' \<and> reg16 s' SNES_A = 0x10 \<and> reg16 s' SNES_X = 0x0102"
proof -
  let ?M = "BuildMI (Wide ANDIWRdK) [def_reg SNES_X, use SNES_X, MO_Immediate 0x1234]"
  have b: "built_as ?M (Wide ANDIWRdK) [def_reg SNES_X, use SNES_X, MO_Immediate 0x1234]"
    by (simp add: built_as_def BuildMI_def ImplicitDefs_def ImplicitUses_def wide_writes_P_def wide_reads_P_def
      build_simps)
  have "class_contains MainRegs SNES_X" "ANDIWRdK = ANDIWRdK \<and> ANDimm16 = ANDimm16 \<or> ANDIWRdK = ORIWRdK \<and> ANDimm16 = ORAimm16"
    by simp_all
  note h = this
  obtain "is" where i: "expand_wide (\<lambda>_ _. False) ANDIWRdK ?M = Inr is"
    and e: "\<forall>s. \<exists>s'. run reference_alu is s = Some s' \<and> only_changes [SNES_A] s s' \<and> reg16 s' SNES_A
      = reg16 s SNES_A AND (if (0x1234 :: u16) AND 0xff = 0xff then - 1 else 0x1234 AND 0xff)
          AND (if drop_bit 8 (0x1234 :: u16) = 0xff then - 1 else drop_bit 8 0x1234)"
    using logic_immediate_expansion [OF h b refl, of "\<lambda>_ _. False" reference_alu, unfolded if_P [OF refl]]
    by (elim exE conjE) simp
  obtain s' where r: "run reference_alu is sample_machine = Some s'" "only_changes [SNES_A] sample_machine s'"
    and a: "reg16 s' SNES_A = 0x12ff AND (if (0x1234 :: u16) AND 0xff = 0xff then - 1 else 0x1234 AND 0xff)
          AND (if drop_bit 8 (0x1234 :: u16) = 0xff then - 1 else drop_bit 8 0x1234)"
    using spec [OF e, of sample_machine] by (elim exE conjE) (simp only: sample_regs)
  have "reg16 s' SNES_A = 0x10" unfolding a by (simp add: drop_bit_eq_div)
  moreover have "reg16 s' SNES_X = reg16 sample_machine SNES_X"
    using r(2) by (simp add: only_changes_def reg16_def getSubReg_lo_def getSubReg_hi_def)
  ultimately show ?thesis using i r(1) by (simp only: sample_regs) blast
qed

end
