(* ===== verification/ISel_Compare.thy ===== *)
theory ISel_Compare
  imports Expand_Refinement
begin

text \<open>
  Custom lowering of comparisons, \<open>SNESISelLowering.cpp\<close>: \<open>getSNESCmp\<close>, \<open>intCCToSNESCC\<close> and
  the nodes that use them. The nodes of the selection DAG are trees; \<open>SelectionDAG::getNode\<close>
  may fold a node into a simpler one of the same value, which the trees leave out. The
  meaning of a tree is its value under an assignment of the leaves.
\<close>

section \<open>Nodes\<close>

datatype evt = VT_i8 | VT_i16 | VT_i32 | VT_i64 | VT_integer nat | VT_Other | VT_Glue

definition getSizeInBits :: "evt \<Rightarrow> nat" where
  "getSizeInBits VT = (case VT of
     VT_i8 \<Rightarrow> 8 | VT_i16 \<Rightarrow> 16 | VT_i32 \<Rightarrow> 32 | VT_i64 \<Rightarrow> 64 | VT_integer n \<Rightarrow> n | _ \<Rightarrow> 0)"

datatype isd_cond =
    SETFALSE | SETOEQ | SETOGT | SETOGE | SETOLT | SETOLE | SETONE | SETO | SETUO | SETUEQ
  | SETUGT | SETUGE | SETULT | SETULE | SETUNE | SETTRUE | SETFALSE2 | SETEQ | SETGT | SETGE
  | SETLT | SETLE | SETNE | SETTRUE2 | SETCC_INVALID

datatype isd_op =
    ISD_ADD | ISD_SUB | ISD_SHL | ISD_SRA | ISD_SRL | ISD_ROTL | ISD_ROTR | ISD_EXTRACT_ELEMENT
  | ISD_BR_CC | ISD_SELECT_CC | ISD_SETCC | ISD_VASTART | ISD_SDIVREM | ISD_UDIVREM | ISD_STORE
  | ISD_LOAD | ISD_CopyFromReg | ISD_BITCAST | ISD_AssertSext | ISD_AssertZext | ISD_TRUNCATE
  | ISD_SIGN_EXTEND | ISD_ZERO_EXTEND | ISD_ANY_EXTEND | ISD_CopyToReg | ISD_BRIND
  | ISD_UMUL_LOHI | ISD_SMUL_LOHI | ISD_UNDEF | ISD_OR | ISD_EntryToken
  | ISD_MERGE_VALUES | SNESISD_RET_FLAG | SNESISD_RETI_FLAG | SNESISD_CALL
  | SNESISD_WRAPPER | SNESISD_LSL | SNESISD_LSR | SNESISD_ASR | SNESISD_ROR | SNESISD_ROL
  | SNESISD_LSLLOOP | SNESISD_LSRLOOP | SNESISD_ROLLOOP | SNESISD_RORLOOP | SNESISD_ASRLOOP
  | SNESISD_BRCOND | SNESISD_CMP | SNESISD_CMPC | SNESISD_TST | SNESISD_SELECT_CC

text \<open>
  \<open>SD_Value\<close> is a value computed elsewhere and \<open>SD_Glue\<close> the glue of the node before in a
  chain; the rest are nodes of the DAG by kind. \<open>SD_Machine\<close> is a selected node, given with the
  types of its results, and \<open>SD_Result\<close> a result of a node other than the first.
\<close>

datatype sdvalue =
    SD_Value nat evt
  | SD_Constant u64 evt
  | SD_CondCode isd_cond
  | SD_BasicBlock nat
  | SD_GlobalAddress global_value u64
  | SD_TargetGlobalAddress global_value u64
  | SD_BlockAddress string
  | SD_TargetBlockAddress string
  | SD_FrameIndex int evt
  | SD_Register reg evt
  | SD_RegisterMask "reg list"
  | SD_ExternalSymbol string
  | SD_TargetExternalSymbol string
  | SD_ValueType evt
  | SD_Glue
  | SD_TargetConstant u64 evt
  | SD_TargetFrameIndex int evt
  | SD_VirtualRegister nat evt
  | SD_ConstantFP bool evt
  | SD_Node isd_op evt "sdvalue list"
  | SD_Machine opcode "evt list" "sdvalue list"
  | SD_Result sdvalue nat

definition getValueType :: "sdvalue \<Rightarrow> evt" where
  "getValueType v = (case v of
     SD_Value _ VT \<Rightarrow> VT | SD_Constant _ VT \<Rightarrow> VT | SD_FrameIndex _ VT \<Rightarrow> VT | SD_Node _ VT _ \<Rightarrow> VT
   | SD_GlobalAddress _ _ \<Rightarrow> VT_i16 | SD_TargetGlobalAddress _ _ \<Rightarrow> VT_i16
   | SD_BlockAddress _ \<Rightarrow> VT_i16 | SD_TargetBlockAddress _ \<Rightarrow> VT_i16 | SD_Register _ VT \<Rightarrow> VT
   | SD_TargetConstant _ VT \<Rightarrow> VT | SD_TargetFrameIndex _ VT \<Rightarrow> VT | SD_ConstantFP _ VT \<Rightarrow> VT
   | SD_VirtualRegister _ VT \<Rightarrow> VT
   | SD_ExternalSymbol _ \<Rightarrow> VT_i16 | SD_TargetExternalSymbol _ \<Rightarrow> VT_i16 | SD_Glue \<Rightarrow> VT_Glue
   | _ \<Rightarrow> VT_Other)"

text \<open>\<open>SelectionDAG::getConstant\<close> from a \<open>uint64_t\<close>, and the two readings of a constant.\<close>

definition getConstant :: "u64 \<Rightarrow> evt \<Rightarrow> sdvalue outcome" where
  "getConstant Val VT =
     asserting (64 \<le> getSizeInBits VT \<or> signed_drop_bit (getSizeInBits VT) Val + 1 < 2)
       ''getConstant with a uint64_t value that doesn't fit in the type!''
       (Inr (SD_Constant (take_bit (getSizeInBits VT) Val) VT))"

definition getSExtValue :: "u64 \<Rightarrow> evt \<Rightarrow> u64" where
  "getSExtValue c VT = signed_take_bit (getSizeInBits VT - 1) c"

definition getZExtValue :: "u64 \<Rightarrow> evt \<Rightarrow> u64" where
  "getZExtValue c VT = take_bit (getSizeInBits VT) c"

definition getTargetConstant :: "u64 \<Rightarrow> evt \<Rightarrow> sdvalue outcome" where
  "getTargetConstant Val VT =
     asserting (64 \<le> getSizeInBits VT \<or> signed_drop_bit (getSizeInBits VT) Val + 1 < 2)
       ''getConstant with a uint64_t value that doesn't fit in the type!''
       (Inr (SD_TargetConstant (take_bit (getSizeInBits VT) Val) VT))"

definition EXTRACT_ELEMENT :: "evt \<Rightarrow> sdvalue \<Rightarrow> u64 \<Rightarrow> sdvalue" where
  "EXTRACT_ELEMENT VT v i = SD_Node ISD_EXTRACT_ELEMENT VT [v, SD_Constant i VT_i16]"

section \<open>Comparisons\<close>

definition intCCToSNESCC :: "isd_cond \<Rightarrow> CondCodes outcome" where
  "intCCToSNESCC CC = (case CC of
     SETEQ \<Rightarrow> Inr COND_EQ | SETNE \<Rightarrow> Inr COND_NE | SETGE \<Rightarrow> Inr COND_GE | SETLT \<Rightarrow> Inr COND_LT
   | SETUGE \<Rightarrow> Inr COND_SH | SETULT \<Rightarrow> Inr COND_LO
   | _ \<Rightarrow> Inl (Unreachable ''Unknown condition code!''))"

text \<open>
  The first half of \<open>getSNESCmp\<close>: the operands and the condition to compare with, and the
  condition code when a test of the top part is enough (\<open>UseTest\<close>).
\<close>

definition adjust_cmp ::
  "sdvalue \<Rightarrow> sdvalue \<Rightarrow> isd_cond \<Rightarrow> (sdvalue \<times> sdvalue \<times> isd_cond \<times> CondCodes option) outcome" where
  "adjust_cmp LHS RHS CC =
     (let VT = getValueType LHS in
      case CC of
        SETLE \<Rightarrow> Inr (RHS, LHS, SETGE, None)
      | SETGT \<Rightarrow> (case RHS of
            SD_Constant C CVT \<Rightarrow>
              if getSExtValue C CVT = - 1 then Inr (LHS, RHS, SETGT, Some COND_PL)
              else if getSExtValue C CVT = 0
              then obind (getConstant 0 VT) (\<lambda>Z. Inr (Z, LHS, SETLT, None))
              else obind (getConstant (getSExtValue C CVT + 1) VT) (\<lambda>R. Inr (LHS, R, SETGE, None))
          | _ \<Rightarrow> Inr (RHS, LHS, SETLT, None))
      | SETLT \<Rightarrow> (case RHS of
            SD_Constant C CVT \<Rightarrow>
              if getSExtValue C CVT = 1
              then obind (getConstant 0 VT) (\<lambda>Z. Inr (Z, LHS, SETGE, None))
              else if getSExtValue C CVT = 0 then Inr (LHS, RHS, SETLT, Some COND_MI)
              else Inr (LHS, RHS, SETLT, None)
          | _ \<Rightarrow> Inr (LHS, RHS, SETLT, None))
      | SETULE \<Rightarrow> Inr (RHS, LHS, SETUGE, None)
      | SETUGT \<Rightarrow> (case RHS of
            SD_Constant C CVT \<Rightarrow>
              obind (getConstant (getSExtValue C CVT + 1) VT) (\<lambda>R. Inr (LHS, R, SETUGE, None))
          | _ \<Rightarrow> Inr (RHS, LHS, SETULT, None))
      | _ \<Rightarrow> Inr (LHS, RHS, CC, None))"

definition CMP_node :: "sdvalue \<Rightarrow> sdvalue \<Rightarrow> sdvalue" where
  "CMP_node l r = SD_Node SNESISD_CMP VT_Glue [l, r]"

definition CMPC_node :: "sdvalue \<Rightarrow> sdvalue \<Rightarrow> sdvalue \<Rightarrow> sdvalue" where
  "CMPC_node l r g = SD_Node SNESISD_CMPC VT_Glue [l, r, g]"

definition TST_node :: "sdvalue \<Rightarrow> sdvalue" where
  "TST_node v = SD_Node SNESISD_TST VT_Glue [v]"

text \<open>The second half: the comparison or the test, by the size of the operands.\<close>

definition build_cmp :: "evt \<Rightarrow> bool \<Rightarrow> sdvalue \<Rightarrow> sdvalue \<Rightarrow> sdvalue outcome" where
  "build_cmp VT UseTest LHS RHS =
     (if VT = VT_i32 then
        (let LHSlo = EXTRACT_ELEMENT VT_i16 LHS 0; LHShi = EXTRACT_ELEMENT VT_i16 LHS 1;
             RHSlo = EXTRACT_ELEMENT VT_i16 RHS 0; RHShi = EXTRACT_ELEMENT VT_i16 RHS 1
         in if UseTest then Inr (TST_node (EXTRACT_ELEMENT VT_i8 LHShi 1))
            else Inr (CMPC_node LHShi RHShi (CMP_node LHSlo RHSlo)))
      else if VT = VT_i64 then
        (let LHS_0 = EXTRACT_ELEMENT VT_i32 LHS 0; LHS_1 = EXTRACT_ELEMENT VT_i32 LHS 1;
             LHS0 = EXTRACT_ELEMENT VT_i16 LHS_0 0; LHS1 = EXTRACT_ELEMENT VT_i16 LHS_0 1;
             LHS2 = EXTRACT_ELEMENT VT_i16 LHS_1 0; LHS3 = EXTRACT_ELEMENT VT_i16 LHS_1 1;
             RHS_0 = EXTRACT_ELEMENT VT_i32 RHS 0; RHS_1 = EXTRACT_ELEMENT VT_i32 RHS 1;
             RHS0 = EXTRACT_ELEMENT VT_i16 RHS_0 0; RHS1 = EXTRACT_ELEMENT VT_i16 RHS_0 1;
             RHS2 = EXTRACT_ELEMENT VT_i16 RHS_1 0; RHS3 = EXTRACT_ELEMENT VT_i16 RHS_1 1
         in if UseTest then Inr (TST_node (EXTRACT_ELEMENT VT_i8 LHS3 1))
            else Inr (CMPC_node LHS3 RHS3 (CMPC_node LHS2 RHS2 (CMPC_node LHS1 RHS1 (CMP_node LHS0 RHS0)))))
      else if VT = VT_i8 \<or> VT = VT_i16 then
        (if UseTest then Inr (TST_node (if VT = VT_i8 then LHS else EXTRACT_ELEMENT VT_i8 LHS 1))
         else Inr (CMP_node LHS RHS))
      else Inl (Unreachable ''Invalid comparison size''))"

text \<open>The comparison node and the condition code that \<open>SNEScc\<close> is set to.\<close>

definition getSNESCmp :: "sdvalue \<Rightarrow> sdvalue \<Rightarrow> isd_cond \<Rightarrow> (sdvalue \<times> CondCodes) outcome" where
  "getSNESCmp LHS RHS CC =
     obind (adjust_cmp LHS RHS CC) (\<lambda>(L, R, CC', test).
     obind (build_cmp (getValueType LHS) (test \<noteq> None) L R) (\<lambda>Cmp.
       case test of
         Some SNEScc \<Rightarrow> Inr (Cmp, SNEScc)
       | None \<Rightarrow> obind (intCCToSNESCC CC') (\<lambda>SNEScc. Inr (Cmp, SNEScc))))"

text \<open>A condition code as the constant operand of a node.\<close>

definition cond_constant :: "CondCodes \<Rightarrow> sdvalue" where
  "cond_constant CC = SD_Constant (case CC of
     COND_EQ \<Rightarrow> 0 | COND_NE \<Rightarrow> 1 | COND_GE \<Rightarrow> 2 | COND_LT \<Rightarrow> 3 | COND_SH \<Rightarrow> 4 | COND_LO \<Rightarrow> 5
   | COND_MI \<Rightarrow> 6 | COND_PL \<Rightarrow> 7 | COND_INVALID \<Rightarrow> 8) VT_i8"

definition LowerBR_CC :: "sdvalue \<Rightarrow> isd_cond \<Rightarrow> sdvalue \<Rightarrow> sdvalue \<Rightarrow> sdvalue \<Rightarrow> sdvalue outcome" where
  "LowerBR_CC Chain CC LHS RHS Dest =
     obind (getSNESCmp LHS RHS CC) (\<lambda>(Cmp, TargetCC).
       Inr (SD_Node SNESISD_BRCOND VT_Other [Chain, Dest, cond_constant TargetCC, Cmp]))"

definition LowerSELECT_CC :: "evt \<Rightarrow> sdvalue \<Rightarrow> sdvalue \<Rightarrow> sdvalue \<Rightarrow> sdvalue \<Rightarrow> isd_cond \<Rightarrow> sdvalue outcome" where
  "LowerSELECT_CC VT LHS RHS TrueV FalseV CC =
     obind (getSNESCmp LHS RHS CC) (\<lambda>(Cmp, TargetCC).
       Inr (SD_Node SNESISD_SELECT_CC VT [TrueV, FalseV, cond_constant TargetCC, Cmp]))"

definition LowerSETCC :: "evt \<Rightarrow> sdvalue \<Rightarrow> sdvalue \<Rightarrow> isd_cond \<Rightarrow> sdvalue outcome" where
  "LowerSETCC VT LHS RHS CC =
     obind (getSNESCmp LHS RHS CC) (\<lambda>(Cmp, TargetCC).
     obind (getConstant 1 VT) (\<lambda>TrueV. obind (getConstant 0 VT) (\<lambda>FalseV.
       Inr (SD_Node SNESISD_SELECT_CC VT [TrueV, FalseV, cond_constant TargetCC, Cmp]))))"

section \<open>Values of nodes\<close>

text \<open>
  A value of \<open>n\<close> bits is an integer below \<open>2 ^ n\<close>; \<open>signed_value\<close> reads it in two's
  complement. The value of a node is what \<open>ISDOpcodes.h\<close> and the comments of the SNES nodes
  document, for the nodes whose value the lowering relies on.
\<close>

definition signed_value :: "nat \<Rightarrow> int \<Rightarrow> int" where
  "signed_value n x = (if 2 * x < 2 ^ n then x else x - 2 ^ n)"

definition node_value :: "isd_op \<Rightarrow> nat \<Rightarrow> int list \<Rightarrow> int" where
  "node_value op n vs = (case vs of
     [x] \<Rightarrow> (case op of
         SNESISD_LSL \<Rightarrow> 2 * x
       | SNESISD_LSR \<Rightarrow> x div 2
       | SNESISD_ASR \<Rightarrow> signed_value n x div 2
       | SNESISD_ROL \<Rightarrow> 2 * x + x div 2 ^ (n - 1)
       | SNESISD_ROR \<Rightarrow> x div 2 + (x mod 2) * 2 ^ (n - 1)
       | _ \<Rightarrow> x)
   | [x, y] \<Rightarrow> (case op of
         ISD_ADD \<Rightarrow> x + y
       | ISD_SUB \<Rightarrow> x - y
       | ISD_OR \<Rightarrow> Bit_Operations.or x y
       | ISD_SHL \<Rightarrow> x * 2 ^ nat y
       | ISD_SRL \<Rightarrow> x div 2 ^ nat y
       | ISD_SRA \<Rightarrow> signed_value n x div 2 ^ nat y
       | ISD_ROTL \<Rightarrow> x * 2 ^ nat y + x div 2 ^ (n - nat y)
       | ISD_ROTR \<Rightarrow> x div 2 ^ nat y + (x mod 2 ^ nat y) * 2 ^ (n - nat y)
       | ISD_EXTRACT_ELEMENT \<Rightarrow> x div 2 ^ (nat y * n)
       | _ \<Rightarrow> x)
   | _ \<Rightarrow> 0)"

fun eval_sd :: "(nat \<Rightarrow> int) \<Rightarrow> sdvalue \<Rightarrow> int" where
  "eval_sd env (SD_Value k VT) = env k mod 2 ^ getSizeInBits VT"
| "eval_sd env (SD_Constant c VT) = uint c mod 2 ^ getSizeInBits VT"
| "eval_sd env (SD_TargetConstant c VT) = uint c mod 2 ^ getSizeInBits VT"
| "eval_sd env (SD_Node op VT vs) = node_value op (getSizeInBits VT) (List.map (eval_sd env) vs) mod 2 ^ getSizeInBits VT"
| "eval_sd env _ = 0"

text \<open>The integer conditions of \<open>ISD::CondCode\<close>; the others are for floating point.\<close>

definition isd_holds :: "isd_cond \<Rightarrow> nat \<Rightarrow> int \<Rightarrow> int \<Rightarrow> bool" where
  "isd_holds CC n x y = (case CC of
     SETEQ \<Rightarrow> x = y | SETNE \<Rightarrow> x \<noteq> y
   | SETGT \<Rightarrow> signed_value n y < signed_value n x | SETGE \<Rightarrow> signed_value n y \<le> signed_value n x
   | SETLT \<Rightarrow> signed_value n x < signed_value n y | SETLE \<Rightarrow> signed_value n x \<le> signed_value n y
   | SETUGT \<Rightarrow> y < x | SETUGE \<Rightarrow> y \<le> x | SETULT \<Rightarrow> x < y | SETULE \<Rightarrow> x \<le> y
   | _ \<Rightarrow> False)"

text \<open>The flags after comparing values of \<open>n\<close> bits, as \<open>compares\<close> says for words.\<close>

definition compares_at :: "nat \<Rightarrow> flags \<Rightarrow> bool \<Rightarrow> bool \<Rightarrow> int \<Rightarrow> int \<Rightarrow> bool" where
  "compares_at n F z c x y \<longleftrightarrow>
     C_flag F = (x < y + of_bool c)
     \<and> S_flag F = (signed_value n x < signed_value n y + of_bool c)
     \<and> Z_flag F = (z \<and> (x - y - of_bool c) mod 2 ^ n = 0)"

text \<open>
  The flags that a comparison node may leave: \<open>CMP\<close> compares, \<open>CMPC\<close> continues a comparison
  with the flags it is glued to, and \<open>TST\<close> sets the minus flag to the top bit.
\<close>

inductive glue_flags :: "(nat \<Rightarrow> int) \<Rightarrow> sdvalue \<Rightarrow> flags \<Rightarrow> bool" for env where
  flags_CMP: "compares_at (getSizeInBits (getValueType l)) F True False (eval_sd env l) (eval_sd env r)
    \<Longrightarrow> glue_flags env (SD_Node SNESISD_CMP VT_Glue [l, r]) F"
| flags_CMPC: "glue_flags env g F
    \<Longrightarrow> compares_at (getSizeInBits (getValueType l)) G (Z_flag F) (C_flag F) (eval_sd env l) (eval_sd env r)
    \<Longrightarrow> glue_flags env (SD_Node SNESISD_CMPC VT_Glue [l, r, g]) G"
| flags_TST: "N_flag F = (2 ^ getSizeInBits (getValueType v) \<le> 2 * eval_sd env v)
    \<Longrightarrow> glue_flags env (SD_Node SNESISD_TST VT_Glue [v]) F"

inductive_simps glue_CMP: "glue_flags env (SD_Node SNESISD_CMP VT_Glue [l, r]) F"
inductive_simps glue_CMPC: "glue_flags env (SD_Node SNESISD_CMPC VT_Glue [l, r, g]) F"
inductive_simps glue_TST: "glue_flags env (SD_Node SNESISD_TST VT_Glue [v]) F"

lemmas glue_inv [simp] = glue_CMP [folded CMP_node_def] glue_CMPC [folded CMPC_node_def] glue_TST [folded TST_node_def]

text \<open>The node \<open>CMP\<close> on 16 bits has these flags when it is selected as \<open>CPWRdRr\<close>.\<close>

lemma signed_value_sint: "signed_value (LENGTH('a)) (uint w) = sint (w :: 'a::len word)"
proof -
  have "bit w (LENGTH('a) - 1) \<longleftrightarrow> 2 ^ LENGTH('a) \<le> 2 * uint w"
  proof -
    have "bit w (LENGTH('a) - 1) = (sint w < 0)"
      using bit_last_iff [of w] by simp
    also have "\<dots> = (2 ^ LENGTH('a) \<le> 2 * uint w)"
      using sint_msb [of w] uint_bounded [of w] sint_greater_eq [of w] sint_less [of w]
      by (cases "LENGTH('a)") (auto split: if_splits)
    finally show ?thesis .
  qed
  then show ?thesis using sint_msb [of w] by (auto simp: signed_value_def)
qed

lemma compares_word: "compares F z c x y = compares_at (LENGTH('a)) F z c (uint x) (uint (y :: 'a::len word))"
proof -
  have "x - y - of_bool c = word_of_int (uint x - uint y - of_bool c)" by simp
  then have "uint (x - y - of_bool c) = (uint x - uint y - of_bool c) mod 2 ^ LENGTH('a)"
    by (metis uint_word_of_int)
  moreover have "(x - y - of_bool c = 0) = (uint (x - y - of_bool c) = 0)"
    by (rule uint_0_iff [symmetric])
  ultimately show ?thesis by (simp add: compares_def compares_at_def signed_value_sint)
qed

section \<open>Comparisons in parts\<close>

lemma eval_range: "0 \<le> eval_sd env v \<and> eval_sd env v < 2 ^ getSizeInBits (getValueType v)"
  by (cases v) (auto simp: getValueType_def getSizeInBits_def)

lemma step_less:
  fixes P :: int
  assumes "0 \<le> xl" "xl < P" "0 \<le> yl" "yl < P"
  shows "(xl + P * xh < yl + P * yh) = (xh < yh + of_bool (xl < yl))"
proof -
  consider "xh < yh" | "xh = yh" | "yh < xh" by linarith
  then show ?thesis
  proof cases
    case 1
    then have "P * (xh + 1) \<le> P * yh" using assms by (intro mult_left_mono) auto
    with 1 assms show ?thesis by (auto simp: distrib_left)
  next
    case 3
    then have "P * (yh + 1) \<le> P * xh" using assms by (intro mult_left_mono) auto
    with 3 assms show ?thesis by (auto simp: distrib_left)
  qed auto
qed

lemma signed_value_append:
  assumes "0 \<le> xl" "xl < 2 ^ m" "0 < n"
  shows "signed_value (m + n) (xl + 2 ^ m * xh) = xl + 2 ^ m * signed_value n xh"
proof -
  obtain k where n: "n = Suc k" using assms(3) by (cases n) auto
  have "(2 :: int) ^ (m + n) = 2 * (2 ^ m * 2 ^ k)" by (simp add: n power_add)
  then have "2 * (xl + 2 ^ m * xh) < 2 ^ (m + n) \<longleftrightarrow> xl + 2 ^ m * xh < 0 + 2 ^ m * 2 ^ k"
    by (simp only: mult_less_cancel_left_pos zero_less_numeral add_0)
  also have "\<dots> \<longleftrightarrow> xh < 2 ^ k"
    using step_less [of xl "2 ^ m" 0 xh "2 ^ k"] assms by simp
  also have "\<dots> \<longleftrightarrow> 2 * xh < 2 ^ n" by (simp add: n)
  finally show ?thesis by (simp add: signed_value_def power_add right_diff_distrib)
qed

lemma zero_diff:
  fixes x y M :: int
  assumes "0 \<le> x" "x < M" "0 \<le> y" "y < M"
  shows "(x - y) mod M = 0 \<longleftrightarrow> x = y"
  using assms mod_pos_pos_trivial [of "x - y" M] mod_pos_pos_trivial [of "x - y + M" M]
  by (cases "y \<le> x") auto

lemma compares_at_append:
  assumes "0 \<le> xl" "xl < 2 ^ m" "0 \<le> yl" "yl < 2 ^ m" "0 \<le> xh" "xh < 2 ^ n" "0 \<le> yh" "yh < 2 ^ n" "0 < n"
    and lo: "compares_at m F True False xl yl" and hi: "compares_at n G (Z_flag F) (C_flag F) xh yh"
  shows "compares_at (m + n) G True False (xl + 2 ^ m * xh) (yl + 2 ^ m * yh)"
proof -
  have C: "C_flag F = (xl < yl)" and Z: "Z_flag F = (xl = yl)"
    using lo assms(1-4) by (auto simp: compares_at_def zero_diff)
  have bound: "0 \<le> v + 2 ^ m * w \<and> v + 2 ^ m * w < 2 ^ (m + n)" if "0 \<le> v" "v < 2 ^ m" "0 \<le> w" "w < 2 ^ n" for v w :: int
    using step_less [of v "2 ^ m" 0 w "2 ^ n"] that by (simp add: power_add)
  have "(xl + 2 ^ m * xh - (yl + 2 ^ m * yh)) mod 2 ^ (m + n) = 0 \<longleftrightarrow> xl + 2 ^ m * xh = yl + 2 ^ m * yh"
    using bound [of xl xh] bound [of yl yh] assms by (intro zero_diff) auto
  also have "\<dots> \<longleftrightarrow> xl = yl \<and> xh = yh"
    using step_less [of xl "2 ^ m" yl xh yh] step_less [of yl "2 ^ m" xl yh xh] assms(1-4)
    by (auto split: if_splits simp: of_bool_def)
  also have "\<dots> \<longleftrightarrow> Z_flag F \<and> (xh - yh - of_bool (C_flag F)) mod 2 ^ n = 0"
    using assms(5-8) by (auto simp: Z C zero_diff)
  finally have "Z_flag G = ((xl + 2 ^ m * xh - (yl + 2 ^ m * yh)) mod 2 ^ (m + n) = 0)"
    using hi by (simp add: compares_at_def)
  moreover have "S_flag G = (signed_value n xh < signed_value n yh + of_bool (xl < yl))"
    using hi by (simp add: compares_at_def C)
  moreover have "C_flag G = (xh < yh + of_bool (xl < yl))"
    using hi by (simp add: compares_at_def C)
  ultimately show ?thesis
    using assms by (simp add: compares_at_def signed_value_append step_less)
qed

text \<open>The parts of a value, and the comparison of values by their parts.\<close>

lemma eval_extract [simp]:
  "eval_sd env (EXTRACT_ELEMENT VT v 0) = eval_sd env v mod 2 ^ getSizeInBits VT"
  "eval_sd env (EXTRACT_ELEMENT VT v 1) = eval_sd env v div 2 ^ getSizeInBits VT mod 2 ^ getSizeInBits VT"
  "getValueType (EXTRACT_ELEMENT VT v i) = VT"
  by (simp_all add: EXTRACT_ELEMENT_def node_value_def getValueType_def getSizeInBits_def [of VT_i16])

lemma compares_parts:
  assumes lo: "compares_at m F True False (x mod 2 ^ m) (y mod 2 ^ m)"
    and hi: "compares_at n G (Z_flag F) (C_flag F) (x div 2 ^ m) (y div 2 ^ m)"
    and "0 \<le> x" "x < 2 ^ (m + n)" "0 \<le> y" "y < 2 ^ (m + n)" "0 < n"
  shows "compares_at (m + n) G True False x y"
proof -
  have d: "0 \<le> v div 2 ^ m \<and> v div 2 ^ m < 2 ^ n" if "0 \<le> v" "v < 2 ^ (m + n)" for v :: int
  proof -
    have "v < 2 ^ n * 2 ^ m" using that by (simp add: power_add mult.commute)
    moreover have "v div 2 ^ m * 2 ^ m \<le> v" by (simp add: minus_mod_eq_div_mult [symmetric])
    ultimately have "v div 2 ^ m * 2 ^ m < 2 ^ n * 2 ^ m" by linarith
    then show ?thesis using that(1) by (simp add: pos_imp_zdiv_nonneg_iff)
  qed
  have "v = v mod 2 ^ m + 2 ^ m * (v div 2 ^ m)" for v :: int by simp
  with compares_at_append [OF _ _ _ _ _ _ _ _ assms(7) lo hi] d [of x] d [of y] assms(3-6)
  show ?thesis by auto
qed

lemma sizes [simp]:
  "getSizeInBits VT_i8 = 8" "getSizeInBits VT_i16 = 16" "getSizeInBits VT_i32 = 32" "getSizeInBits VT_i64 = 64"
  by (simp_all add: getSizeInBits_def)

lemma build_cmp_compares:
  assumes b: "build_cmp VT False l r = Inr g" and t: "getValueType l = VT" "getValueType r = VT"
    and g: "glue_flags env g F"
  shows "compares_at (getSizeInBits VT) F True False (eval_sd env l) (eval_sd env r)"
proof -
  let ?x = "eval_sd env l" and ?y = "eval_sd env r"
  have rx: "0 \<le> ?x" "?x < 2 ^ getSizeInBits VT" and ry: "0 \<le> ?y" "?y < 2 ^ getSizeInBits VT"
    using eval_range [of env l] eval_range [of env r] t by auto
  consider "VT = VT_i8 \<or> VT = VT_i16" | "VT = VT_i32" | "VT = VT_i64"
    using b by (auto simp: build_cmp_def split: if_splits)
  then show ?thesis
  proof cases
    case 1
    with b t g show ?thesis by (auto simp: build_cmp_def split: if_splits)
  next
    case 2
    have "?x div 2 ^ 16 mod 2 ^ 16 = ?x div 2 ^ 16" "?y div 2 ^ 16 mod 2 ^ 16 = ?y div 2 ^ 16"
      using rx ry 2 by (auto intro!: mod_pos_pos_trivial simp: pos_imp_zdiv_nonneg_iff)
    moreover obtain G where "compares_at 16 G True False (?x mod 2 ^ 16) (?y mod 2 ^ 16)"
      "compares_at 16 F (Z_flag G) (C_flag G) (?x div 2 ^ 16 mod 2 ^ 16) (?y div 2 ^ 16 mod 2 ^ 16)"
      using b g 2 by (auto simp: build_cmp_def)
    ultimately show ?thesis
      using compares_parts [of 16 G ?x ?y 16 F] rx ry 2 by simp
  next
    case 3
    have bits: "v mod 2 ^ 32 div 2 ^ 16 mod 2 ^ 16 = v mod 2 ^ 32 div 2 ^ 16"
      "v div 2 ^ 32 mod 2 ^ 32 mod 2 ^ 16 = v mod 2 ^ 48 div 2 ^ 32"
      "v mod 2 ^ 32 = v mod 2 ^ 48 mod 2 ^ 32"
      "v div 2 ^ 32 mod 2 ^ 32 div 2 ^ 16 mod 2 ^ 16 = v mod 2 ^ 64 div 2 ^ 48" for v :: int
      by (simp_all only: flip: take_bit_eq_mod drop_bit_eq_div) (simp_all add: drop_bit_take_bit min_def)
    have top: "v mod 2 ^ 64 = v" if "0 \<le> v" "v < 2 ^ 64" for v :: int
      using that by simp
    obtain G0 G1 G2 where
      c: "compares_at 16 G0 True False (?x mod 2 ^ 32 mod 2 ^ 16) (?y mod 2 ^ 32 mod 2 ^ 16)"
        "compares_at 16 G1 (Z_flag G0) (C_flag G0) (?x mod 2 ^ 32 div 2 ^ 16 mod 2 ^ 16) (?y mod 2 ^ 32 div 2 ^ 16 mod 2 ^ 16)"
        "compares_at 16 G2 (Z_flag G1) (C_flag G1) (?x div 2 ^ 32 mod 2 ^ 32 mod 2 ^ 16) (?y div 2 ^ 32 mod 2 ^ 32 mod 2 ^ 16)"
        "compares_at 16 F (Z_flag G2) (C_flag G2) (?x div 2 ^ 32 mod 2 ^ 32 div 2 ^ 16 mod 2 ^ 16)
           (?y div 2 ^ 32 mod 2 ^ 32 div 2 ^ 16 mod 2 ^ 16)"
      using b g 3 by (auto simp: build_cmp_def Let_def)
    note c1 = c(2) [unfolded bits(1)] and c2 = c(3) [unfolded bits(2)]
    have c3: "compares_at 16 F (Z_flag G2) (C_flag G2) (?x div 2 ^ 48) (?y div 2 ^ 48)"
      using c(4) [unfolded bits(4)] top [of ?x] top [of ?y] rx ry 3 by simp
    have "compares_at (16 + 16) G1 True False (?x mod 2 ^ 32) (?y mod 2 ^ 32)"
      by (rule compares_parts [OF c(1) c1]) simp_all
    then have "compares_at 32 G1 True False (?x mod 2 ^ 32) (?y mod 2 ^ 32)" by simp
    then have "compares_at 32 G1 True False (?x mod 2 ^ 48 mod 2 ^ 32) (?y mod 2 ^ 48 mod 2 ^ 32)"
      by (simp only: bits(3) [symmetric])
    from compares_parts [OF this c2] have "compares_at 48 G2 True False (?x mod 2 ^ 48) (?y mod 2 ^ 48)" by simp
    from compares_parts [OF this c3] show ?thesis using rx ry 3 by simp
  qed
qed

section \<open>Correctness\<close>

definition legal_types :: "evt list" where
  "legal_types = [VT_i8, VT_i16, VT_i32, VT_i64]"

definition integer_conds :: "isd_cond list" where
  "integer_conds = [SETEQ, SETNE, SETGT, SETGE, SETLT, SETLE, SETUGT, SETUGE, SETULT, SETULE]"

text \<open>
  The constants whose successor wraps around: \<open>x > INT_MAX\<close> becomes \<open>x >= INT_MIN\<close>, and
  unsigned \<open>x > UINT_MAX\<close> becomes \<open>x >= 0\<close>.
\<close>

definition wraps :: "isd_cond \<Rightarrow> sdvalue \<Rightarrow> bool" where
  "wraps CC RHS = (case RHS of
     SD_Constant c VT \<Rightarrow> (let n = getSizeInBits VT; v = uint c mod 2 ^ n
        in CC = SETGT \<and> 2 * (v + 1) = 2 ^ n \<or> CC = SETUGT \<and> v + 1 = 2 ^ n)
   | _ \<Rightarrow> False)"

lemma legal_size: "VT \<in> set legal_types \<Longrightarrow> 2 \<le> getSizeInBits VT \<and> getSizeInBits VT \<le> 64"
  by (auto simp: legal_types_def)

lemma uint_take_mod: "uint (take_bit n (w :: u64)) = uint w mod 2 ^ n"
  by (simp only: take_bit_eq_mod [symmetric] unsigned_take_bit_eq)

lemma sext_eq:
  fixes c w :: u64
  assumes "2 \<le> n" "n \<le> 64" and w: "signed_take_bit (n - 1) w = w"
  shows "signed_take_bit (n - 1) c = w \<longleftrightarrow> uint c mod 2 ^ n = uint w mod 2 ^ n"
proof -
  have t: "take_bit n (signed_take_bit (n - 1) v) = take_bit n v" for v :: u64
    using assms(1) by (simp add: take_bit_signed_take_bit)
  have s: "signed_take_bit (n - 1) (take_bit n v) = signed_take_bit (n - 1) v" for v :: u64
    using assms(1) by (cases n) (simp_all add: signed_take_bit_take_bit)
  have "signed_take_bit (n - 1) c = w \<longleftrightarrow> take_bit n c = take_bit n w"
    using t [of c] s [of c] s [of w] w by metis
  also have "\<dots> \<longleftrightarrow> uint c mod 2 ^ n = uint w mod 2 ^ n"
    by (simp add: word_uint_eq_iff uint_take_mod)
  finally show ?thesis .
qed

lemma getSExtValue_eq:
  assumes "VT \<in> set legal_types"
  defines "n \<equiv> getSizeInBits VT"
  shows "getSExtValue c VT = 0 \<longleftrightarrow> uint c mod 2 ^ n = 0"
    "getSExtValue c VT = 1 \<longleftrightarrow> uint c mod 2 ^ n = 1"
    "getSExtValue c VT = - 1 \<longleftrightarrow> uint c mod 2 ^ n = 2 ^ n - 1"
proof -
  have n: "2 \<le> n" "n \<le> 64" using legal_size [OF assms(1)] by (simp_all add: n_def)
  have p: "(2 :: int) < 2 ^ n \<or> n = 2" "(2::int) \<le> 2 ^ n"
    using n power_increasing [of 2 n "2 :: int"] by auto
  have one: "signed_take_bit (n - 1) (1 :: u64) = 1"
    using n by (cases "n - 1") auto
  have "(2 :: int) ^ n dvd 2 ^ 64" by (rule le_imp_power_dvd [OF n(2)])
  then have "uint (- 1 :: u64) mod 2 ^ n = (- 1) mod 2 ^ n"
    using mod_diff_left_eq [of "2 ^ 64" "2 ^ n" "1 :: int"]
    by (simp add: unsigned_minus_1_eq_mask mask_eq_exp_minus_1)
  then have m1: "uint (- 1 :: u64) mod 2 ^ n = 2 ^ n - 1" by (simp add: zmod_minus1)
  have m: "uint (1 :: u64) mod 2 ^ n = 1" using p n by (auto intro: mod_pos_pos_trivial)
  show "getSExtValue c VT = 0 \<longleftrightarrow> uint c mod 2 ^ n = 0"
    unfolding getSExtValue_def using sext_eq [OF n, of 0 c] by (simp add: n_def)
  show "getSExtValue c VT = 1 \<longleftrightarrow> uint c mod 2 ^ n = 1"
    unfolding getSExtValue_def using sext_eq [OF n one, of c] n by (simp add: n_def m [unfolded n_def])
  show "getSExtValue c VT = - 1 \<longleftrightarrow> uint c mod 2 ^ n = 2 ^ n - 1"
    unfolding getSExtValue_def using sext_eq [OF n, of "- 1" c] by (simp add: n_def m1 [unfolded n_def])
qed

text \<open>The successor of a constant fits, and has the value one more, modulo the size.\<close>

lemma succ_fits:
  fixes c :: u64
  assumes "2 \<le> n" "n < 64"
  shows "signed_drop_bit n (signed_take_bit (n - 1) c + 1) + 1 < 2"
proof -
  let ?k = "signed_take_bit (n - 1) (uint c)"
  have n: "n = Suc (n - 1)" using assms by simp
  have "signed_take_bit (n - 1) c = word_of_int ?k"
    using assms by (intro bit_word_eqI) (auto simp: bit_simps min_def)
  then have x: "signed_take_bit (n - 1) c + 1 = word_of_int (?k + 1)" by simp
  have p: "(2 :: int) ^ n = 2 * 2 ^ (n - 1)" by (subst n) simp
  have k: "- (2 ^ (n - 1)) \<le> ?k" "?k < 2 ^ (n - 1)" by simp_all
  have le: "(2 :: int) ^ (n - 1) < 2 ^ 63" using assms by (intro power_strict_increasing) auto
  then have "- (2 ^ 63) \<le> ?k + 1" "?k + 1 < 2 ^ 63" using k by linarith+
  then have "signed_take_bit 63 (?k + 1) = ?k + 1" by (rule signed_take_bit_int_eq_self)
  then have s: "sint (word_of_int (?k + 1) :: u64) = ?k + 1" by (subst sint_sbintrunc') simp
  have "0 < (2 :: int) ^ (n - 1)" by simp
  then have b: "- (2 ^ n) \<le> ?k + 1" "?k + 1 < 2 ^ n" using k p by linarith+
  have "(?k + 1) div 2 ^ n = 0 \<or> (?k + 1) div 2 ^ n = - 1"
  proof (cases "0 \<le> ?k + 1")
    case True
    then show ?thesis using b(2) div_pos_pos_trivial by blast
  next
    case False
    have "?k + 1 = 2 ^ n * (- 1) + (?k + 1 + 2 ^ n)" "0 \<le> ?k + 1 + 2 ^ n" "?k + 1 + 2 ^ n < 2 ^ n"
      using False b by simp_all
    then show ?thesis by (blast intro: int_div_pos_eq)
  qed
  then have "sint (signed_drop_bit n (word_of_int (?k + 1) :: u64)) \<in> {0, - 1}"
    unfolding sint_signed_drop_bit_eq s drop_bit_eq_div by blast
  then have "signed_drop_bit n (word_of_int (?k + 1) :: u64) \<in> {0, - 1}"
    by (auto intro: signed_word_eqI)
  then have "y + 1 < 2" if "y = signed_drop_bit n (word_of_int (?k + 1) :: u64)" for y
    using that by (elim insertE) simp_all
  then show ?thesis unfolding x by blast
qed

lemma getConstant_value:
  assumes VT: "VT \<in> set legal_types"
  shows "getConstant 0 VT = Inr (SD_Constant 0 VT)"
    "\<exists>d. getConstant (getSExtValue c VT + 1) VT = Inr (SD_Constant d VT)
      \<and> uint d mod 2 ^ getSizeInBits VT = (uint c mod 2 ^ getSizeInBits VT + 1) mod 2 ^ getSizeInBits VT"
proof -
  let ?n = "getSizeInBits VT"
  note n = legal_size [OF VT]
  show "getConstant 0 VT = Inr (SD_Constant 0 VT)" by (simp add: getConstant_def)
  have ok: "64 \<le> ?n \<or> signed_drop_bit ?n (getSExtValue c VT + 1) + 1 < 2"
    using succ_fits [of ?n c] n by (cases "?n < 64") (auto simp: getSExtValue_def)
  have dvd: "(2 :: int) ^ ?n dvd 2 ^ 64" using n by (intro le_imp_power_dvd) simp
  have "uint (getSExtValue c VT + 1) mod 2 ^ ?n = (uint (getSExtValue c VT) + 1) mod 2 ^ ?n"
    using dvd by (simp add: uint_word_ariths mod_mod_cancel)
  also have "\<dots> = (uint (getSExtValue c VT) mod 2 ^ ?n + 1) mod 2 ^ ?n"
    by (simp add: mod_add_left_eq)
  also have "uint (getSExtValue c VT) mod 2 ^ ?n = uint c mod 2 ^ ?n"
    using n by (simp add: getSExtValue_def take_bit_signed_take_bit flip: uint_take_mod)
  finally have v: "uint (getSExtValue c VT + 1) mod 2 ^ ?n = (uint c mod 2 ^ ?n + 1) mod 2 ^ ?n" .
  then have "uint (take_bit ?n (getSExtValue c VT + 1)) mod 2 ^ ?n = (uint c mod 2 ^ ?n + 1) mod 2 ^ ?n"
    by (simp only: uint_take_mod mod_mod_trivial)
  with ok show "\<exists>d. getConstant (getSExtValue c VT + 1) VT = Inr (SD_Constant d VT)
      \<and> uint d mod 2 ^ ?n = (uint c mod 2 ^ ?n + 1) mod 2 ^ ?n"
    by (simp add: getConstant_def)
qed

text \<open>The adjusted comparison asks the same, with a condition that has a code.\<close>

definition coded_conds :: "isd_cond list" where
  "coded_conds = [SETEQ, SETNE, SETGE, SETLT, SETUGE, SETULT]"

lemma coded_holds:
  assumes "compares_at n F True False x y" "0 \<le> x" "x < 2 ^ n" "0 \<le> y" "y < 2 ^ n" "CC \<in> set coded_conds"
  shows "\<exists>cc. intCCToSNESCC CC = Inr cc \<and> cond_holds F cc = isd_holds CC n x y"
  using assms
  by (auto simp: coded_conds_def intCCToSNESCC_def cond_holds_def isd_holds_def compares_at_def zero_diff)

definition adjusted :: "(nat \<Rightarrow> int) \<Rightarrow> sdvalue \<Rightarrow> sdvalue \<Rightarrow> isd_cond \<Rightarrow> sdvalue \<times> sdvalue \<times> isd_cond \<times> CondCodes option \<Rightarrow> bool" where
  "adjusted env LHS RHS CC = (\<lambda>(L, R, CC', test).
     let n = getSizeInBits (getValueType LHS); x = eval_sd env LHS; y = eval_sd env RHS
     in case test of
          None \<Rightarrow> getValueType L = getValueType LHS \<and> getValueType R = getValueType LHS
            \<and> CC' \<in> set coded_conds \<and> isd_holds CC' n (eval_sd env L) (eval_sd env R) = isd_holds CC n x y
        | Some cc \<Rightarrow> L = LHS \<and> (\<forall>F. N_flag F = (2 ^ n \<le> 2 * x) \<longrightarrow> cond_holds F cc = isd_holds CC n x y))"

lemma signed_value_const:
  "2 \<le> n \<Longrightarrow> signed_value n 0 = 0" "2 \<le> n \<Longrightarrow> signed_value n 1 = 1"
  "2 \<le> n \<Longrightarrow> signed_value n (2 ^ n - 1) = - 1"
proof -
  assume n: "2 \<le> n"
  have "(2 :: int) ^ 2 \<le> 2 ^ n" using n by (rule power_increasing) simp
  then show "signed_value n 0 = 0" "signed_value n 1 = 1" "signed_value n (2 ^ n - 1) = - 1"
    by (simp_all add: signed_value_def)
qed

lemma adjust_cmp_const:
  assumes VT: "VT \<in> set legal_types" and t: "getValueType LHS = VT" and R: "RHS = SD_Constant c VT"
    and CC: "CC \<in> set integer_conds" and w: "\<not> wraps CC RHS"
  shows "\<exists>r. adjust_cmp LHS RHS CC = Inr r \<and> adjusted env LHS RHS CC r"
proof -
  let ?n = "getSizeInBits VT" and ?x = "eval_sd env LHS"
  let ?v = "uint c mod 2 ^ ?n"
  have n: "2 \<le> ?n" using legal_size [OF VT] by simp
  have x: "0 \<le> ?x" "?x < 2 ^ ?n" using eval_range [of env LHS] t by auto
  have v: "0 \<le> ?v" "?v < 2 ^ ?n" by simp_all
  have r: "getValueType RHS = VT" by (simp add: R getValueType_def)
  have ev: "eval_sd env RHS = ?v" by (simp add: R)
  have ez: "eval_sd env (SD_Constant 0 VT) = 0" "getValueType (SD_Constant d VT) = VT" for d
    by (simp_all add: getValueType_def)
  obtain d where d: "getConstant (getSExtValue c VT + 1) VT = Inr (SD_Constant d VT)"
    "uint d mod 2 ^ ?n = (?v + 1) mod 2 ^ ?n"
    using getConstant_value(2) [OF VT, of c] by auto
  note sx = getSExtValue_eq [OF VT, of c] signed_value_const [OF n]
  have test: "(2 ^ ?n \<le> 2 * ?x) = (signed_value ?n ?x < 0)"
    using x by (auto simp: signed_value_def)
  show ?thesis
  proof (cases "CC = SETGT \<or> CC = SETUGT \<or> CC = SETLT")
    case False
    with CC show ?thesis
      by (auto simp: integer_conds_def adjust_cmp_def adjusted_def t r coded_conds_def isd_holds_def)
  next
    case True
    then consider "CC = SETGT" | "CC = SETUGT" | "CC = SETLT" by blast
    then show ?thesis
    proof cases
      case 1
      have s: "signed_value ?n ((?v + 1) mod 2 ^ ?n) = signed_value ?n ?v + 1" if "?v \<noteq> 2 ^ ?n - 1"
      proof -
        have "(?v + 1) mod 2 ^ ?n = ?v + 1" by (rule mod_pos_pos_trivial) (use v that in linarith)+
        moreover have "2 * (?v + 1) \<noteq> 2 ^ ?n" using w 1 by (auto simp: wraps_def R Let_def)
        moreover obtain k where "(2 :: int) ^ ?n = 2 * k"
          using n by (metis power_Suc Suc_diff_le Suc_1 diff_Suc_1 le_add_diff_inverse plus_1_eq_Suc Suc_le_D)
        ultimately show ?thesis by (auto simp: signed_value_def)
      qed
      show ?thesis
        using s
        by (auto simp: adjust_cmp_def 1 R t sx getConstant_value(1) [OF VT] d adjusted_def ez(2) Let_def
            coded_conds_def isd_holds_def cond_holds_def test)
    next
      case 2
      have "?v + 1 \<noteq> 2 ^ ?n" using w 2 by (auto simp: wraps_def R Let_def)
      then have "(?v + 1) mod 2 ^ ?n = ?v + 1"
        by (intro mod_pos_pos_trivial) (use v in linarith)+
      then show ?thesis
        by (auto simp: adjust_cmp_def 2 R t d adjusted_def ez(2) Let_def coded_conds_def isd_holds_def)
    next
      case 3
      then show ?thesis
        by (auto simp: adjust_cmp_def R t sx getConstant_value(1) [OF VT] adjusted_def ez(2) Let_def
            coded_conds_def isd_holds_def cond_holds_def test)
    qed
  qed
qed

lemma adjust_cmp_plain:
  assumes t: "getValueType LHS = VT" "getValueType RHS = VT" and R: "\<nexists>c T. RHS = SD_Constant c T"
    and CC: "CC \<in> set integer_conds"
  shows "\<exists>r. adjust_cmp LHS RHS CC = Inr r \<and> adjusted env LHS RHS CC r"
  using CC R t
  by (cases RHS) (auto simp: integer_conds_def adjust_cmp_def adjusted_def coded_conds_def isd_holds_def Let_def)

lemma adjust_cmp_ok:
  assumes "VT \<in> set legal_types" "getValueType LHS = VT" "getValueType RHS = VT" "CC \<in> set integer_conds"
    "\<not> wraps CC RHS"
  shows "\<exists>r. adjust_cmp LHS RHS CC = Inr r \<and> adjusted env LHS RHS CC r"
proof (cases "\<exists>c T. RHS = SD_Constant c T")
  case True
  then obtain c where "RHS = SD_Constant c VT" using assms(3) by (auto simp: getValueType_def)
  with adjust_cmp_const assms show ?thesis by blast
next
  case False
  with adjust_cmp_plain assms show ?thesis by blast
qed

lemma flags_exist: "\<exists>F. compares_at n F z c x y"
proof -
  let ?F = "\<lparr>C_flag = x < y + of_bool c, Z_flag = z \<and> (x - y - of_bool c) mod 2 ^ n = 0,
    N_flag = signed_value n x < signed_value n y + of_bool c, V_flag = False\<rparr>"
  have "compares_at n ?F z c x y" by (simp add: compares_at_def S_flag_def)
  then show ?thesis ..
qed

lemma glue_exists:
  "\<exists>F. glue_flags env (CMP_node l r) F" "\<exists>F. glue_flags env (TST_node v) F"
  "\<exists>F. glue_flags env g F \<Longrightarrow> \<exists>F. glue_flags env (CMPC_node l r g) F"
  using flags_exist apply (auto simp del: eval_sd.simps)
  subgoal by (rule exI [of _ "\<lparr>C_flag = False, Z_flag = False, N_flag = 2 ^ getSizeInBits (getValueType v) \<le> 2 * eval_sd env v, V_flag = False\<rparr>"]) simp
  subgoal by blast
  done

lemma build_cmp_exists: "build_cmp VT t l r = Inr g \<Longrightarrow> \<exists>F. glue_flags env g F"
  by (auto simp only: build_cmp_def Let_def sum.inject split: if_splits intro: glue_exists)

lemma build_cmp_test:
  assumes "build_cmp VT True l r = Inr g" "getValueType l = VT" "glue_flags env g F"
  shows "N_flag F = (2 ^ getSizeInBits VT \<le> 2 * eval_sd env l)"
proof -
  let ?x = "eval_sd env l"
  have x: "0 \<le> ?x" "?x < 2 ^ getSizeInBits VT" using eval_range [of env l] assms(2) by auto
  have top: "256 \<le> 2 * (v div M) \<longleftrightarrow> 256 * M \<le> 2 * v" if "0 < M" for v M :: int
  proof -
    have "128 \<le> v div M \<longleftrightarrow> 128 * M \<le> v" (is "?l = ?r")
    proof
      assume ?l
      then have "128 * M \<le> v div M * M" using that by (intro mult_right_mono) auto
      also have "\<dots> \<le> v" by (simp add: minus_mod_eq_div_mult [symmetric] that)
      finally show ?r .
    next
      assume ?r
      then have "128 * M div M \<le> v div M" using that by (rule zdiv_mono1)
      then show ?l using that by simp
    qed
    then show ?thesis by linarith
  qed
  consider "VT = VT_i8" | "VT = VT_i16" | "VT = VT_i32" | "VT = VT_i64"
    using assms(1) by (auto simp: build_cmp_def split: if_splits)
  then show ?thesis
  proof cases
    case 1
    with assms show ?thesis by (auto simp: build_cmp_def)
  next
    case 2
    then have "?x div 2 ^ 8 mod 2 ^ 8 = ?x div 2 ^ 8" using x by (auto intro!: mod_pos_pos_trivial simp: pos_imp_zdiv_nonneg_iff)
    with 2 assms show ?thesis using top [of "2 ^ 8" ?x] by (auto simp: build_cmp_def)
  next
    case 3
    have "?x div 2 ^ 16 mod 2 ^ 16 div 2 ^ 8 mod 2 ^ 8 = ?x mod 2 ^ 32 div 2 ^ 24"
      by (simp_all only: flip: take_bit_eq_mod drop_bit_eq_div) (simp_all add: drop_bit_take_bit min_def)
    also have "\<dots> = ?x div 2 ^ 24" using x 3 by simp
    finally have "N_flag F = (2 ^ 8 \<le> 2 * (?x div 2 ^ 24))"
      using 3 assms(1,3) by (simp only: build_cmp_def Let_def) (auto simp only: glue_inv eval_extract sizes simp_thms if_True if_False sum.inject evt.distinct)
    then show ?thesis using top [of "2 ^ 24" ?x] 3 by simp
  next
    case 4
    have "?x div 2 ^ 32 mod 2 ^ 32 div 2 ^ 16 mod 2 ^ 16 div 2 ^ 8 mod 2 ^ 8 = ?x mod 2 ^ 64 div 2 ^ 56"
      by (simp_all only: flip: take_bit_eq_mod drop_bit_eq_div) (simp_all add: drop_bit_take_bit min_def)
    also have "\<dots> = ?x div 2 ^ 56" using x 4 by simp
    finally have "N_flag F = (2 ^ 8 \<le> 2 * (?x div 2 ^ 56))"
      using 4 assms(1,3) by (simp only: build_cmp_def Let_def) (auto simp only: glue_inv eval_extract sizes simp_thms if_True if_False sum.inject evt.distinct)
    then show ?thesis using top [of "2 ^ 56" ?x] 4 by simp
  qed
qed

lemma build_cmp_ok: "VT \<in> set legal_types \<Longrightarrow> \<exists>g. build_cmp VT t l r = Inr g"
  by (auto simp: legal_types_def build_cmp_def Let_def)

text \<open>The constants whose successor does not wrap around.\<close>

lemma cmp_no_wrap:
  assumes "VT \<in> set legal_types" "getValueType LHS = VT" "getValueType RHS = VT"
    and "CC \<in> set integer_conds" "\<not> wraps CC RHS"
  shows "\<exists>Cmp cc. getSNESCmp LHS RHS CC = Inr (Cmp, cc) \<and> (\<exists>F. glue_flags env Cmp F)
    \<and> (\<forall>F. glue_flags env Cmp F \<longrightarrow>
        cond_holds F cc = isd_holds CC (getSizeInBits VT) (eval_sd env LHS) (eval_sd env RHS))"
proof -
  obtain L R CC' test where a: "adjust_cmp LHS RHS CC = Inr (L, R, CC', test)"
    and ad: "adjusted env LHS RHS CC (L, R, CC', test)"
    using adjust_cmp_ok [OF assms, of env] by auto
  obtain g where g: "build_cmp VT (test \<noteq> None) L R = Inr g"
    using build_cmp_ok [OF assms(1)] by blast
  show ?thesis
  proof (cases test)
    case (Some cc)
    with ad have L: "L = LHS" by (simp add: adjusted_def Let_def)
    have "\<forall>F. glue_flags env g F \<longrightarrow> cond_holds F cc = isd_holds CC (getSizeInBits VT) (eval_sd env LHS) (eval_sd env RHS)"
      using build_cmp_test [of VT L R g env] g Some ad L assms(2) by (auto simp: adjusted_def Let_def)
    then show ?thesis
      using a g Some build_cmp_exists [OF g] assms(2) by (simp add: getSNESCmp_def)
  next
    case None
    with ad assms(2) have n: "getValueType L = VT" "getValueType R = VT" "CC' \<in> set coded_conds"
      "isd_holds CC' (getSizeInBits VT) (eval_sd env L) (eval_sd env R)
        = isd_holds CC (getSizeInBits VT) (eval_sd env LHS) (eval_sd env RHS)"
      by (auto simp: adjusted_def Let_def)
    from n(3) obtain cc where cc: "intCCToSNESCC CC' = Inr cc"
      by (auto simp: coded_conds_def intCCToSNESCC_def)
    have "cond_holds F cc = isd_holds CC (getSizeInBits VT) (eval_sd env LHS) (eval_sd env RHS)"
      if "glue_flags env g F" for F
      using coded_holds [OF build_cmp_compares [OF _ n(1,2) that], of CC'] g None n cc
        eval_range [of env L] eval_range [of env R] by auto
    then show ?thesis
      using a g None cc build_cmp_exists [OF g] assms(2) by (auto simp: getSNESCmp_def)
  qed
qed

text \<open>
  For the others the comparison always holds, although the condition of the program never
  does: the successor of the largest signed (for \<open>SETGT\<close>) or unsigned (for \<open>SETUGT\<close>)
  constant is the smallest one.
\<close>

lemma cmp_wrap:
  assumes VT: "VT \<in> set legal_types" and t: "getValueType LHS = VT" "getValueType RHS = VT"
    and w: "wraps CC RHS"
  shows "\<exists>Cmp cc. getSNESCmp LHS RHS CC = Inr (Cmp, cc) \<and> (\<exists>F. glue_flags env Cmp F)
    \<and> (\<forall>F. glue_flags env Cmp F \<longrightarrow> cond_holds F cc)
    \<and> \<not> isd_holds CC (getSizeInBits VT) (eval_sd env LHS) (eval_sd env RHS)"
proof -
  let ?n = "getSizeInBits VT" and ?x = "eval_sd env LHS"
  obtain c where R: "RHS = SD_Constant c VT"
    using w t(2) by (auto simp: wraps_def getValueType_def split: sdvalue.splits)
  let ?v = "uint c mod 2 ^ ?n"
  have x: "0 \<le> ?x" "?x < 2 ^ ?n" using eval_range [of env LHS] t by auto
  have "(2 :: int) ^ 8 \<le> 2 ^ ?n" using VT by (intro power_increasing) (auto simp: legal_types_def)
  then have n: "256 \<le> (2 :: int) ^ ?n" by simp
  obtain d where d: "getConstant (getSExtValue c VT + 1) VT = Inr (SD_Constant d VT)"
    "uint d mod 2 ^ ?n = (?v + 1) mod 2 ^ ?n"
    using getConstant_value(2) [OF VT, of c] by auto
  obtain g where g: "build_cmp VT False LHS (SD_Constant d VT) = Inr g" using build_cmp_ok [OF VT] by blast
  have cmp: "compares_at ?n F True False ?x ((?v + 1) mod 2 ^ ?n)" if "glue_flags env g F" for F
    using build_cmp_compares [OF g t(1) _ that] d(2) by (simp add: getValueType_def)
  consider "CC = SETGT" "2 * (?v + 1) = 2 ^ ?n" | "CC = SETUGT" "?v + 1 = 2 ^ ?n"
    using w by (auto simp: wraps_def R Let_def)
  then show ?thesis
  proof cases
    case 1
    have "?v \<noteq> 0 \<and> ?v \<noteq> 2 ^ ?n - 1 \<and> (?v + 1) mod 2 ^ ?n = ?v + 1"
    proof -
      have arith: "w \<noteq> 0 \<and> w \<noteq> M - 1 \<and> 0 \<le> w + 1 \<and> w + 1 < M" if "2 * (w + 1) = M" "256 \<le> M" for w M :: int
        using that by auto
      show ?thesis using arith [OF 1(2) n] by (simp add: mod_pos_pos_trivial)
    qed
    moreover have "signed_value ?n (?v + 1) \<le> signed_value ?n ?x" "\<not> signed_value ?n ?v < signed_value ?n ?x"
      using 1(2) x by (auto simp: signed_value_def)
    moreover from calculation have "getSNESCmp LHS RHS CC = Inr (g, COND_GE)"
      using g d(1) getSExtValue_eq [OF VT, of c] t
      by (simp add: getSNESCmp_def adjust_cmp_def 1(1) R Let_def intCCToSNESCC_def)
    ultimately show ?thesis
      using cmp build_cmp_exists [OF g] by (auto simp: 1(1) R cond_holds_def compares_at_def isd_holds_def)
  next
    case 2
    have "getSNESCmp LHS RHS CC = Inr (g, COND_SH)"
      using g d(1) t by (simp add: getSNESCmp_def adjust_cmp_def 2(1) R Let_def intCCToSNESCC_def)
    then show ?thesis
      using cmp x 2(2) build_cmp_exists [OF g] by (auto simp: 2(1) R cond_holds_def compares_at_def isd_holds_def)
  qed
qed

text \<open>
  Property C3. Lowering a comparison of integers of 8, 16, 32 or 64 bits succeeds: by one
  comparison, by a chain that carries the borrow through the parts, or by a test of the top
  byte. Whatever flags the comparison nodes leave, the condition code holds exactly when the
  condition of the program does, except for \<open>x > C\<close> with \<open>C\<close> the largest signed constant
  and unsigned \<open>x > C\<close> with \<open>C\<close> the largest unsigned constant of the type: the condition
  of the program is then false for every \<open>x\<close>, and the condition code always holds.
\<close>

theorem getSNESCmp_correct:
  assumes "VT \<in> set legal_types" "getValueType LHS = VT" "getValueType RHS = VT"
    and "CC \<in> set integer_conds"
  shows "\<exists>Cmp cc. getSNESCmp LHS RHS CC = Inr (Cmp, cc) \<and> (\<exists>F. glue_flags env Cmp F)
    \<and> (\<forall>F. glue_flags env Cmp F \<longrightarrow>
        cond_holds F cc = (isd_holds CC (getSizeInBits VT) (eval_sd env LHS) (eval_sd env RHS) \<or> wraps CC RHS))
    \<and> (wraps CC RHS \<longrightarrow> \<not> isd_holds CC (getSizeInBits VT) (eval_sd env LHS) (eval_sd env RHS))"
proof (cases "wraps CC RHS")
  case True
  with cmp_wrap [OF assms(1-3), of CC env] show ?thesis by fastforce
next
  case False
  with cmp_no_wrap [OF assms, of env] show ?thesis by fastforce
qed

lemma getSNESCmp_correct_witness:
  "\<exists>Cmp cc. getSNESCmp (SD_Value 0 VT_i32) (SD_Constant 7 VT_i32) SETGT = Inr (Cmp, cc)
     \<and> (\<exists>F. glue_flags (\<lambda>_. - 3) Cmp F \<and> \<not> cond_holds F cc)"
proof -
  have "\<not> wraps SETGT (SD_Constant 7 VT_i32)" by (simp add: wraps_def Let_def)
  moreover have "\<not> isd_holds SETGT 32 (eval_sd (\<lambda>_. - 3) (SD_Value 0 VT_i32)) (eval_sd (\<lambda>_. - 3) (SD_Constant 7 VT_i32))"
    by (simp add: isd_holds_def signed_value_def)
  ultimately show ?thesis
    using getSNESCmp_correct [of VT_i32 "SD_Value 0 VT_i32" "SD_Constant 7 VT_i32" SETGT "\<lambda>_. - 3"]
    by (auto simp: legal_types_def integer_conds_def getValueType_def simp del: eval_sd.simps)
qed

end
