(* ===== verification/ISel_Lower.thy ===== *)
theory ISel_Lower
  imports ISel_Compare
begin

unbundle bit_operations_syntax

text \<open>
  The rest of the custom lowering of \<open>SNESISelLowering.cpp\<close>: shifts and rotations, division,
  addresses, variable arguments, the dispatch of \<open>LowerOperation\<close> and
  \<open>ReplaceNodeResults\<close>, and the addressing modes. \<open>TargetLowering::LowerCallTo\<close>, which
  builds the nodes of a call, is the parameter \<open>LowerCallTo\<close>.
\<close>

section \<open>Shifts\<close>

definition shift_ops :: "isd_op list" where
  "shift_ops = [ISD_SHL, ISD_SRA, ISD_SRL, ISD_ROTL, ISD_ROTR]"

text \<open>The node that a shift of non-constant amount becomes, and the single step of a constant one.\<close>

definition shift_loop_node :: "isd_op \<Rightarrow> isd_op outcome" where
  "shift_loop_node op = (case op of
     ISD_SHL \<Rightarrow> Inr SNESISD_LSLLOOP | ISD_SRL \<Rightarrow> Inr SNESISD_LSRLOOP
   | ISD_ROTL \<Rightarrow> Inr SNESISD_ROLLOOP | ISD_ROTR \<Rightarrow> Inr SNESISD_RORLOOP
   | ISD_SRA \<Rightarrow> Inr SNESISD_ASRLOOP
   | _ \<Rightarrow> Inl (Unreachable ''Invalid shift opcode!''))"

definition shift_step_node :: "isd_op \<Rightarrow> isd_op outcome" where
  "shift_step_node op = (case op of
     ISD_SRA \<Rightarrow> Inr SNESISD_ASR | ISD_ROTL \<Rightarrow> Inr SNESISD_ROL | ISD_ROTR \<Rightarrow> Inr SNESISD_ROR
   | ISD_SRL \<Rightarrow> Inr SNESISD_LSR | ISD_SHL \<Rightarrow> Inr SNESISD_LSL
   | _ \<Rightarrow> Inl (Unreachable ''Invalid shift opcode''))"

fun shift_steps :: "isd_op \<Rightarrow> evt \<Rightarrow> nat \<Rightarrow> sdvalue \<Rightarrow> sdvalue" where
  "shift_steps Opc8 VT 0 Victim = Victim"
| "shift_steps Opc8 VT (Suc n) Victim = shift_steps Opc8 VT n (SD_Node Opc8 VT [Victim])"

definition LowerShifts :: "isd_op \<Rightarrow> evt \<Rightarrow> sdvalue \<Rightarrow> sdvalue \<Rightarrow> sdvalue outcome" where
  "LowerShifts op VT Victim Amount = (case Amount of
     SD_Constant c CVT \<Rightarrow>
       obind (shift_step_node op) (\<lambda>Opc8.
         Inr (shift_steps Opc8 VT (unat (getZExtValue c CVT)) Victim))
   | _ \<Rightarrow> obind (shift_loop_node op) (\<lambda>Opc. Inr (SD_Node Opc VT [Victim, Amount])))"

section \<open>Division with remainder\<close>

text \<open>The run-time functions, by the names that the constructor registers.\<close>

definition divrem_libcall :: "bool \<Rightarrow> evt \<Rightarrow> string outcome" where
  "divrem_libcall IsSigned VT = (case VT of
     VT_i8 \<Rightarrow> Inr (if IsSigned then ''__divmodqi4'' else ''__udivmodqi4'')
   | VT_i16 \<Rightarrow> Inr (if IsSigned then ''__divmodhi4'' else ''__udivmodhi4'')
   | VT_i32 \<Rightarrow> Inr (if IsSigned then ''__divmodsi4'' else ''__udivmodsi4'')
   | VT_i64 \<Rightarrow> Inr (if IsSigned then ''__divmoddi4'' else ''__udivmoddi4'')
   | _ \<Rightarrow> Inl (Unreachable ''Unexpected request for libcall!''))"

record call_arg =
  arg_Node :: sdvalue
  arg_IsSExt :: bool
  arg_IsZExt :: bool

record call_lowering =
  cli_Callee :: string
  cli_RetTy :: "evt list"
  cli_Args :: "call_arg list"
  cli_InReg :: bool
  cli_RetSExt :: bool
  cli_RetZExt :: bool

definition LowerDivRem ::
  "(call_lowering \<Rightarrow> sdvalue) \<Rightarrow> isd_op \<Rightarrow> evt \<Rightarrow> sdvalue list \<Rightarrow> sdvalue outcome" where
  "LowerDivRem LowerCallTo op VT ops =
     asserting (op = ISD_SDIVREM \<or> op = ISD_UDIVREM) ''Invalid opcode for Div/Rem lowering''
       (let IsSigned = (op = ISD_SDIVREM) in
        obind (divrem_libcall IsSigned VT) (\<lambda>Callee.
          Inr (LowerCallTo \<lparr>cli_Callee = Callee, cli_RetTy = [VT, VT],
            cli_Args = List.map (\<lambda>v. \<lparr>arg_Node = v, arg_IsSExt = IsSigned, arg_IsZExt = \<not> IsSigned\<rparr>) ops,
            cli_InReg = True, cli_RetSExt = IsSigned, cli_RetZExt = \<not> IsSigned\<rparr>)))"

section \<open>Addresses\<close>

definition LowerGlobalAddress :: "global_value \<Rightarrow> u64 \<Rightarrow> sdvalue" where
  "LowerGlobalAddress GV Offset = SD_Node SNESISD_WRAPPER VT_i16 [SD_TargetGlobalAddress GV Offset]"

definition LowerBlockAddress :: "string \<Rightarrow> sdvalue" where
  "LowerBlockAddress BA = SD_Node SNESISD_WRAPPER VT_i16 [SD_TargetBlockAddress BA]"

definition LowerVASTART :: "int \<Rightarrow> sdvalue \<Rightarrow> sdvalue \<Rightarrow> sdvalue" where
  "LowerVASTART VarArgsFI Chain Ptr =
     SD_Node ISD_STORE VT_Other [Chain, SD_FrameIndex VarArgsFI VT_i16, Ptr]"

section \<open>Dispatch\<close>

definition bad_operand :: "'a outcome" where
  "bad_operand = Inl (Assertion ''Invalid child # of SDNode!'')"

text \<open>The operands of the nodes that hold a condition code.\<close>

fun br_cc_operands :: "sdvalue list \<Rightarrow> (sdvalue \<times> isd_cond \<times> sdvalue \<times> sdvalue \<times> sdvalue) option" where
  "br_cc_operands [Chain, SD_CondCode CC, LHS, RHS, Dest] = Some (Chain, CC, LHS, RHS, Dest)"
| "br_cc_operands _ = None"

fun select_cc_operands :: "sdvalue list \<Rightarrow> (sdvalue \<times> sdvalue \<times> sdvalue \<times> sdvalue \<times> isd_cond) option" where
  "select_cc_operands [LHS, RHS, TrueV, FalseV, SD_CondCode CC] = Some (LHS, RHS, TrueV, FalseV, CC)"
| "select_cc_operands _ = None"

fun setcc_operands :: "sdvalue list \<Rightarrow> (sdvalue \<times> sdvalue \<times> isd_cond) option" where
  "setcc_operands [LHS, RHS, SD_CondCode CC] = Some (LHS, RHS, CC)"
| "setcc_operands _ = None"

fun_cases br_cc_operands_SomeE: "br_cc_operands ops = Some r"
fun_cases select_cc_operands_SomeE: "select_cc_operands ops = Some r"
fun_cases setcc_operands_SomeE: "setcc_operands ops = Some r"

definition LowerOperation :: "int \<Rightarrow> (call_lowering \<Rightarrow> sdvalue) \<Rightarrow> sdvalue \<Rightarrow> sdvalue outcome" where
  "LowerOperation VarArgsFI LowerCallTo Op = (case Op of
     SD_GlobalAddress GV Offset \<Rightarrow> Inr (LowerGlobalAddress GV Offset)
   | SD_BlockAddress BA \<Rightarrow> Inr (LowerBlockAddress BA)
   | SD_Node op VT ops \<Rightarrow>
       if op \<in> set shift_ops
       then (case ops of [v, amt] \<Rightarrow> LowerShifts op VT v amt | _ \<Rightarrow> bad_operand)
       else (case op of
         ISD_BR_CC \<Rightarrow> (case br_cc_operands ops of
             Some (Chain, CC, LHS, RHS, Dest) \<Rightarrow> LowerBR_CC Chain CC LHS RHS Dest | None \<Rightarrow> bad_operand)
       | ISD_SELECT_CC \<Rightarrow> (case select_cc_operands ops of
             Some (LHS, RHS, TrueV, FalseV, CC) \<Rightarrow> LowerSELECT_CC VT LHS RHS TrueV FalseV CC
           | None \<Rightarrow> bad_operand)
       | ISD_SETCC \<Rightarrow> (case setcc_operands ops of
             Some (LHS, RHS, CC) \<Rightarrow> LowerSETCC VT LHS RHS CC | None \<Rightarrow> bad_operand)
       | ISD_VASTART \<Rightarrow> (case ops of
             [Chain, Ptr, _] \<Rightarrow> Inr (LowerVASTART VarArgsFI Chain Ptr) | _ \<Rightarrow> bad_operand)
       | ISD_SDIVREM \<Rightarrow> LowerDivRem LowerCallTo op VT ops
       | ISD_UDIVREM \<Rightarrow> LowerDivRem LowerCallTo op VT ops
       | _ \<Rightarrow> Inl (Unreachable ''Don't know how to custom lower this!''))
   | _ \<Rightarrow> Inl (Unreachable ''Don't know how to custom lower this!''))"

text \<open>The number of values of a node: a selection also gives the glue, a merge one per operand.\<close>

definition getNumValues :: "sdvalue \<Rightarrow> nat" where
  "getNumValues v = (case v of
     SD_Node SNESISD_SELECT_CC _ _ \<Rightarrow> 2 | SD_Node ISD_MERGE_VALUES _ ops \<Rightarrow> length ops | _ \<Rightarrow> 1)"

text \<open>The negation of an \<open>APInt\<close> and the constant made of it.\<close>

definition getConstant_neg :: "u64 \<Rightarrow> evt \<Rightarrow> sdvalue" where
  "getConstant_neg c VT = SD_Constant (take_bit (getSizeInBits VT) (- c)) VT"

definition ReplaceNodeResults ::
  "int \<Rightarrow> (call_lowering \<Rightarrow> sdvalue) \<Rightarrow> sdvalue \<Rightarrow> (sdvalue \<times> nat) list outcome" where
  "ReplaceNodeResults VarArgsFI LowerCallTo N = (case N of
     SD_Node ISD_ADD VT ops \<Rightarrow> (case ops of
         [x, SD_Constant c CVT] \<Rightarrow> Inr [(SD_Node ISD_SUB VT [x, getConstant_neg c CVT], 0)]
       | _ \<Rightarrow> Inr [])
   | _ \<Rightarrow> obind (LowerOperation VarArgsFI LowerCallTo N) (\<lambda>Res.
            Inr (List.map (\<lambda>I. (Res, I)) [0..<getNumValues Res])))"

section \<open>What is lowered by hand\<close>

text \<open>The pairs that the constructor of \<open>SNESTargetLowering\<close> marks \<open>Custom\<close>.\<close>

definition integer_valuetypes :: "evt list" where
  "integer_valuetypes = [VT_integer 1, VT_i8, VT_i16, VT_i32, VT_i64, VT_integer 128]"

definition custom_actions :: "(isd_op \<times> evt) list" where
  "custom_actions =
     [(ISD_ADD, VT_i32), (ISD_ADD, VT_i64),
      (ISD_SRA, VT_i8), (ISD_SHL, VT_i8), (ISD_SRL, VT_i8),
      (ISD_SRA, VT_i16), (ISD_SHL, VT_i16), (ISD_SRL, VT_i16),
      (ISD_ROTL, VT_i8), (ISD_ROTL, VT_i16), (ISD_ROTR, VT_i8), (ISD_ROTR, VT_i16),
      (ISD_BR_CC, VT_i8), (ISD_BR_CC, VT_i16), (ISD_BR_CC, VT_i32), (ISD_BR_CC, VT_i64),
      (ISD_SELECT_CC, VT_i8), (ISD_SELECT_CC, VT_i16),
      (ISD_SETCC, VT_i8), (ISD_SETCC, VT_i16), (ISD_SETCC, VT_i32), (ISD_SETCC, VT_i64),
      (ISD_VASTART, VT_Other)]
     @ List.map (Pair ISD_UDIVREM) integer_valuetypes @ List.map (Pair ISD_SDIVREM) integer_valuetypes"

definition getTargetNodeName :: "isd_op \<Rightarrow> string option" where
  "getTargetNodeName op = (case op of
     SNESISD_RET_FLAG \<Rightarrow> Some ''RET_FLAG'' | SNESISD_RETI_FLAG \<Rightarrow> Some ''RETI_FLAG''
   | SNESISD_CALL \<Rightarrow> Some ''CALL'' | SNESISD_WRAPPER \<Rightarrow> Some ''WRAPPER''
   | SNESISD_LSL \<Rightarrow> Some ''LSL'' | SNESISD_LSR \<Rightarrow> Some ''LSR'' | SNESISD_ROL \<Rightarrow> Some ''ROL''
   | SNESISD_ROR \<Rightarrow> Some ''ROR'' | SNESISD_ASR \<Rightarrow> Some ''ASR''
   | SNESISD_LSLLOOP \<Rightarrow> Some ''LSLLOOP'' | SNESISD_LSRLOOP \<Rightarrow> Some ''LSRLOOP''
   | SNESISD_ASRLOOP \<Rightarrow> Some ''ASRLOOP'' | SNESISD_BRCOND \<Rightarrow> Some ''BRCOND''
   | SNESISD_CMP \<Rightarrow> Some ''CMP'' | SNESISD_CMPC \<Rightarrow> Some ''CMPC'' | SNESISD_TST \<Rightarrow> Some ''TST''
   | SNESISD_SELECT_CC \<Rightarrow> Some ''SELECT_CC'' | _ \<Rightarrow> None)"

definition getSetCCResultType :: "evt \<Rightarrow> evt" where
  "getSetCCResultType VT = VT_i8"

section \<open>Addressing modes\<close>

record addr_mode =
  BaseGV :: bool
  BaseOffs :: u64
  HasBaseReg :: bool
  Scale :: u64

definition ProgramMemory :: nat where
  "ProgramMemory = 1"

definition isLegalAddressingMode :: "addr_mode \<Rightarrow> bool \<Rightarrow> nat \<Rightarrow> bool" where
  "isLegalAddressingMode AM TyIsPointer AS =
     (let Offs = BaseOffs AM in
      if BaseGV AM \<and> \<not> HasBaseReg AM \<and> Scale AM = 0 \<and> Offs = 0 then True
      else if TyIsPointer \<and> AS = ProgramMemory then False
      else let Offs = (if Offs <s 0 then - Offs else Offs) in
        \<not> BaseGV AM \<and> HasBaseReg AM \<and> Scale AM = 0 \<and> isUInt 6 Offs)"

datatype indexed_mode = UNINDEXED | PRE_INC | PRE_DEC | POST_INC | POST_DEC

record mem_node =
  mn_is_load :: bool
  mn_MemoryVT :: evt
  mn_NonExtLoad :: bool
  mn_BasePtr :: sdvalue
  mn_ProgramMemory :: bool

text \<open>The step that both functions accept: an addition or subtraction of a constant.\<close>

definition indexed_step :: "evt \<Rightarrow> u32 \<Rightarrow> u32 \<Rightarrow> sdvalue \<Rightarrow> (sdvalue \<times> u32) option" where
  "indexed_step VT wide narrow Op = (case Op of
     SD_Node op OVT [x, SD_Constant c CVT] \<Rightarrow>
       if op \<noteq> ISD_ADD \<and> op \<noteq> ISD_SUB then None
       else let RHSC = (ucast (getSExtValue c CVT) :: u32);
                RHSC = (if op = ISD_SUB then - RHSC else RHSC)
            in if (VT = VT_i16 \<and> RHSC \<noteq> wide) \<or> (VT = VT_i8 \<and> RHSC \<noteq> narrow) then None
               else Some (x, RHSC)
   | _ \<Rightarrow> None)"

definition indexed_parts ::
  "evt \<Rightarrow> u32 \<Rightarrow> u32 \<Rightarrow> indexed_mode \<Rightarrow> sdvalue \<Rightarrow> (sdvalue \<times> sdvalue \<times> indexed_mode) option outcome" where
  "indexed_parts VT wide narrow AM Op =
     (if VT \<noteq> VT_i8 \<and> VT \<noteq> VT_i16 then Inr None
      else case indexed_step VT wide narrow Op of
        None \<Rightarrow> Inr None
      | Some (Base, RHSC) \<Rightarrow>
          obind (getConstant (scast RHSC) VT_i8) (\<lambda>Offset. Inr (Some (Base, Offset, AM))))"

text \<open>\<open>None\<close> for the node is one that is neither a load nor a store.\<close>

definition getPreIndexedAddressParts ::
  "mem_node option \<Rightarrow> (sdvalue \<times> sdvalue \<times> indexed_mode) option outcome" where
  "getPreIndexedAddressParts N = (case N of
     None \<Rightarrow> Inr None
   | Some n \<Rightarrow>
       if mn_is_load n \<and> \<not> mn_NonExtLoad n then Inr None
       else if mn_ProgramMemory n then Inr None
       else indexed_parts (mn_MemoryVT n) (- 2) (- 1) PRE_DEC (mn_BasePtr n))"

definition getPostIndexedAddressParts ::
  "mem_node option \<Rightarrow> sdvalue \<Rightarrow> (sdvalue \<times> sdvalue \<times> indexed_mode) option outcome" where
  "getPostIndexedAddressParts N Op = (case N of
     None \<Rightarrow> Inr None
   | Some n \<Rightarrow>
       if mn_is_load n \<and> \<not> mn_NonExtLoad n then Inr None
       else if \<not> mn_is_load n \<and> mn_ProgramMemory n then Inr None
       else indexed_parts (mn_MemoryVT n) 2 1 POST_INC Op)"

section \<open>Shifts by steps\<close>

text \<open>One step on the value of \<open>n\<close> bits, and the whole shift.\<close>

abbreviation step_value :: "isd_op \<Rightarrow> nat \<Rightarrow> int \<Rightarrow> int" where
  "step_value Opc8 n x \<equiv> node_value Opc8 n [x] mod 2 ^ n"

abbreviation whole_value :: "isd_op \<Rightarrow> nat \<Rightarrow> int \<Rightarrow> nat \<Rightarrow> int" where
  "whole_value op n x k \<equiv> node_value op n [x, int k] mod 2 ^ n"

lemma eval_shift_steps:
  "getSizeInBits VT = n \<Longrightarrow>
   eval_sd env (shift_steps opc VT k v) = (step_value opc n ^^ k) (eval_sd env v)"
  by (induction k arbitrary: v) (simp_all add: funpow_Suc_right del: funpow.simps(2))

lemma shift_steps_type: "getValueType v = VT \<Longrightarrow> getValueType (shift_steps opc VT k v) = VT"
  by (induction k arbitrary: v) (simp_all add: getValueType_def)

lemma pow_split: "k \<le> n \<Longrightarrow> (2::int) ^ n = 2 ^ (n - k) * 2 ^ k"
  by (simp flip: power_add)

lemma low_sum: "0 \<le> a \<Longrightarrow> a < A \<Longrightarrow> 0 \<le> b \<Longrightarrow> b < B \<Longrightarrow> a * B + b < A * B" for a b A B :: int
proof -
  assume h: "0 \<le> a" "a < A" "0 \<le> b" "b < B"
  then have "(a + 1) * B \<le> A * B" by (intro mult_right_mono) simp_all
  with h show ?thesis by (simp add: algebra_simps)
qed

text \<open>The bit at place \<open>p\<close> of a value below \<open>2 * p * q\<close>, what is above it and what is below.\<close>

lemma around_bit:
  fixes x p q :: int
  assumes pos: "0 < p" "0 < q" and x: "0 \<le> x" "x < 2 * (p * q)"
  obtains h b l where "x = (2 * h + b) * p + l" "x div (2 * p) = h" "x div p = 2 * h + b"
    "x mod p = l" "x mod (2 * p) = b * p + l" "b = 0 \<or> b = 1" "0 \<le> l * q + h" "l * q + h < p * q"
proof -
  define h where "h = x div (2 * p)"
  define b where "b = x div p mod 2"
  define l where "l = x mod p"
  have "x div (2 * p) = x div p div 2" using zdiv_zmult2_eq [of 2 x p] by (simp add: mult.commute)
  then have hb: "x div p = 2 * h + b" by (simp add: h_def b_def)
  then have xe: "x = (2 * h + b) * p + l" using div_mult_mod_eq [of x p] by (simp add: l_def)
  have b: "b = 0 \<or> b = 1" by (auto simp: b_def)
  have l: "0 \<le> l" "l < p" using pos by (simp_all add: l_def)
  have h: "0 \<le> h" using x pos by (simp add: h_def pos_imp_zdiv_nonneg_iff)
  have "h < q"
  proof (rule ccontr)
    assume "\<not> h < q"
    then have "2 * p * q \<le> 2 * p * h" using pos by (intro mult_left_mono) auto
    also have "\<dots> \<le> x" using mult_div_mod_eq [of "2 * p" x] pos_mod_sign [of "2 * p" x] pos
      unfolding h_def by linarith
    finally show False using x by simp
  qed
  then have "l * q + h < p * q" by (intro low_sum) (use l h in auto)
  moreover have "x = h * (2 * p) + (b * p + l)" by (subst xe) (simp add: algebra_simps)
  moreover have "0 \<le> b * p + l" "b * p + l < 2 * p" using b l by auto
  then have "(h * (2 * p) + (b * p + l)) mod (2 * p) = b * p + l" by simp
  ultimately have xm: "x mod (2 * p) = b * p + l" by simp
  show ?thesis
  proof (rule that [of h b l])
    show "l * q + h < p * q" by fact
    show "0 \<le> l * q + h" using l h pos by simp
    show "x div (2 * p) = h" "x mod p = l" by (simp_all add: h_def l_def)
  qed (use xe hb xm b in simp_all)
qed

lemma rot_powers:
  assumes "Suc k < n"
  shows "(2::int) ^ (n - k) = 2 * 2 ^ (n - Suc k)" "(2::int) ^ n = 2 * (2 ^ k * 2 ^ (n - Suc k))"
    "(2::int) ^ (n - Suc 0) = 2 ^ k * 2 ^ (n - Suc k)"
  using assms by (simp_all flip: power_add power_Suc)

lemma rotl_step:
  assumes k: "Suc k < n" and x: "0 \<le> x" "x < 2 ^ n"
  shows "step_value SNESISD_ROL n (whole_value ISD_ROTL n x k) = whole_value ISD_ROTL n x (Suc k)"
proof -
  define p where "p = (2::int) ^ (n - Suc k)"
  define q where "q = (2::int) ^ k"
  define P where "P = p * q"
  have pos: "0 < p" "0 < q" by (simp_all add: p_def q_def)
  have pw: "(2::int) ^ (n - k) = 2 * p" "(2::int) ^ n = 2 * P" "(2::int) ^ (n - Suc 0) = P"
    unfolding P_def p_def q_def using rot_powers [OF k] by (simp_all only: mult.commute)
  have xb: "x < 2 * (p * q)" using x(2) by (simp add: pw P_def)
  obtain h b l where xe: "x = (2 * h + b) * p + l" and h: "x div (2 * p) = h"
    and hb: "x div p = 2 * h + b" and l: "x mod p = l" and xm: "x mod (2 * p) = b * p + l"
    and b: "b = 0 \<or> b = 1" and r: "0 \<le> l * q + h" "l * q + h < p * q"
    by (rule around_bit [OF pos x(1) xb])
  note r0 = r [folded P_def]
  have whole: "whole_value ISD_ROTL n x k = b * P + (l * q + h)"
  proof -
    have "x * q + h = h * (2 * P) + (b * P + (l * q + h))"
      by (subst xe) (simp add: algebra_simps P_def)
    moreover have "0 \<le> b * P + (l * q + h)" "b * P + (l * q + h) < 2 * P" using b r0 by auto
    ultimately have "(x * q + h) mod (2 * P) = b * P + (l * q + h)"
      by (simp only: mod_mult_self3 mod_pos_pos_trivial)
    then show ?thesis by (simp add: node_value_def pw h q_def [symmetric])
  qed
  have top: "(b * P + (l * q + h)) div P = b" using r0 by simp
  have "step_value SNESISD_ROL n (whole_value ISD_ROTL n x k)
      = (2 * (b * P + (l * q + h)) + b) mod (2 * P)"
    by (simp only: whole) (simp add: node_value_def pw top)
  also have "\<dots> = (b * (2 * P) + (2 * (l * q + h) + b)) mod (2 * P)"
    by (simp add: algebra_simps)
  also have "\<dots> = ((2 * h + b) * (2 * P) + (2 * (l * q + h) + b)) mod (2 * P)"
    by (simp only: mod_mult_self3)
  also have "\<dots> = (x * (2 * q) + x div p) mod (2 * P)"
    by (rule arg_cong [where f = "\<lambda>y. y mod (2 * P)"], simp add: hb, subst xe,
      simp add: algebra_simps P_def)
  also have "\<dots> = whole_value ISD_ROTL n x (Suc k)"
    by (simp add: node_value_def pw p_def q_def nat_add_distrib)
  finally show ?thesis .
qed

lemma rotr_step:
  assumes k: "Suc k < n" and x: "0 \<le> x" "x < 2 ^ n"
  shows "step_value SNESISD_ROR n (whole_value ISD_ROTR n x k) = whole_value ISD_ROTR n x (Suc k)"
proof -
  define p where "p = (2::int) ^ k"
  define q where "q = (2::int) ^ (n - Suc k)"
  define P where "P = p * q"
  have pos: "0 < p" "0 < q" by (simp_all add: p_def q_def)
  have pw: "(2::int) ^ (n - k) = 2 * q" "(2::int) ^ n = 2 * P" "(2::int) ^ (n - Suc 0) = P"
    unfolding P_def p_def q_def by (rule rot_powers [OF k])+
  have xb: "x < 2 * (p * q)" using x(2) by (simp add: pw P_def)
  obtain h b l where xe: "x = (2 * h + b) * p + l" and h: "x div (2 * p) = h"
    and hb: "x div p = 2 * h + b" and l: "x mod p = l" and xm: "x mod (2 * p) = b * p + l"
    and b: "b = 0 \<or> b = 1" and r: "0 \<le> l * q + h" "l * q + h < p * q"
    by (rule around_bit [OF pos x(1) xb])
  note r0 = r [folded P_def]
  have whole: "whole_value ISD_ROTR n x k = 2 * (l * q + h) + b"
  proof -
    have "x div p + x mod p * (2 * q) = 2 * (l * q + h) + b" by (simp add: hb l algebra_simps)
    moreover have "0 \<le> 2 * (l * q + h) + b" "2 * (l * q + h) + b < 2 * P" using b r0 by auto
    ultimately have "(x div p + x mod p * (2 * q)) mod (2 * P) = 2 * (l * q + h) + b"
      by (simp only: mod_pos_pos_trivial)
    then show ?thesis by (simp add: node_value_def pw p_def [symmetric])
  qed
  have half: "(2 * y + b) div 2 = y" "(2 * y + b) mod 2 = b" for y :: int
    using b by auto
  have "step_value SNESISD_ROR n (whole_value ISD_ROTR n x k) = (l * q + h + b * P) mod (2 * P)"
    unfolding whole by (simp only: node_value_def list.case isd_op.case One_nat_def pw half)
  also have "l * q + h + b * P = h + (b * p + l) * q" by (simp add: P_def algebra_simps)
  also have "\<dots> = x div (2 * p) + x mod (2 * p) * q" by (simp add: xm h)
  finally show ?thesis
    by (simp add: node_value_def pw nat_add_distrib p_def q_def)
qed

lemma asr_step:
  assumes n: "0 < n" and x: "0 \<le> x" "x < 2 ^ n"
  shows "step_value SNESISD_ASR n (whole_value ISD_SRA n x k) = whole_value ISD_SRA n x (Suc k)"
proof -
  obtain m where m: "n = Suc m" using n by (cases n) auto
  define y where "y = signed_value n x"
  have s: "- (2 ^ m) \<le> y" "y < 2 ^ m" using x by (auto simp: y_def signed_value_def m)
  define z where "z = y div 2 ^ k"
  have z: "- (2 ^ m) \<le> z" "z < 2 ^ m"
  proof -
    have p: "(1::int) \<le> 2 ^ k" by simp
    show "- (2 ^ m) \<le> z"
    proof (cases "0 \<le> y")
      case True
      then have "0 \<le> z" by (simp add: z_def pos_imp_zdiv_nonneg_iff)
      then show ?thesis by (smt (verit) zero_le_power)
    next
      case False
      then have "y * 2 ^ k \<le> y * 1" using p by (intro mult_left_mono_neg) auto
      then have "y * 2 ^ k div 2 ^ k \<le> z" unfolding z_def by (intro zdiv_mono1) auto
      with s show ?thesis by simp
    qed
    show "z < 2 ^ m"
    proof (cases "0 \<le> y")
      case True
      then have "y * 1 \<le> y * 2 ^ k" using p by (intro mult_left_mono) auto
      then have "z \<le> y * 2 ^ k div 2 ^ k" unfolding z_def by (intro zdiv_mono1) auto
      with s show ?thesis by simp
    next
      case False
      then have "z < 0" unfolding z_def by (intro div_neg_pos_less0) auto
      then show ?thesis by (smt (verit) zero_le_power)
    qed
  qed
  have "signed_value n (z mod 2 ^ n) = z"
    using z mod_window(2) [of "2 ^ n" z] by (auto simp: signed_value_def m)
  moreover have "z div 2 = y div 2 ^ Suc k"
    using zdiv_zmult2_eq [of 2 y "2 ^ k"] by (simp add: z_def mult.commute)
  ultimately show ?thesis
    by (simp add: node_value_def y_def [symmetric] z_def [symmetric] nat_add_distrib)
qed

lemma lsl_step: "step_value SNESISD_LSL n (whole_value ISD_SHL n x k) = whole_value ISD_SHL n x (Suc k)"
proof -
  have "2 * (x * 2 ^ k mod 2 ^ n) mod 2 ^ n = 2 * (x * 2 ^ k) mod 2 ^ n" by (rule mod_mult_right_eq)
  then show ?thesis by (simp add: node_value_def nat_add_distrib mult.left_commute)
qed

lemma lsr_step:
  assumes "0 \<le> x" "x < 2 ^ n"
  shows "step_value SNESISD_LSR n (whole_value ISD_SRL n x k) = whole_value ISD_SRL n x (Suc k)"
proof -
  have "0 \<le> x div 2 ^ k" using assms by (simp add: pos_imp_zdiv_nonneg_iff)
  moreover have "x div 2 ^ k \<le> x" using zdiv_mono2 [of x 1 "2 ^ k"] assms by simp
  ultimately have "x div 2 ^ k mod 2 ^ n = x div 2 ^ k" using assms by (intro mod_pos_pos_trivial) linarith+
  then show ?thesis
    using zdiv_zmult2_eq [of 2 x "2 ^ k"] by (simp add: node_value_def nat_add_distrib mult.commute)
qed

lemmas shift_step_lemmas = lsl_step lsr_step asr_step rotl_step rotr_step

text \<open>Repeating the step of a shift gives the shift, up to the size of the value.\<close>

lemma step_repeated:
  assumes op: "shift_step_node op = Inr opc" and k: "k < n" and x: "0 \<le> x" "x < 2 ^ n"
  shows "(step_value opc n ^^ k) x = whole_value op n x k"
  using k
proof (induction k)
  case 0
  have "signed_value n x mod 2 ^ n = x" using x by (auto simp: signed_value_def)
  moreover have "x div 2 ^ n = 0" using x by simp
  ultimately show ?case
    using op x by (auto simp: shift_step_node_def node_value_def split: isd_op.splits)
next
  case (Suc k)
  then have k: "Suc k < n" and IH: "(step_value opc n ^^ k) x = whole_value op n x k" by auto
  have n: "0 < n" using k by simp
  have "step_value opc n (whole_value op n x k) = whole_value op n x (Suc k)"
    using op shift_step_lemmas(1) [of n x k] shift_step_lemmas(2) [OF x, of k] asr_step [OF n x, of k] rotl_step [OF k x] rotr_step [OF k x]
    unfolding shift_step_node_def by (cases op) simp_all
  then show ?case by (simp only: funpow.simps comp_apply IH)
qed

section \<open>Properties\<close>

lemma LowerShifts_const:
  assumes op: "shift_step_node op = Inr opc"
  shows "LowerShifts op VT v (SD_Constant c CVT) = Inr (shift_steps opc VT (unat (getZExtValue c CVT)) v)"
  by (simp add: LowerShifts_def op)

lemma eval_shift_node:
  "getSizeInBits VT = n \<Longrightarrow>
   eval_sd env (SD_Node op VT [v, SD_Constant c CVT])
     = whole_value op n (eval_sd env v) (unat (getZExtValue c CVT))"
  by (simp only: eval_sd.simps list.map getZExtValue_def of_nat_unat uint_take_mod)

lemma shift_op_step: "op \<in> set shift_ops \<Longrightarrow> \<exists>opc. shift_step_node op = Inr opc"
  by (auto simp: shift_ops_def shift_step_node_def)

text \<open>
  Property C21. A shift or a rotation by a constant smaller than the size becomes a chain of
  one-bit steps that has the value and the type of the original node, whatever the operand.
\<close>

theorem LowerShifts_constant:
  assumes "op \<in> set shift_ops" and "getValueType v = VT"
    and "uint (getZExtValue c CVT) < int (getSizeInBits VT)"
  shows "\<exists>r. LowerShifts op VT v (SD_Constant c CVT) = Inr r \<and> getValueType r = VT
     \<and> (\<forall>env. eval_sd env r = eval_sd env (SD_Node op VT [v, SD_Constant c CVT]))"
proof -
  obtain opc where opc: "shift_step_node op = Inr opc" using shift_op_step assms(1) by blast
  have k: "unat (getZExtValue c CVT) < getSizeInBits VT" 
    using assms(3) uint_nat [of "getZExtValue c CVT"] by linarith
  have v: "0 \<le> eval_sd env v \<and> eval_sd env v < 2 ^ getSizeInBits VT" for env
    using eval_range [of env v] by (simp only: assms(2))
  have "eval_sd env (shift_steps opc VT (unat (getZExtValue c CVT)) v)
      = eval_sd env (SD_Node op VT [v, SD_Constant c CVT])" for env
    unfolding eval_shift_steps [OF refl] eval_shift_node [OF refl]
    by (rule step_repeated [OF opc k]) (simp_all only: v)
  then show ?thesis
    by (simp only: LowerShifts_const [OF opc]) (blast intro: shift_steps_type assms(2))
qed

lemma LowerShifts_constant_witness:
  "\<exists>r. LowerShifts ISD_SRA VT_i16 (SD_Value 0 VT_i16) (SD_Constant 3 VT_i8) = Inr r
     \<and> eval_sd (\<lambda>_. 65520) r = 65534"
  using LowerShifts_constant [of ISD_SRA "SD_Value 0 VT_i16" VT_i16 3 VT_i8]
  by (auto simp: shift_ops_def getValueType_def getSizeInBits_def getZExtValue_def take_bit_eq_mod
    node_value_def signed_value_def)

lemma neg_constant_value:
  assumes "getSizeInBits VT \<le> 64"
  shows "eval_sd env (getConstant_neg c VT) = (- uint c) mod 2 ^ getSizeInBits VT"
proof -
  have "uint (- c) = (- uint c) mod 2 ^ 64" by (simp add: uint_word_ariths)
  moreover have "(- uint c) mod 2 ^ 64 mod 2 ^ getSizeInBits VT = (- uint c) mod 2 ^ getSizeInBits VT"
    using assms by (intro mod_mod_cancel le_imp_power_dvd)
  ultimately show ?thesis
    by (simp only: getConstant_neg_def eval_sd.simps uint_take_mod mod_mod_trivial)
qed

text \<open>
  On a type that is not legal, the addition of a constant is replaced by the
  subtraction of the negated constant, which has the same type and value.
\<close>

theorem ReplaceNodeResults_add:
  assumes "getSizeInBits VT \<le> 64"
  shows "\<exists>r. ReplaceNodeResults fi call (SD_Node ISD_ADD VT [x, SD_Constant c VT]) = Inr [(r, 0)]
     \<and> getValueType r = VT
     \<and> (\<forall>env. eval_sd env r = eval_sd env (SD_Node ISD_ADD VT [x, SD_Constant c VT]))"
proof -
  have "(y - (- uint c) mod 2 ^ n) mod 2 ^ n = (y + uint c mod 2 ^ n) mod 2 ^ n" for y n
    by (simp add: mod_simps)
  then show ?thesis
    using neg_constant_value [OF assms]
    by (simp add: ReplaceNodeResults_def getValueType_def node_value_def del: getConstant_neg_def)
qed

lemma ReplaceNodeResults_add_witness:
  "ReplaceNodeResults 0 (\<lambda>_. SD_Value 0 VT_i32) (SD_Node ISD_ADD VT_i32 [SD_Value 1 VT_i32, SD_Constant 5 VT_i32])
     = Inr [(SD_Node ISD_SUB VT_i32 [SD_Value 1 VT_i32, SD_Constant 0xfffffffb VT_i32], 0)]"
  using ReplaceNodeResults_add [of VT_i32 0 "\<lambda>_. SD_Value 0 VT_i32" "SD_Value 1 VT_i32" 5]
  by (simp add: ReplaceNodeResults_def getConstant_neg_def take_bit_eq_mod)

lemma sint_mod16: "sint (r :: u32) mod 65536 = uint r mod 65536"
proof -
  have "(uint r - 4294967296) mod 65536 = uint r mod 65536"
    using mod_diff_right_eq [of "uint r" 4294967296 65536] by simp
  then show ?thesis using sint_msb [of r] by auto
qed

lemma low16_sext: "uint (ucast (getSExtValue c VT_i16) :: u32) mod 65536 = uint c mod 65536"
proof -
  have "take_bit 16 (getSExtValue c VT_i16) = take_bit 16 c"
    by (simp add: getSExtValue_def getSizeInBits_def take_bit_signed_take_bit)
  moreover have "uint (ucast (w :: u64) :: u32) mod 65536 = uint (take_bit 16 w)"
    "uint (take_bit 16 w) = uint w mod 65536" for w
    using uint_take_mod [of 16 w] by (simp_all add: unsigned_ucast_eq take_bit_eq_mod mod_mod_cancel)
  ultimately show ?thesis by metis
qed

lemma neg_mod16: "uint (- (r :: u32)) mod 65536 = (- uint r) mod 65536"
  by (simp only: uint_word_ariths mod_mod_cancel byte_width) (simp add: mod_mod_cancel)

text \<open>The address that an accepted step computes, and the step by the width of the access.\<close>

lemma indexed_step_value:
  assumes s: "indexed_step VT wide narrow Op = Some (Base, RHSC)"
    and Op: "Op = SD_Node op VT_i16 [x, SD_Constant c VT_i16]"
  shows "Base = x \<and> eval_sd env Op = (eval_sd env Base + sint RHSC) mod 65536
    \<and> (VT = VT_i16 \<longrightarrow> RHSC = wide) \<and> (VT = VT_i8 \<longrightarrow> RHSC = narrow)"
proof -
  let ?r = "ucast (getSExtValue c VT_i16) :: u32"
  have op: "op = ISD_ADD \<and> RHSC = ?r \<or> op = ISD_SUB \<and> RHSC = - ?r" and B: "Base = x"
    and w: "(VT = VT_i16 \<longrightarrow> RHSC = wide) \<and> (VT = VT_i8 \<longrightarrow> RHSC = narrow)"
    using s by (auto simp: indexed_step_def Let_def Op split: if_splits)
  have e: "eval_sd env (SD_Node ISD_ADD VT_i16 [x, SD_Constant c VT_i16]) = (eval_sd env x + uint c mod 65536) mod 65536"
    "eval_sd env (SD_Node ISD_SUB VT_i16 [x, SD_Constant c VT_i16]) = (eval_sd env x - uint c mod 65536) mod 65536"
    by (simp_all add: node_value_def getSizeInBits_def)
  have "eval_sd env Op = (eval_sd env x + sint RHSC mod 65536) mod 65536"
    using op
  proof
    assume "op = ISD_ADD \<and> RHSC = ?r"
    then show ?thesis by (simp only: Op e sint_mod16 low16_sext)
  next
    assume "op = ISD_SUB \<and> RHSC = - ?r"
    then show ?thesis
      using mod_minus_eq [of "uint ?r" 65536] low16_sext [of c]
      by (simp only: Op e sint_mod16 neg_mod16) (metis diff_conv_add_uminus mod_add_right_eq mod_minus_eq)
  qed
  then show ?thesis using B w by (simp add: mod_simps)
qed

text \<open>The constants that are a step of one or two bytes up or down.\<close>

lemma step_constants:
  "ucast (getSExtValue c VT_i16) = (1 :: u32) \<longleftrightarrow> uint c mod 65536 = 1"
  "ucast (getSExtValue c VT_i16) = (2 :: u32) \<longleftrightarrow> uint c mod 65536 = 2"
  "ucast (getSExtValue c VT_i16) = (- 1 :: u32) \<longleftrightarrow> uint c mod 65536 = 65535"
  "ucast (getSExtValue c VT_i16) = (- 2 :: u32) \<longleftrightarrow> uint c mod 65536 = 65534"
proof -
  have s: "getSExtValue c VT_i16 = signed_take_bit 15 (word_of_int (uint c mod 65536))"
  proof -
    have "uint c mod 65536 = uint (take_bit 16 c)" using uint_take_mod [of 16 c] by simp
    then have "word_of_int (uint c mod 65536) = take_bit 16 c" by (simp only: word_of_int_uint)
    then show ?thesis by (simp add: getSExtValue_def getSizeInBits_def signed_take_bit_take_bit)
  qed
  have c: "ucast (signed_take_bit 15 (1 :: u64)) = (1 :: u32)"
    "ucast (signed_take_bit 15 (2 :: u64)) = (2 :: u32)"
    "ucast (signed_take_bit 15 (65535 :: u64)) = (- 1 :: u32)"
    "ucast (signed_take_bit 15 (65534 :: u64)) = (- 2 :: u32)"
    by code_simp+
  have m: "uint (- 1 :: u32) mod 65536 = 65535" "uint (- 2 :: u32) mod 65536 = 65534"
    by code_simp+
  note low = low16_sext [of c]
  show "ucast (getSExtValue c VT_i16) = (1 :: u32) \<longleftrightarrow> uint c mod 65536 = 1"
    "ucast (getSExtValue c VT_i16) = (2 :: u32) \<longleftrightarrow> uint c mod 65536 = 2"
    "ucast (getSExtValue c VT_i16) = (- 1 :: u32) \<longleftrightarrow> uint c mod 65536 = 65535"
    "ucast (getSExtValue c VT_i16) = (- 2 :: u32) \<longleftrightarrow> uint c mod 65536 = 65534"
    using low s c m by (auto simp del: word_of_int_uint)
qed

lemma indexed_parts_simps:
  "indexed_parts VT_i8 w n AM Op = (case indexed_step VT_i8 w n Op of None \<Rightarrow> Inr None
     | Some (Base, r) \<Rightarrow> obind (getConstant (scast r) VT_i8) (\<lambda>Offset. Inr (Some (Base, Offset, AM))))"
  "indexed_parts VT_i16 w n AM Op = (case indexed_step VT_i16 w n Op of None \<Rightarrow> Inr None
     | Some (Base, r) \<Rightarrow> obind (getConstant (scast r) VT_i8) (\<lambda>Offset. Inr (Some (Base, Offset, AM))))"
  by (simp_all add: indexed_parts_def)

lemma step_offsets:
  "getConstant (1) VT_i8 = Inr (SD_Constant 1 VT_i8)"
  "getConstant (2) VT_i8 = Inr (SD_Constant 2 VT_i8)"
  "getConstant (- 1) VT_i8 = Inr (SD_Constant 255 VT_i8)"
  "getConstant (- 2) VT_i8 = Inr (SD_Constant 254 VT_i8)"
  by code_simp+

text \<open>The change of a pointer by a node, modulo the size of an address.\<close>

definition pointer_step :: "isd_op \<Rightarrow> u64 \<Rightarrow> int" where
  "pointer_step op c = (if op = ISD_ADD then uint c else if op = ISD_SUB then - uint c else 0) mod 65536"

lemma neg_step:
  "(- u) mod 65536 = 65535 \<longleftrightarrow> u mod 65536 = 1" "(- u) mod 65536 = 65534 \<longleftrightarrow> u mod 65536 = 2"
  "(- u) mod 65536 = 1 \<longleftrightarrow> u mod 65536 = 65535" "(- u) mod 65536 = 2 \<longleftrightarrow> u mod 65536 = 65534" for u :: int
  using mod_minus_eq [of u 65536] by (auto simp: zmod_zminus1_eq_if)

lemma minus_step:
  "- r = - 1 \<longleftrightarrow> r = 1" "- r = - 2 \<longleftrightarrow> r = 2" "- r = 1 \<longleftrightarrow> r = - 1" "- r = 2 \<longleftrightarrow> r = - 2" for r :: u32
  by (metis minus_minus)+

lemma pick: "(if r \<noteq> s then None else Some (x, r)) = (if r = s then Some (x, s) else None)"
  by simp

lemma indexed_step_accepts:
  assumes "op = ISD_ADD \<or> op = ISD_SUB"
  shows
    "indexed_step VT_i8 w (- 1) (SD_Node op VT_i16 [x, SD_Constant c VT_i16])
       = (if pointer_step op c = 65535 then Some (x, - 1) else None)"
    "indexed_step VT_i16 (- 2) w (SD_Node op VT_i16 [x, SD_Constant c VT_i16])
       = (if pointer_step op c = 65534 then Some (x, - 2) else None)"
    "indexed_step VT_i8 w 1 (SD_Node op VT_i16 [x, SD_Constant c VT_i16])
       = (if pointer_step op c = 1 then Some (x, 1) else None)"
    "indexed_step VT_i16 2 w (SD_Node op VT_i16 [x, SD_Constant c VT_i16])
       = (if pointer_step op c = 2 then Some (x, 2) else None)"
  using assms
  by (elim disjE; simp add: indexed_step_def Let_def pick step_constants neg_step minus_step pointer_step_def)+

text \<open>
  A load or store of 8 or 16 bits becomes pre-decremented (post-incremented)
  exactly when it is not extending, accesses data memory (a post-incremented load may read
  program memory) and its address (the update of its address) is the base minus (plus) the
  bytes of the access; the offset it reports is that step.
\<close>

theorem indexed_address_parts:
  assumes VT: "mn_MemoryVT n \<in> {VT_i8, VT_i16}"
    and k: "k = int (getSizeInBits (mn_MemoryVT n) div 8)"
    and op: "op \<in> {ISD_ADD, ISD_SUB}" and Op: "Op = SD_Node op VT_i16 [x, SD_Constant c VT_i16]"
  shows "getPreIndexedAddressParts (Some (n\<lparr>mn_BasePtr := Op\<rparr>)) = Inr
      (if (\<not> mn_is_load n \<or> mn_NonExtLoad n) \<and> \<not> mn_ProgramMemory n \<and> pointer_step op c = - k mod 65536
       then Some (x, SD_Constant (256 - word_of_int k) VT_i8, PRE_DEC) else None)
    \<and> getPostIndexedAddressParts (Some n) Op = Inr
      (if (\<not> mn_is_load n \<or> mn_NonExtLoad n) \<and> (mn_is_load n \<or> \<not> mn_ProgramMemory n) \<and> pointer_step op c = k
       then Some (x, SD_Constant (word_of_int k) VT_i8, POST_INC) else None)"
proof -
  have op': "op = ISD_ADD \<or> op = ISD_SUB" using op by simp
  note parts = getPreIndexedAddressParts_def getPostIndexedAddressParts_def indexed_parts_simps Op
    indexed_step_accepts [OF op'] step_offsets
  show ?thesis
  proof (cases "mn_MemoryVT n = VT_i8")
    case True
    then show ?thesis using k by (simp add: parts getSizeInBits_def)
  next
    case False
    with VT have "mn_MemoryVT n = VT_i16" by simp
    then show ?thesis using k by (simp add: parts getSizeInBits_def)
  qed
qed

lemma indexed_address_parts_witness:
  "getPostIndexedAddressParts (Some \<lparr>mn_is_load = True, mn_MemoryVT = VT_i16, mn_NonExtLoad = True,
       mn_BasePtr = SD_Value 0 VT_i16, mn_ProgramMemory = False\<rparr>)
     (SD_Node ISD_SUB VT_i16 [SD_Value 0 VT_i16, SD_Constant 0xfffe VT_i16])
     = Inr (Some (SD_Value 0 VT_i16, SD_Constant 2 VT_i8, POST_INC))"
  using indexed_address_parts [where n = "\<lparr>mn_is_load = True, mn_MemoryVT = VT_i16, mn_NonExtLoad = True,
       mn_BasePtr = SD_Value 0 VT_i16, mn_ProgramMemory = False\<rparr>" and k = 2 and op = ISD_SUB
     and Op = "SD_Node ISD_SUB VT_i16 [SD_Value 0 VT_i16, SD_Constant 0xfffe VT_i16]"
     and x = "SD_Value 0 VT_i16" and c = "0xfffe"]
  by (simp add: getSizeInBits_def pointer_step_def)

section \<open>Totality and types of the custom lowering\<close>

lemma getSNESCmp_total:
  assumes VT: "VT \<in> set legal_types" and t: "getValueType LHS = VT" "getValueType RHS = VT"
    and CC: "CC \<in> set integer_conds"
  shows "\<exists>r. getSNESCmp LHS RHS CC = Inr r"
proof -
  have s: "\<exists>d. getConstant (getSExtValue c VT + 1) VT = Inr (SD_Constant d VT)" for c
    using getConstant_value(2) [OF VT, of c] by auto
  have a: "\<exists>l r CC' test. adjust_cmp LHS RHS CC = Inr (l, r, CC', test) \<and> getValueType l = VT
       \<and> (test = None \<longrightarrow> CC' \<in> set coded_conds)"
  proof (cases "\<exists>c VT'. RHS = SD_Constant c VT'")
    case True
    then obtain c where R: "RHS = SD_Constant c VT" using t(2) by (auto simp: getValueType_def)
    obtain d where d: "getConstant (getSExtValue c VT + 1) VT = Inr (SD_Constant d VT)" using s by blast
    have z: "getValueType (SD_Constant e VT) = VT" for e by (simp add: getValueType_def)
    show ?thesis
      using CC by (auto simp: adjust_cmp_def integer_conds_def coded_conds_def R d z t(1) getConstant_value(1) [OF VT])
  next
    case False
    then have "adjust_cmp LHS RHS CC = (case CC of SETLE \<Rightarrow> Inr (RHS, LHS, SETGE, None)
       | SETGT \<Rightarrow> Inr (RHS, LHS, SETLT, None) | SETULE \<Rightarrow> Inr (RHS, LHS, SETUGE, None)
       | SETUGT \<Rightarrow> Inr (RHS, LHS, SETULT, None) | _ \<Rightarrow> Inr (LHS, RHS, CC, None))"
      by (cases RHS; cases CC) (auto simp: adjust_cmp_def)
    then show ?thesis using CC t by (auto simp: integer_conds_def coded_conds_def)
  qed
  then obtain l r CC' test where adj: "adjust_cmp LHS RHS CC = Inr (l, r, CC', test)"
    and l: "getValueType l = VT" and cc: "test = None \<longrightarrow> CC' \<in> set coded_conds" by blast
  obtain g where "build_cmp VT (test \<noteq> None) l r = Inr g" using build_cmp_ok [OF VT] by blast
  moreover have "test = None \<Longrightarrow> \<exists>k. intCCToSNESCC CC' = Inr k"
    using cc by (auto simp: coded_conds_def intCCToSNESCC_def)
  ultimately show ?thesis using adj t(1) by (cases test) (auto simp: getSNESCmp_def l)
qed

text \<open>
  A node as the legalizer hands it over: the operands of its operation, comparisons of equal
  legal types with an integer condition, and a type for which the operation is \<open>Custom\<close>: the
  type of the compared values for \<open>BR_CC\<close> and \<open>SETCC\<close>, of the result for the others. Every
  operation of \<open>custom_actions\<close> has a case, and so have the two kinds of addresses, which are
  \<open>Custom\<close> as well. The legalizer gives an addition to \<open>ReplaceNodeResults\<close>, because its
  result type is not legal, the others to \<open>LowerOperation\<close>, directly or through the default
  case of \<open>ReplaceNodeResults\<close>.
\<close>

definition cmp_operands :: "sdvalue \<Rightarrow> sdvalue \<Rightarrow> isd_cond \<Rightarrow> bool" where
  "cmp_operands LHS RHS CC \<longleftrightarrow> getValueType LHS \<in> set legal_types
     \<and> getValueType RHS = getValueType LHS \<and> CC \<in> set integer_conds"

definition custom_node :: "sdvalue \<Rightarrow> bool" where
  "custom_node N = (case N of
     SD_GlobalAddress _ _ \<Rightarrow> True
   | SD_BlockAddress _ \<Rightarrow> True
   | SD_Node op VT ops \<Rightarrow>
       if op \<in> set shift_ops
       then (case ops of [v, _] \<Rightarrow> (op, VT) \<in> set custom_actions \<and> getValueType v = VT | _ \<Rightarrow> False)
       else (case op of
         ISD_BR_CC \<Rightarrow> (case br_cc_operands ops of
             Some (_, CC, LHS, RHS, _) \<Rightarrow>
               (op, getValueType LHS) \<in> set custom_actions \<and> VT = VT_Other \<and> cmp_operands LHS RHS CC
           | None \<Rightarrow> False)
       | ISD_SELECT_CC \<Rightarrow> (case select_cc_operands ops of
             Some (LHS, RHS, TrueV, FalseV, CC) \<Rightarrow>
               (op, VT) \<in> set custom_actions \<and> cmp_operands LHS RHS CC | None \<Rightarrow> False)
       | ISD_SETCC \<Rightarrow> (case setcc_operands ops of
             Some (LHS, RHS, CC) \<Rightarrow>
               (op, getValueType LHS) \<in> set custom_actions \<and> VT = getSetCCResultType (getValueType LHS)
               \<and> cmp_operands LHS RHS CC | None \<Rightarrow> False)
       | ISD_VASTART \<Rightarrow> length ops = 3 \<and> VT = VT_Other
       | ISD_ADD \<Rightarrow> (op, VT) \<in> set custom_actions \<and> List.map getValueType ops = [VT, VT]
       | ISD_UDIVREM \<Rightarrow> (op, VT) \<in> set custom_actions \<and> List.map getValueType ops = [VT, VT]
       | ISD_SDIVREM \<Rightarrow> (op, VT) \<in> set custom_actions \<and> List.map getValueType ops = [VT, VT]
       | _ \<Rightarrow> False)
   | _ \<Rightarrow> False)"

definition node_opcode :: "sdvalue \<Rightarrow> isd_op option" where
  "node_opcode N = (case N of SD_Node op VT ops \<Rightarrow> Some op | _ \<Rightarrow> None)"

text \<open>
  The documented result of \<open>TargetLowering::LowerCallTo\<close>, which is a parameter: a call that
  returns a structure gives a value of the type of its first member.
\<close>

definition call_typed :: "(call_lowering \<Rightarrow> sdvalue) \<Rightarrow> bool" where
  "call_typed call \<longleftrightarrow> (\<forall>c VT VTs. cli_RetTy c = VT # VTs \<longrightarrow> getValueType (call c) = VT)"

lemma custom_cases:
  assumes "custom_node N" "N = SD_Node op VT ops" "op \<notin> set shift_ops"
    "op \<notin> {ISD_ADD, ISD_UDIVREM, ISD_SDIVREM}"
  obtains
      (br) Chain CC LHS RHS Dest where "op = ISD_BR_CC" "ops = [Chain, SD_CondCode CC, LHS, RHS, Dest]"
        "VT = VT_Other" "cmp_operands LHS RHS CC"
    | (sel) LHS RHS T' F' CC where "op = ISD_SELECT_CC" "ops = [LHS, RHS, T', F', SD_CondCode CC]"
        "cmp_operands LHS RHS CC"
    | (set) LHS RHS CC where "op = ISD_SETCC" "ops = [LHS, RHS, SD_CondCode CC]" "VT = VT_i8"
        "cmp_operands LHS RHS CC"
    | (va) a b c where "op = ISD_VASTART" "ops = [a, b, c]" "VT = VT_Other"
  using assms
  by (auto simp: custom_node_def getSetCCResultType_def length_Suc_conv numeral_3_eq_3
    split: isd_op.splits option.splits
    elim!: br_cc_operands_SomeE select_cc_operands_SomeE setcc_operands_SomeE)

lemma lowered_typed:
  assumes "custom_node N" "node_opcode N \<notin> {Some ISD_ADD, Some ISD_UDIVREM, Some ISD_SDIVREM}"
  shows "\<exists>r. LowerOperation fi call N = Inr r \<and> getValueType r = getValueType N"
proof -
  have cmp: "\<exists>r. getSNESCmp LHS RHS CC = Inr r" if "cmp_operands LHS RHS CC" for LHS RHS CC
    using that getSNESCmp_total unfolding cmp_operands_def by blast
  have const: "getConstant 1 VT_i8 = Inr (SD_Constant 1 VT_i8)" "getConstant 0 VT_i8 = Inr (SD_Constant 0 VT_i8)"
    by code_simp+
  show ?thesis
  proof (cases N)
    case (SD_Node op VT ops)
    show ?thesis
    proof (cases "op \<in> set shift_ops")
      case True
      then obtain v amt where o: "ops = [v, amt]" "getValueType v = VT"
        using assms by (auto simp: custom_node_def SD_Node split: list.splits)
      obtain opc where opc: "shift_step_node op = Inr opc" using shift_op_step True by blast
      have "\<exists>l. shift_loop_node op = Inr l" using True by (auto simp: shift_ops_def shift_loop_node_def)
      then show ?thesis
        using True opc o shift_steps_type [OF o(2), of opc]
        by (cases amt) (auto simp: SD_Node LowerOperation_def LowerShifts_def getValueType_def)
    next
      case False
      have "op \<notin> {ISD_ADD, ISD_UDIVREM, ISD_SDIVREM}" using assms(2) by (auto simp: node_opcode_def SD_Node)
      from assms(1) SD_Node False this show ?thesis
      proof (cases rule: custom_cases)
        case br
        then show ?thesis using cmp [OF br(4)] False
          by (auto simp: SD_Node LowerOperation_def LowerBR_CC_def getValueType_def)
      next
        case sel
        then show ?thesis using cmp [OF sel(3)] False
          by (auto simp: SD_Node LowerOperation_def LowerSELECT_CC_def getValueType_def)
      next
        case set
        then show ?thesis using cmp [OF set(4)] False
          by (auto simp: SD_Node LowerOperation_def LowerSETCC_def getValueType_def const)
      next
        case va
        then show ?thesis using False
          by (auto simp: SD_Node LowerOperation_def LowerVASTART_def getValueType_def)
      qed
    qed
  qed (use assms in \<open>auto simp: custom_node_def LowerOperation_def LowerGlobalAddress_def LowerBlockAddress_def getValueType_def\<close>)
qed

lemma divrem_lowered:
  assumes "op \<in> {ISD_UDIVREM, ISD_SDIVREM}" "(op, VT) \<in> set custom_actions" "call_typed call"
  shows "if VT \<in> {VT_integer 1, VT_integer 128}
    then LowerOperation fi call (SD_Node op VT ops) = Inl (Unreachable ''Unexpected request for libcall!'')
    else \<exists>r. LowerOperation fi call (SD_Node op VT ops) = Inr r \<and> getValueType r = VT"
proof -
  have "VT \<in> set integer_valuetypes" using assms(1,2) by (auto simp: custom_actions_def)
  moreover have "op \<notin> set shift_ops" using assms(1) by (auto simp: shift_ops_def)
  ultimately show ?thesis
    using assms(1,3) by (auto simp: integer_valuetypes_def LowerOperation_def LowerDivRem_def divrem_libcall_def
      call_typed_def Let_def)
qed

lemma add_replaced:
  assumes "(ISD_ADD, VT) \<in> set custom_actions" "List.map getValueType ops = [VT, VT]"
  shows "\<exists>rs. ReplaceNodeResults fi call (SD_Node ISD_ADD VT ops) = Inr rs
    \<and> (rs \<noteq> [] \<longleftrightarrow> (\<exists>c CVT. ops ! 1 = SD_Constant c CVT))
    \<and> list_all (\<lambda>(r, i). i = 0 \<and> getValueType r = VT \<and> eval_sd env r = eval_sd env (SD_Node ISD_ADD VT ops)) rs"
proof -
  have n: "getSizeInBits VT \<le> 64" using assms(1) by (auto simp: custom_actions_def getSizeInBits_def)
  obtain x y where ops: "ops = [x, y]" "getValueType y = VT" using assms(2) by (auto simp: map_eq_Cons_conv)
  show ?thesis
  proof (cases "\<exists>c CVT. y = SD_Constant c CVT")
    case True
    then obtain c where y: "y = SD_Constant c VT" using ops(2) by (auto simp: getValueType_def)
    from ReplaceNodeResults_add [OF n, of fi call x c] show ?thesis by (auto simp: ops y)
  next
    case False
    then show ?thesis by (cases y) (auto simp: ops ReplaceNodeResults_def)
  qed
qed

text \<open>
  Property C22. The nodes for which the constructor asks for custom lowering. An addition of
  32 or 64 bits is replaced by one node of the same type and value when its second operand is
  a constant, and otherwise left to the legalizer. A division with remainder is lowered to a
  call whose value has the type of the node, except for 1 and 128 bits, for which the
  constructor asks as well: there the code stops as unreachable. Every other node is lowered
  without reaching an assertion, to a node of the same value type.
\<close>

theorem custom_lowering_typed:
  assumes "custom_node N" and "call_typed call"
  shows "if node_opcode N = Some ISD_ADD
    then \<exists>rs. ReplaceNodeResults fi call N = Inr rs
      \<and> (rs \<noteq> [] \<longleftrightarrow> (\<exists>x c CVT. N = SD_Node ISD_ADD (getValueType N) [x, SD_Constant c CVT]))
      \<and> list_all (\<lambda>(r, i). i = 0 \<and> getValueType r = getValueType N \<and> eval_sd env r = eval_sd env N) rs
    else if node_opcode N \<in> {Some ISD_UDIVREM, Some ISD_SDIVREM} \<and> getValueType N \<in> {VT_integer 1, VT_integer 128}
    then LowerOperation fi call N = Inl (Unreachable ''Unexpected request for libcall!'')
    else \<exists>r. LowerOperation fi call N = Inr r \<and> getValueType r = getValueType N"
proof (cases "node_opcode N \<in> {Some ISD_ADD, Some ISD_UDIVREM, Some ISD_SDIVREM}")
  case False
  with lowered_typed [OF assms(1) False] show ?thesis by simp
next
  case True
  then obtain op VT ops where N: "N = SD_Node op VT ops" "op \<in> {ISD_ADD, ISD_UDIVREM, ISD_SDIVREM}"
    by (auto simp: node_opcode_def split: sdvalue.splits)
  have "op \<notin> set shift_ops" using N(2) by (auto simp: shift_ops_def)
  with assms(1) N have c: "(op, VT) \<in> set custom_actions" "List.map getValueType ops = [VT, VT]"
    by (auto simp: custom_node_def)
  show ?thesis
  proof (cases "op = ISD_ADD")
    case True
    obtain x y where "ops = [x, y]" using c(2) by (auto simp: map_eq_Cons_conv)
    have v: "getValueType (SD_Node ISD_ADD VT ops) = VT" by (simp add: getValueType_def)
    have o: "node_opcode (SD_Node ISD_ADD VT ops) = Some ISD_ADD" by (simp add: node_opcode_def)
    have e: "(\<exists>c CVT. ops ! 1 = SD_Constant c CVT) \<longleftrightarrow> (\<exists>x c CVT. ops = [x, SD_Constant c CVT])"
      by (simp add: \<open>ops = [x, y]\<close>)
    from True add_replaced [of VT ops fi call env] c show ?thesis
      by (simp only: N(1) v o e if_True simp_thms sdvalue.inject)
  next
    case False
    have v: "getValueType (SD_Node op VT ops) = VT" by (simp add: getValueType_def)
    have d: "op \<in> {ISD_UDIVREM, ISD_SDIVREM}" using False N(2) by simp
    from divrem_lowered [OF d c(1) assms(2), of fi ops] d False show ?thesis
      unfolding N(1) v by (simp add: node_opcode_def)
  qed
qed

lemma custom_lowering_typed_witness:
  "(\<exists>r. LowerOperation 0 (\<lambda>c. SD_Value 0 (hd (cli_RetTy c)))
         (SD_Node ISD_SETCC VT_i8 [SD_Value 0 VT_i64, SD_Constant 9 VT_i64, SD_CondCode SETUGT]) = Inr r
     \<and> getValueType r = VT_i8)
   \<and> LowerOperation 0 (\<lambda>c. SD_Value 0 (hd (cli_RetTy c)))
         (SD_Node ISD_SDIVREM (VT_integer 128) [SD_Value 0 (VT_integer 128), SD_Value 1 (VT_integer 128)])
       = Inl (Unreachable ''Unexpected request for libcall!'')"
proof -
  let ?call = "\<lambda>c. SD_Value 0 (hd (cli_RetTy c))"
  let ?cmp = "SD_Node ISD_SETCC VT_i8 [SD_Value 0 VT_i64, SD_Constant 9 VT_i64, SD_CondCode SETUGT]"
  let ?div = "SD_Node ISD_SDIVREM (VT_integer 128) [SD_Value 0 (VT_integer 128), SD_Value 1 (VT_integer 128)]"
  have "call_typed ?call" by (simp add: call_typed_def getValueType_def)
  moreover have "custom_node ?cmp" "custom_node ?div"
    by (simp_all add: custom_node_def shift_ops_def custom_actions_def integer_valuetypes_def getValueType_def
      getSetCCResultType_def cmp_operands_def legal_types_def integer_conds_def)
  ultimately show ?thesis
    using custom_lowering_typed [of ?cmp ?call 0 "\<lambda>_. 0"] custom_lowering_typed [of ?div ?call 0 "\<lambda>_. 0"]
    by (simp add: node_opcode_def getValueType_def)
qed

text \<open>Two of the nodes have no name.\<close>

lemma rotation_loops_unnamed:
  "getTargetNodeName SNESISD_ROLLOOP = None \<and> getTargetNodeName SNESISD_RORLOOP = None"
  by (simp add: getTargetNodeName_def)

text \<open>
  A base register with an offset is a legal address, outside program memory,
  exactly when the offset has a magnitude of at most 63; a global is legal only alone.
\<close>

theorem legal_addressing_mode:
  "isLegalAddressingMode AM ptr AS \<longleftrightarrow>
     Scale AM = 0
     \<and> (BaseGV AM \<and> \<not> HasBaseReg AM \<and> BaseOffs AM = 0
        \<or> \<not> BaseGV AM \<and> HasBaseReg AM \<and> \<not> (ptr \<and> AS = ProgramMemory)
          \<and> \<bar>sint (BaseOffs AM)\<bar> \<le> 63)"
proof -
  have abs: "isUInt 6 (if w <s 0 then - w else w) \<longleftrightarrow> \<bar>sint w\<bar> \<le> 63" for w :: u64
  proof (cases "w <s 0")
    case True
    then have "sint w < 0" by (simp add: word_sless_alt)
    then have u: "uint w = sint w + 2 ^ 64" using sint_msb [of w] uint_bounded [of w] by (auto split: if_splits)
    have r: "- (2 ^ 63) \<le> sint w" using sint_greater_eq [of w] by simp
    have "uint (- w) = (- uint w) mod 2 ^ 64" by (simp add: uint_word_ariths)
    also have "- uint w = - sint w + (- 1) * 2 ^ 64" by (simp add: u)
    also have "\<dots> mod 2 ^ 64 = - sint w"
      using \<open>sint w < 0\<close> r by (simp only: mod_mult_self1) simp
    finally show ?thesis using True \<open>sint w < 0\<close> by (auto simp: isUInt_iff)
  next
    case False
    then have "0 \<le> sint w" by (simp add: word_sless_alt)
    then have "uint w = sint w" using sint_msb [of w] uint_bounded [of w] by (auto split: if_splits)
    then show ?thesis using False \<open>0 \<le> sint w\<close> by (auto simp: isUInt_iff)
  qed
  show ?thesis by (auto simp: isLegalAddressingMode_def Let_def abs)
qed

end
