(* ===== verification/ISel_Insert.thy ===== *)
theory ISel_Insert
  imports Cond_Codes
begin

text \<open>
  The instructions that \<open>EmitInstrWithCustomInserter\<close> of \<open>SNESISelLowering.cpp\<close> replaces by
  control flow: loops for shifts of a variable amount (\<open>insertShift\<close>), a diamond for
  selections, and the clearing after a multiplication (\<open>insertMul\<close>). Functions are still in
  SSA form here, so registers may be virtual and blocks start with \<open>PHI\<close> instructions.
\<close>

section \<open>Functions in SSA form\<close>

datatype vreg = Phys reg | Virt nat

datatype ssa_operand = SReg vreg | SImm u64 | SMBB nat | SFI int

record ssa_instr =
  SOpcode :: opcode
  SOperands :: "ssa_operand list"

text \<open>The blocks by name: the order in the function, their instructions and successors.\<close>

record mfunction =
  Layout :: "nat list"
  Instrs :: "nat \<Rightarrow> ssa_instr list"
  Succs :: "nat \<Rightarrow> nat list"
  NextBlock :: nat
  NextVReg :: nat

definition SMI :: "opcode \<Rightarrow> ssa_operand list \<Rightarrow> ssa_instr" where
  "SMI Opc ops = \<lparr>SOpcode = Opc, SOperands = ops\<rparr>"

definition isPHI :: "ssa_instr \<Rightarrow> bool" where
  "isPHI MI = (SOpcode MI = Misc PHI)"

definition sReg :: "ssa_instr \<Rightarrow> nat \<Rightarrow> vreg outcome" where
  "sReg MI i = asserting (i < length (SOperands MI)) ''getOperand() out of range!''
     (case SOperands MI ! i of SReg r \<Rightarrow> Inr r
      | _ \<Rightarrow> Inl (Assertion ''This is not a register operand!''))"

definition sImm :: "ssa_instr \<Rightarrow> nat \<Rightarrow> u64 outcome" where
  "sImm MI i = asserting (i < length (SOperands MI)) ''getOperand() out of range!''
     (case SOperands MI ! i of SImm v \<Rightarrow> Inr v | _ \<Rightarrow> Inl (Assertion ''Wrong MachineOperand accessor''))"

section \<open>Changing the graph\<close>

definition CreateMachineBasicBlock :: "mfunction \<Rightarrow> nat \<times> mfunction" where
  "CreateMachineBasicBlock F =
     (let b = NextBlock F in
      (b, F\<lparr>NextBlock := Suc b, Instrs := (Instrs F)(b := []), Succs := (Succs F)(b := [])\<rparr>))"

text \<open>Inserting a block before the one at a position of the layout.\<close>

definition insert_block :: "nat \<Rightarrow> nat \<Rightarrow> mfunction \<Rightarrow> mfunction" where
  "insert_block pos b F = F\<lparr>Layout := take pos (Layout F) @ b # drop pos (Layout F)\<rparr>"

text \<open>The instructions after \<open>i\<close> of one block move to the front of another.\<close>

definition splice_after :: "nat \<Rightarrow> nat \<Rightarrow> nat \<Rightarrow> mfunction \<Rightarrow> mfunction" where
  "splice_after dst src i F =
     F\<lparr>Instrs := (Instrs F)(dst := drop (Suc i) (Instrs F src) @ Instrs F dst,
                            src := take (Suc i) (Instrs F src))\<rparr>"

definition addSuccessor :: "nat \<Rightarrow> nat \<Rightarrow> mfunction \<Rightarrow> mfunction" where
  "addSuccessor b s F = F\<lparr>Succs := (Succs F)(b := Succs F b @ [s])\<rparr>"

definition update_phi :: "nat \<Rightarrow> nat \<Rightarrow> ssa_instr \<Rightarrow> ssa_instr" where
  "update_phi old new MI =
     MI\<lparr>SOperands := List.map (\<lambda>MO. if MO = SMBB old then SMBB new else MO) (SOperands MI)\<rparr>"

definition update_phis :: "nat \<Rightarrow> nat \<Rightarrow> ssa_instr list \<Rightarrow> ssa_instr list" where
  "update_phis old new MIs = List.map (update_phi old new) (takeWhile isPHI MIs) @ dropWhile isPHI MIs"

definition transferSuccessorsAndUpdatePHIs :: "nat \<Rightarrow> nat \<Rightarrow> mfunction \<Rightarrow> mfunction" where
  "transferSuccessorsAndUpdatePHIs to from F = (if to = from then F else
     F\<lparr>Succs := (Succs F)(to := Succs F to @ Succs F from, from := []),
       Instrs := (\<lambda>b. if b \<in> set (Succs F from) then update_phis from to (Instrs F b) else Instrs F b)\<rparr>)"

definition createVirtualRegister :: "mfunction \<Rightarrow> vreg \<times> mfunction" where
  "createVirtualRegister F = (Virt (NextVReg F), F\<lparr>NextVReg := Suc (NextVReg F)\<rparr>)"

definition append_instrs :: "nat \<Rightarrow> ssa_instr list \<Rightarrow> mfunction \<Rightarrow> mfunction" where
  "append_instrs b MIs F = F\<lparr>Instrs := (Instrs F)(b := Instrs F b @ MIs)\<rparr>"

definition prepend_instr :: "nat \<Rightarrow> ssa_instr \<Rightarrow> mfunction \<Rightarrow> mfunction" where
  "prepend_instr b MI F = F\<lparr>Instrs := (Instrs F)(b := MI # Instrs F b)\<rparr>"

definition erase_instr :: "nat \<Rightarrow> nat \<Rightarrow> mfunction \<Rightarrow> mfunction" where
  "erase_instr b i F = F\<lparr>Instrs := (Instrs F)(b := take i (Instrs F b) @ drop (Suc i) (Instrs F b))\<rparr>"

section \<open>Shift loops\<close>

definition shift_pseudo :: "opcode \<Rightarrow> opcode outcome" where
  "shift_pseudo Opc = (case Opc of
     Misc Lsl8 \<Rightarrow> Inr (Alu LSLRd) | Misc Lsl16 \<Rightarrow> Inr (Wide LSLWRd)
   | Misc Asr8 \<Rightarrow> Inr (Alu ASRRd) | Misc Asr16 \<Rightarrow> Inr (Wide ASRWRd)
   | Misc Lsr8 \<Rightarrow> Inr (Alu LSRRd) | Misc Lsr16 \<Rightarrow> Inr (Wide LSRWRd)
   | Misc Rol8 \<Rightarrow> Inr (Alu ROLRd) | Misc Rol16 \<Rightarrow> Inr (Wide ROLWRd)
   | Misc Ror8 \<Rightarrow> Inr (Alu RORRd) | Misc Ror16 \<Rightarrow> Inr (Wide RORWRd)
   | _ \<Rightarrow> Inl (Unreachable ''Invalid shift opcode!''))"

text \<open>The graph: both new blocks go behind the \<^emph>\<open>first\<close> block of the function.\<close>

definition shift_blocks :: "nat \<Rightarrow> nat \<Rightarrow> mfunction \<Rightarrow> nat \<times> nat \<times> mfunction" where
  "shift_blocks BB i F =
     (let (LoopBB, F) = CreateMachineBasicBlock F;
          (RemBB, F) = CreateMachineBasicBlock F;
          F = insert_block 1 LoopBB F;
          F = insert_block 2 RemBB F;
          F = splice_after RemBB BB i F;
          F = transferSuccessorsAndUpdatePHIs RemBB BB F;
          F = addSuccessor BB LoopBB F;
          F = addSuccessor BB RemBB F;
          F = addSuccessor LoopBB RemBB F;
          F = addSuccessor LoopBB LoopBB F
      in (LoopBB, RemBB, F))"

definition insertShift :: "mfunction \<Rightarrow> nat \<Rightarrow> nat \<Rightarrow> (mfunction \<times> nat) outcome" where
  "insertShift F BB i =
     (let MI = Instrs F BB ! i in
      obind (shift_pseudo (SOpcode MI)) (\<lambda>Opc.
      let (LoopBB, RemBB, F) = shift_blocks BB i F;
          (ShiftAmtReg, F) = createVirtualRegister F;
          (ShiftAmtReg2, F) = createVirtualRegister F;
          (ShiftReg, F) = createVirtualRegister F;
          (ShiftReg2, F) = createVirtualRegister F
      in obind (sReg MI 2) (\<lambda>ShiftAmtSrcReg. obind (sReg MI 1) (\<lambda>SrcReg. obind (sReg MI 0) (\<lambda>DstReg.
        let F = append_instrs BB [SMI (Alu CPIRdK) [SReg ShiftAmtSrcReg, SImm 0],
                                  SMI (Br BREQk) [SMBB RemBB]] F;
            F = append_instrs LoopBB
              [SMI (Misc PHI) [SReg ShiftReg, SReg SrcReg, SMBB BB, SReg ShiftReg2, SMBB LoopBB],
               SMI (Misc PHI) [SReg ShiftAmtReg, SReg ShiftAmtSrcReg, SMBB BB, SReg ShiftAmtReg2, SMBB LoopBB],
               SMI Opc [SReg ShiftReg2, SReg ShiftReg],
               SMI (Alu SUBIRdK) [SReg ShiftAmtReg2, SReg ShiftAmtReg, SImm 1],
               SMI (Br BRNEk) [SMBB LoopBB]] F;
            F = prepend_instr RemBB
              (SMI (Misc PHI) [SReg DstReg, SReg SrcReg, SMBB BB, SReg ShiftReg2, SMBB LoopBB]) F
        in Inr (erase_instr BB i F, RemBB))))))"

section \<open>Selections\<close>

text \<open>The position of a block in the layout, plus one; the end when it is not there.\<close>

fun after_block :: "nat \<Rightarrow> nat list \<Rightarrow> nat" where
  "after_block b [] = 0"
| "after_block b (x # xs) = (if x = b then 1 else Suc (after_block b xs))"

text \<open>The immediate of the condition is an enumerator of \<open>SNESCC::CondCodes\<close>.\<close>

definition cond_of_imm :: "u64 \<Rightarrow> CondCodes" where
  "cond_of_imm v = (if v < 8
     then [COND_EQ, COND_NE, COND_GE, COND_LT, COND_SH, COND_LO, COND_MI, COND_PL] ! unat v
     else COND_INVALID)"

definition insertSelect :: "mfunction \<Rightarrow> nat \<Rightarrow> nat \<Rightarrow> (mfunction \<times> nat) outcome" where
  "insertSelect F MBB i =
     (let MI = Instrs F MBB ! i;
          (trueMBB, F) = CreateMachineBasicBlock F;
          (falseMBB, F) = CreateMachineBasicBlock F;
          I = after_block MBB (Layout F);
          F = insert_block I trueMBB F;
          F = insert_block (Suc I) falseMBB F;
          F = splice_after trueMBB MBB i F;
          F = transferSuccessorsAndUpdatePHIs trueMBB MBB F
      in obind (sImm MI 3) (\<lambda>CC. obind (getBrCond (cond_of_imm CC)) (\<lambda>JCC.
         obind (sReg MI 0) (\<lambda>Dst. obind (sReg MI 1) (\<lambda>TrueReg. obind (sReg MI 2) (\<lambda>FalseReg.
        let F = append_instrs MBB [SMI JCC [SMBB trueMBB], SMI (Br RJMPk) [SMBB falseMBB]] F;
            F = addSuccessor MBB falseMBB F;
            F = addSuccessor MBB trueMBB F;
            F = append_instrs falseMBB [SMI (Br RJMPk) [SMBB trueMBB]] F;
            F = addSuccessor falseMBB trueMBB F;
            F = prepend_instr trueMBB
              (SMI (Misc PHI) [SReg Dst, SReg TrueReg, SMBB MBB, SReg FalseReg, SMBB falseMBB]) F
        in Inr (erase_instr MBB i F, trueMBB)))))))"

section \<open>Multiplications\<close>

text \<open>Looking at an instruction through an iterator; the end cannot be dereferenced.\<close>

definition isCopyMulResult :: "ssa_instr list \<Rightarrow> nat \<Rightarrow> bool outcome" where
  "isCopyMulResult MIs I =
     asserting (I < length MIs) ''!NodePtr->isKnownSentinel()''
       (if SOpcode (MIs ! I) = Misc COPY
        then obind (sReg (MIs ! I) 1) (\<lambda>SrcReg. Inr (SrcReg = Phys SNES_A)) else Inr False)"

definition insertMul :: "mfunction \<Rightarrow> nat \<Rightarrow> nat \<Rightarrow> (mfunction \<times> nat) outcome" where
  "insertMul F BB i =
     (let MIs = Instrs F BB; I = Suc i in
      obind (isCopyMulResult MIs I) (\<lambda>c1. let I = (if c1 then Suc I else I) in
      obind (isCopyMulResult MIs I) (\<lambda>c2. let I = (if c2 then Suc I else I) in
        Inr (F\<lparr>Instrs := (Instrs F)(BB := take I MIs
               @ SMI (Alu EORRdRr) [SReg (Phys SNES_A), SReg (Phys SNES_A), SReg (Phys SNES_A)]
               # drop I MIs)\<rparr>, BB))))"

definition EmitInstrWithCustomInserter :: "mfunction \<Rightarrow> nat \<Rightarrow> nat \<Rightarrow> (mfunction \<times> nat) outcome" where
  "EmitInstrWithCustomInserter F MBB i =
     (let Opc = SOpcode (Instrs F MBB ! i) in
      if Opc \<in> Misc ` set shift_loops then insertShift F MBB i
      else if Opc \<in> {Alu MULRdRr, Alu MULSRdRr} then insertMul F MBB i
      else asserting (Opc = Misc Select16 \<or> Opc = Misc Select8) ''Unexpected instr type to insert''
        (insertSelect F MBB i))"

section \<open>Execution\<close>

record config =
  cBlock :: nat
  cPrev :: nat
  cPc :: nat
  cEnv :: "vreg \<Rightarrow> u16"
  cFlags :: flags

text \<open>The \<open>PHI\<close> instructions of a block act together when the block is entered.\<close>

fun incoming :: "nat \<Rightarrow> ssa_operand list \<Rightarrow> vreg option" where
  "incoming p (SReg r # SMBB b # ops) = (if b = p then Some r else incoming p ops)"
| "incoming p _ = None"

definition phi_update :: "nat \<Rightarrow> (vreg \<Rightarrow> u16) \<Rightarrow> ssa_instr \<Rightarrow> (vreg \<Rightarrow> u16) \<Rightarrow> (vreg \<Rightarrow> u16)" where
  "phi_update p old MI env = (case SOperands MI of
     SReg d # ops \<Rightarrow> (case incoming p ops of Some r \<Rightarrow> env(d := old r) | None \<Rightarrow> env) | _ \<Rightarrow> env)"

definition goto :: "mfunction \<Rightarrow> nat \<Rightarrow> config \<Rightarrow> config" where
  "goto F b c =
     (let phis = takeWhile isPHI (Instrs F b) in
      c\<lparr>cBlock := b, cPrev := cBlock c, cPc := length phis,
        cEnv := fold (phi_update (cBlock c) (cEnv c)) phis (cEnv c)\<rparr>)"

definition fetch :: "mfunction \<Rightarrow> config \<Rightarrow> ssa_instr option" where
  "fetch F c = (let MIs = Instrs F (cBlock c) in if cPc c < length MIs then Some (MIs ! cPc c) else None)"

fun layout_next :: "nat \<Rightarrow> nat list \<Rightarrow> nat option" where
  "layout_next b (x # y # xs) = (if x = b then Some y else layout_next b (y # xs))"
| "layout_next b _ = None"

definition shift_instrs :: "opcode list" where
  "shift_instrs = [Alu LSLRd, Wide LSLWRd, Alu ASRRd, Wide ASRWRd, Alu LSRRd, Wide LSRWRd]"

text \<open>
  One step: comparing with an immediate and subtracting one set the zero flag (and leave the
  others open), a shift has the value that \<open>shift\<close> gives, a branch is taken when its condition
  holds, and the end of a block runs into the next one of the layout.
\<close>

inductive ssa_step :: "(opcode \<Rightarrow> u16 \<Rightarrow> u16) \<Rightarrow> mfunction \<Rightarrow> config \<Rightarrow> config \<Rightarrow> bool"
  for shift F where
  compare: "fetch F c = Some (SMI (Alu CPIRdK) [SReg r, SImm k]) \<Longrightarrow>
     Z_flag G = (ucast (cEnv c r) = (ucast k :: u8)) \<Longrightarrow>
     ssa_step shift F c (c\<lparr>cPc := Suc (cPc c), cFlags := G\<rparr>)"
| subtract: "fetch F c = Some (SMI (Alu SUBIRdK) [SReg d, SReg r, SImm k]) \<Longrightarrow>
     v = (ucast (cEnv c r) :: u8) - ucast k \<Longrightarrow> Z_flag G = (v = 0) \<Longrightarrow>
     ssa_step shift F c (c\<lparr>cPc := Suc (cPc c), cFlags := G, cEnv := (cEnv c)(d := ucast v)\<rparr>)"
| shift: "fetch F c = Some (SMI opc [SReg d, SReg r]) \<Longrightarrow> opc \<in> set shift_instrs \<Longrightarrow>
     ssa_step shift F c (c\<lparr>cPc := Suc (cPc c), cFlags := G, cEnv := (cEnv c)(d := shift opc (cEnv c r))\<rparr>)"
| branch: "fetch F c = Some (SMI opc [SMBB b]) \<Longrightarrow> getCondFromBranchOpc opc \<noteq> COND_INVALID \<Longrightarrow>
     c' = (if cond_holds (cFlags c) (getCondFromBranchOpc opc) then goto F b c else c\<lparr>cPc := Suc (cPc c)\<rparr>) \<Longrightarrow>
     ssa_step shift F c c'"
| jump: "fetch F c = Some (SMI (Br RJMPk) [SMBB b]) \<Longrightarrow> ssa_step shift F c (goto F b c)"
| fall: "fetch F c = None \<Longrightarrow> layout_next (cBlock c) (Layout F) = Some b \<Longrightarrow>
     ssa_step shift F c (goto F b c)"

text \<open>Every execution makes at least \<open>n\<close> more steps, and after them \<open>Q\<close> holds.\<close>

fun runs :: "(opcode \<Rightarrow> u16 \<Rightarrow> u16) \<Rightarrow> mfunction \<Rightarrow> nat \<Rightarrow> (config \<Rightarrow> bool) \<Rightarrow> config \<Rightarrow> bool" where
  "runs shift F 0 Q c = Q c"
| "runs shift F (Suc n) Q c = ((\<exists>c'. ssa_step shift F c c')
     \<and> (\<forall>c'. ssa_step shift F c c' \<longrightarrow> runs shift F n Q c'))"

section \<open>Running\<close>

lemma SMI_inject [simp]: "SMI a b = SMI c d \<longleftrightarrow> a = c \<and> b = d"
  by (simp add: SMI_def)

lemma SMI_sel [simp]: "SOpcode (SMI a b) = a" "SOperands (SMI a b) = b"
  by (simp_all add: SMI_def)

lemma isPHI_SMI [simp]: "isPHI (SMI a b) \<longleftrightarrow> a = Misc PHI"
  by (simp add: isPHI_def)

lemma flags_with_zero: "\<exists>G :: flags. Z_flag G = z"
  by (rule exI [of _ "\<lparr>C_flag = False, Z_flag = z, N_flag = False, V_flag = False\<rparr>"]) simp

lemma cond_branches [simp]:
  "getCondFromBranchOpc (Alu a) = COND_INVALID" "getCondFromBranchOpc (Wide w) = COND_INVALID"
  "getCondFromBranchOpc (Br BREQk) = COND_EQ" "getCondFromBranchOpc (Br BRNEk) = COND_NE"
  "getCondFromBranchOpc (Br RJMPk) = COND_INVALID"
  by (simp_all add: getCondFromBranchOpc_def)

lemma shift_instr_forms: "opc \<in> set shift_instrs \<Longrightarrow> getCondFromBranchOpc opc = COND_INVALID"
  "Alu CPIRdK \<notin> set shift_instrs" "Alu SUBIRdK \<notin> set shift_instrs" "Br b \<notin> set shift_instrs"
  by (auto simp: shift_instrs_def)

lemma runs_compare:
  assumes "fetch F c = Some (SMI (Alu CPIRdK) [SReg r, SImm k])"
    and "\<And>G. Z_flag G = (ucast (cEnv c r) = (ucast k :: u8)) \<Longrightarrow>
          runs shift F n Q (c\<lparr>cPc := Suc (cPc c), cFlags := G\<rparr>)"
  shows "runs shift F (Suc n) Q c"
proof -
  obtain G :: flags where "Z_flag G = (ucast (cEnv c r) = (ucast k :: u8))" using flags_with_zero by blast
  then have "\<exists>c'. ssa_step shift F c c'" using ssa_step.compare [OF assms(1)] by blast
  then show ?thesis using assms by (simp, auto simp: ssa_step.simps shift_instr_forms)
qed

lemma runs_subtract:
  assumes "fetch F c = Some (SMI (Alu SUBIRdK) [SReg d, SReg r, SImm k])"
    and "\<And>G v. v = (ucast (cEnv c r) :: u8) - ucast k \<Longrightarrow> Z_flag G = (v = 0) \<Longrightarrow>
          runs shift F n Q (c\<lparr>cPc := Suc (cPc c), cFlags := G, cEnv := (cEnv c)(d := ucast v)\<rparr>)"
  shows "runs shift F (Suc n) Q c"
proof -
  obtain G :: flags where "Z_flag G = ((ucast (cEnv c r) :: u8) - ucast k = 0)" using flags_with_zero by blast
  then have "\<exists>c'. ssa_step shift F c c'" using ssa_step.subtract [OF assms(1) refl] by blast
  then show ?thesis using assms by (simp, auto simp: ssa_step.simps shift_instr_forms)
qed

lemma runs_shift:
  assumes "fetch F c = Some (SMI opc [SReg d, SReg r])" "opc \<in> set shift_instrs"
    and "\<And>G. runs shift F n Q (c\<lparr>cPc := Suc (cPc c), cFlags := G, cEnv := (cEnv c)(d := shift opc (cEnv c r))\<rparr>)"
  shows "runs shift F (Suc n) Q c"
proof -
  have "\<exists>c'. ssa_step shift F c c'" using ssa_step.shift [OF assms(1,2)] by blast
  then show ?thesis using assms by (simp, auto simp: ssa_step.simps shift_instr_forms)
qed

lemma runs_branch:
  assumes "fetch F c = Some (SMI opc [SMBB b])" "getCondFromBranchOpc opc = cc" "cc \<noteq> COND_INVALID"
    and "cond_holds (cFlags c) cc \<Longrightarrow> runs shift F n Q (goto F b c)"
    and "\<not> cond_holds (cFlags c) cc \<Longrightarrow> runs shift F n Q (c\<lparr>cPc := Suc (cPc c)\<rparr>)"
  shows "runs shift F (Suc n) Q c"
  using assms by (auto simp: ssa_step.simps shift_instr_forms)

lemma runs_jump:
  assumes "fetch F c = Some (SMI (Br RJMPk) [SMBB b])" "runs shift F n Q (goto F b c)"
  shows "runs shift F (Suc n) Q c"
  using assms by (auto simp: ssa_step.simps shift_instr_forms)

lemma runs_fall:
  assumes "fetch F c = None" "layout_next (cBlock c) (Layout F) = Some b" "runs shift F n Q (goto F b c)"
  shows "runs shift F (Suc n) Q c"
  using assms by (auto simp: ssa_step.simps)

lemma runs_mono: "runs shift F n Q c \<Longrightarrow> (\<And>c. Q c \<Longrightarrow> Q' c) \<Longrightarrow> runs shift F n Q' c"
  by (induction n arbitrary: c) auto

section \<open>The shift loop\<close>

definition known_vreg :: "mfunction \<Rightarrow> vreg \<Rightarrow> bool" where
  "known_vreg F r = (case r of Phys _ \<Rightarrow> True | Virt k \<Rightarrow> k < NextVReg F)"

lemma length_update_phis [simp]: "length (update_phis a b MIs) = length MIs"
  unfolding update_phis_def length_append length_map
  by (metis length_append takeWhile_dropWhile_id)

definition loop_instrs :: "nat \<Rightarrow> nat \<Rightarrow> opcode \<Rightarrow> vreg \<Rightarrow> vreg \<Rightarrow> nat \<Rightarrow> ssa_instr list" where
  "loop_instrs BB LoopBB Opc src amt n =
     [SMI (Misc PHI) [SReg (Virt (n + 2)), SReg src, SMBB BB, SReg (Virt (n + 3)), SMBB LoopBB],
      SMI (Misc PHI) [SReg (Virt n), SReg amt, SMBB BB, SReg (Virt (n + 1)), SMBB LoopBB],
      SMI Opc [SReg (Virt (n + 3)), SReg (Virt (n + 2))],
      SMI (Alu SUBIRdK) [SReg (Virt (n + 1)), SReg (Virt n), SImm 1],
      SMI (Br BRNEk) [SMBB LoopBB]]"

text \<open>The graph after the blocks are made: the moved instructions, with the updates in the block itself.\<close>

definition kept_instrs :: "mfunction \<Rightarrow> nat \<Rightarrow> nat \<Rightarrow> nat \<Rightarrow> ssa_instr list" where
  "kept_instrs F BB i new = (if BB \<in> set (Succs F BB)
     then update_phis BB new (take (Suc i) (Instrs F BB)) else take (Suc i) (Instrs F BB))"

lemma length_kept: "i < length (Instrs F BB) \<Longrightarrow> length (kept_instrs F BB i new) = Suc i"
  by (simp add: kept_instrs_def)

definition moved_instrs :: "mfunction \<Rightarrow> nat \<Rightarrow> nat \<Rightarrow> nat \<Rightarrow> nat \<Rightarrow> ssa_instr list" where
  "moved_instrs F BB i to b = (if b = BB then kept_instrs F BB i to
     else if b = to then drop (Suc i) (Instrs F BB)
     else if b \<in> set (Succs F BB) then update_phis BB to (Instrs F b) else Instrs F b)"

lemma move_tail:
  assumes "Instrs G = (Instrs F)(L := [], R := [])" "Succs G = (Succs F)(L := [], R := [])"
    and "BB \<noteq> L" "BB \<noteq> R" "L \<notin> set (Succs F BB)" "R \<notin> set (Succs F BB)" "to \<in> {L, R}" "L \<noteq> R"
  shows "Instrs (transferSuccessorsAndUpdatePHIs to BB (splice_after to BB i G))
      = (moved_instrs F BB i to)((if to = L then R else L) := [])"
    and "Layout (transferSuccessorsAndUpdatePHIs to BB (splice_after to BB i G)) = Layout G"
    and "NextVReg (transferSuccessorsAndUpdatePHIs to BB (splice_after to BB i G)) = NextVReg G"
  using assms
  by (auto simp: transferSuccessorsAndUpdatePHIs_def splice_after_def moved_instrs_def kept_instrs_def fun_eq_iff)

lemma shift_blocks_shape:
  assumes "BB < NextBlock F" "\<forall>s \<in> set (Succs F BB). s < NextBlock F" and "Layout F = b0 # rest"
  obtains G where "shift_blocks BB i F = (NextBlock F, Suc (NextBlock F), G)"
    "Instrs G = (moved_instrs F BB i (Suc (NextBlock F)))(NextBlock F := [])"
    "NextVReg G = NextVReg F" "Layout G = b0 # NextBlock F # Suc (NextBlock F) # rest"
proof -
  define L where "L = NextBlock F"
  define H where "H = insert_block 2 (Suc L) (insert_block 1 L
    (snd (CreateMachineBasicBlock (snd (CreateMachineBasicBlock F)))))"
  have H: "Instrs H = (Instrs F)(L := [], Suc L := [])" "Succs H = (Succs F)(L := [], Suc L := [])"
    "Layout H = b0 # L # Suc L # rest" "NextVReg H = NextVReg F"
    using assms(3) by (simp_all add: H_def insert_block_def CreateMachineBasicBlock_def Let_def L_def)
  have ne: "BB \<noteq> L" "BB \<noteq> Suc L" "L \<notin> set (Succs F BB)" "Suc L \<notin> set (Succs F BB)"
    using assms L_def by auto
  have mv: "Instrs (transferSuccessorsAndUpdatePHIs (Suc L) BB (splice_after (Suc L) BB i H))
      = (moved_instrs F BB i (Suc L))(L := [])"
    "Layout (transferSuccessorsAndUpdatePHIs (Suc L) BB (splice_after (Suc L) BB i H)) = Layout H"
    "NextVReg (transferSuccessorsAndUpdatePHIs (Suc L) BB (splice_after (Suc L) BB i H)) = NextVReg H"
    using move_tail [OF H(1,2) ne, of "Suc L" i] by simp_all
  show ?thesis
  proof (rule that)
    show "shift_blocks BB i F = (NextBlock F, Suc (NextBlock F),
       addSuccessor L L (addSuccessor L (Suc L) (addSuccessor BB (Suc L) (addSuccessor BB L
         (transferSuccessorsAndUpdatePHIs (Suc L) BB (splice_after (Suc L) BB i H))))))"
      by (simp add: shift_blocks_def H_def L_def CreateMachineBasicBlock_def Let_def)
  qed (simp_all only: addSuccessor_def mfunction.simps mfunction.update_convs mv H L_def, simp_all add: mv H L_def [symmetric])
qed

lemma insertShift_shape:
  assumes "i < length (Instrs F BB)" "BB < NextBlock F" "\<forall>s \<in> set (Succs F BB). s < NextBlock F"
    and "Instrs F BB ! i = SMI opc [SReg dst, SReg src, SReg amt]" "shift_pseudo opc = Inr Opc"
    and L: "L = NextBlock F" and n: "n = NextVReg F" and lay: "Layout F = b0 # rest"
  obtains F' pre where "insertShift F BB i = Inr (F', Suc L)" "length pre = i"
    "Instrs F' BB = pre @ [SMI (Alu CPIRdK) [SReg amt, SImm 0], SMI (Br BREQk) [SMBB (Suc L)]]"
    "Instrs F' L = loop_instrs BB L Opc src amt n"
    "Instrs F' (Suc L) = SMI (Misc PHI) [SReg dst, SReg src, SMBB BB, SReg (Virt (n + 3)), SMBB L]
       # drop (Suc i) (Instrs F BB)"
    "Layout F' = b0 # L # Suc L # rest"
proof -
  have ne: "BB \<noteq> L" "BB \<noteq> Suc L" using assms(2) L by auto
  obtain G where G: "shift_blocks BB i F = (L, Suc L, G)"
    "Instrs G = (moved_instrs F BB i (Suc L))(L := [])" "NextVReg G = n" "Layout G = b0 # L # Suc L # rest"
    using shift_blocks_shape [OF assms(2,3) lay, of i] L n by metis
  define pre where "pre = take i (kept_instrs F BB i (Suc L))"
  have K: "length (kept_instrs F BB i (Suc L)) = Suc i" by (rule length_kept [OF assms(1)])
  have moved: "moved_instrs F BB i (Suc L) BB = kept_instrs F BB i (Suc L)"
    "moved_instrs F BB i (Suc L) (Suc L) = drop (Suc i) (Instrs F BB)"
    using ne by (simp_all add: moved_instrs_def)
  define F' where "F' = G\<lparr>NextVReg := Suc (Suc (Suc (Suc n))),
     Instrs := (moved_instrs F BB i (Suc L))
       (L := loop_instrs BB L Opc src amt n,
        Suc L := SMI (Misc PHI) [SReg dst, SReg src, SMBB BB, SReg (Virt (n + 3)), SMBB L]
          # drop (Suc i) (Instrs F BB),
        BB := pre @ [SMI (Alu CPIRdK) [SReg amt, SImm 0], SMI (Br BREQk) [SMBB (Suc L)]])\<rparr>"
  show ?thesis
  proof (rule that [of F' pre])
    show "length pre = i" using K by (simp add: pre_def)
    show "insertShift F BB i = Inr (F', Suc L)"
      using assms(4,5) G(3,4) ne K
      by (simp add: insertShift_def G(1,2) Let_def sReg_def createVirtualRegister_def F'_def
        append_instrs_def prepend_instr_def erase_instr_def loop_instrs_def moved pre_def numeral_3_eq_3)
  qed (use ne G(4) in \<open>simp_all add: F'_def\<close>)
qed

lemma byte_in_word [simp]: "ucast (ucast (b :: u8) :: u16) = b"
  by (rule bit_word_eqI) (simp add: bit_simps)

lemma shift_instr_not_phi: "Opc \<in> set shift_instrs \<Longrightarrow> Opc \<noteq> Misc PHI"
  by (auto simp: shift_instrs_def)

lemma goto_loop:
  assumes "Instrs F L = loop_instrs BB L Opc src amt n" "Opc \<in> set shift_instrs" "L \<noteq> BB"
    and "cBlock c = BB \<or> cBlock c = L"
  shows "goto F L c = c\<lparr>cBlock := L, cPrev := cBlock c, cPc := 2,
     cEnv := (cEnv c)(Virt (n + 2) := cEnv c (if cBlock c = BB then src else Virt (n + 3)),
                      Virt n := cEnv c (if cBlock c = BB then amt else Virt (n + 1)))\<rparr>"
  using assms(2-) shift_instr_not_phi [OF assms(2)]
  by (auto simp: goto_def Let_def assms(1) loop_instrs_def phi_update_def)

text \<open>The result of the loop: the value shifted so often, and nothing else that was there before.\<close>

definition shifted :: "nat \<Rightarrow> nat \<Rightarrow> vreg \<Rightarrow> u16 \<Rightarrow> (vreg \<Rightarrow> u16) \<Rightarrow> config \<Rightarrow> bool" where
  "shifted R n dst v env c \<longleftrightarrow> cBlock c = R \<and> cPc c = 1 \<and> cEnv c dst = v
     \<and> (\<forall>r. r \<notin> {dst, Virt n, Virt (n + 1), Virt (n + 2), Virt (n + 3)} \<longrightarrow> cEnv c r = env r)"

lemma loop_iteration:
  assumes IL: "Instrs F L = loop_instrs BB L Opc src amt n" and Opc: "Opc \<in> set shift_instrs" and ne: "L \<noteq> BB"
    and c: "cBlock c = L" "cPc c = 2"
    and e: "e = (cEnv c)(Virt (n + 3) := shift Opc (cEnv c (Virt (n + 2))),
                         Virt (n + 1) := ucast ((ucast (cEnv c (Virt n)) :: u8) - 1))"
    and last: "\<And>c'. ucast (cEnv c (Virt n)) = (1 :: u8) \<Longrightarrow> cBlock c' = L \<Longrightarrow> cPc c' = 5 \<Longrightarrow> cEnv c' = e
      \<Longrightarrow> runs shift F m Q c'"
    and again: "\<And>c'. ucast (cEnv c (Virt n)) \<noteq> (1 :: u8) \<Longrightarrow> cBlock c' = L \<Longrightarrow> cPc c' = 2
      \<Longrightarrow> cEnv c' = e(Virt (n + 2) := e (Virt (n + 3)), Virt n := e (Virt (n + 1))) \<Longrightarrow> runs shift F m Q c'"
  shows "runs shift F (Suc (Suc (Suc m))) Q c"
proof -
  have fetch: "fetch F c' = Some (SMI Opc [SReg (Virt (n + 3)), SReg (Virt (n + 2))])"
    if "cBlock c' = L" "cPc c' = 2" for c'
    using that by (simp add: fetch_def IL loop_instrs_def)
  have fetch': "fetch F c' = Some (SMI (Alu SUBIRdK) [SReg (Virt (n + 1)), SReg (Virt n), SImm 1])"
    if "cBlock c' = L" "cPc c' = 3" for c'
    using that by (simp add: fetch_def IL loop_instrs_def)
  have fetch'': "fetch F c' = Some (SMI (Br BRNEk) [SMBB L])" if "cBlock c' = L" "cPc c' = 4" for c'
    using that by (simp add: fetch_def IL loop_instrs_def)
  show ?thesis
  proof (rule runs_shift [OF fetch [OF c] Opc], rule runs_subtract [OF fetch'])
    fix G :: flags and G' :: flags and v :: u8
    let ?c = "c\<lparr>cPc := Suc (cPc c), cFlags := G, cEnv := (cEnv c)(Virt (n + 3) := shift Opc (cEnv c (Virt (n + 2))))\<rparr>"
    let ?d = "?c\<lparr>cPc := Suc (cPc ?c), cFlags := G', cEnv := (cEnv ?c)(Virt (n + 1) := ucast v)\<rparr>"
    assume v: "v = (ucast (cEnv ?c (Virt n)) :: u8) - ucast (1 :: u64)" and z: "Z_flag G' = (v = 0)"
    define d where "d = ?d"
    have d: "cBlock d = L" "cPc d = 4" and env: "cEnv d = e" using c v by (simp_all add: d_def e)
    have z1: "cond_holds (cFlags d) COND_NE \<longleftrightarrow> ucast (cEnv c (Virt n)) \<noteq> (1 :: u8)"
      using z v by (simp add: d_def cond_holds_def)
    have g: "goto F L d = d\<lparr>cBlock := L, cPrev := L, cPc := 2,
        cEnv := e(Virt (n + 2) := e (Virt (n + 3)), Virt n := e (Virt (n + 1)))\<rparr>"
      using goto_loop [OF IL Opc ne, of d] d ne env by simp
    have "runs shift F (Suc m) Q d"
    proof (rule runs_branch [OF fetch'' [OF d]])
      show "runs shift F m Q (goto F L d)" if "cond_holds (cFlags d) COND_NE"
        by (rule again) (use that z1 g in simp_all)
      show "runs shift F m Q (d\<lparr>cPc := Suc (cPc d)\<rparr>)" if "\<not> cond_holds (cFlags d) COND_NE"
        by (rule last) (use that z1 d env in simp_all)
    qed simp_all
    then show "runs shift F (Suc m) Q ?d" by (simp only: d_def)
  qed (use c in simp_all)
qed

lemma shift_loop_runs:
  assumes IL: "Instrs F L = loop_instrs BB L Opc src amt n" and Opc: "Opc \<in> set shift_instrs"
    and IR: "Instrs F R = SMI (Misc PHI) [SReg dst, SReg src, SMBB BB, SReg (Virt (n + 3)), SMBB L] # rest"
    and rest: "takeWhile isPHI rest = []" and lay: "layout_next L (Layout F) = Some R" and ne: "L \<noteq> BB"
    and c: "cBlock c = L" "cPc c = 2" and k: "unat (ucast (cEnv c (Virt n)) :: u8) = Suc k"
  shows "runs shift F (3 * Suc k + 1)
     (shifted R n dst ((shift Opc ^^ Suc k) (cEnv c (Virt (n + 2)))) (cEnv c)) c"
  using c k
proof (induction k arbitrary: c)
  case (0 c)
  let ?v = "shift Opc (cEnv c (Virt (n + 2)))"
  have one: "ucast (cEnv c (Virt n)) = (1 :: u8)" using 0(3) by (simp add: word_unat_eq_iff)
  have "runs shift F (Suc (Suc (Suc (Suc 0)))) (shifted R n dst ?v (cEnv c)) c"
  proof (rule loop_iteration [OF IL Opc ne 0(1,2) refl])
    fix c' :: config assume c': "cBlock c' = L" "cPc c' = 5" and env: "cEnv c' = (cEnv c)
      (Virt (n + 3) := ?v, Virt (n + 1) := ucast ((ucast (cEnv c (Virt n)) :: u8) - 1))"
    have "goto F R c' = c'\<lparr>cBlock := R, cPrev := L, cPc := 1, cEnv := (cEnv c')(dst := cEnv c' (Virt (n + 3)))\<rparr>"
      using c' ne rest by (simp add: goto_def Let_def IR phi_update_def)
    then have "shifted R n dst ?v (cEnv c) (goto F R c')" by (simp add: shifted_def env)
    moreover have "fetch F c' = None" using c' by (simp add: fetch_def IL loop_instrs_def)
    ultimately show "runs shift F (Suc 0) (shifted R n dst ?v (cEnv c)) c'"
      using c' lay by (intro runs_fall [of F c' R]) simp_all
  qed (simp add: one)
  then show ?case by (simp add: numeral_eq_Suc)
next
  case (Suc k c)
  let ?a = "ucast (cEnv c (Virt n)) :: u8" and ?v = "shift Opc (cEnv c (Virt (n + 2)))"
  have a: "unat (?a - 1) = Suc k" "?a \<noteq> 1" 
  proof -
    have "?a \<noteq> 0" using Suc.prems(3) by (intro notI) simp
    then show "unat (?a - 1) = Suc k" using Suc.prems(3) unat_minus_one [of ?a] by simp
    show "?a \<noteq> 1" using Suc.prems(3) by (intro notI) simp
  qed
  have "runs shift F (Suc (Suc (Suc (3 * Suc k + 1))))
      (shifted R n dst ((shift Opc ^^ Suc k) ?v) (cEnv c)) c"
  proof (rule loop_iteration [OF IL Opc ne Suc.prems(1,2) refl])
    let ?e = "(cEnv c)(Virt (n + 3) := ?v, Virt (n + 1) := ucast (?a - 1))"
    fix c' :: config assume c': "cBlock c' = L" "cPc c' = 2"
      and "cEnv c' = ?e(Virt (n + 2) := ?e (Virt (n + 3)), Virt n := ?e (Virt (n + 1)))"
    then have env: "cEnv c' = ?e(Virt (n + 2) := ?v, Virt n := ucast (?a - 1))" by simp
    have "unat (ucast (cEnv c' (Virt n)) :: u8) = Suc k" using a by (simp add: env)
    moreover have "cEnv c' (Virt (n + 2)) = ?v" by (simp add: env)
    ultimately have "runs shift F (3 * Suc k + 1) (shifted R n dst ((shift Opc ^^ Suc k) ?v) (cEnv c')) c'"
      using Suc.IH [OF c'] by metis
    then show "runs shift F (3 * Suc k + 1) (shifted R n dst ((shift Opc ^^ Suc k) ?v) (cEnv c)) c'"
      by (rule runs_mono) (auto simp: shifted_def env)
  qed (use a in simp_all)
  then show ?case by (simp add: funpow_Suc_right del: funpow.simps)
qed

text \<open>
  Property C14. Replacing a shift by a variable amount in the first block of a function gives
  a loop that every execution leaves after as many rounds as the amount says: the result
  register holds the value shifted that often, every register that the function knew keeps
  its value, and the instructions that followed are next. Any amount of 8 bits is allowed,
  none included, and any behaviour of the flags that the instructions do not define.
\<close>

theorem insertShift_correct:
  assumes "Layout F = BB # rest" "BB < NextBlock F" "\<forall>s \<in> set (Succs F BB). s < NextBlock F"
    and "i < length (Instrs F BB)" "Instrs F BB ! i = SMI opc [SReg dst, SReg src, SReg amt]"
    and "takeWhile isPHI (drop (Suc i) (Instrs F BB)) = []"
    and "\<forall>r \<in> {dst, src, amt}. known_vreg F r"
    and "shift_pseudo opc = Inr Opc" "Opc \<in> set shift_instrs"
    and c: "cBlock c = BB" "cPc c = i" and k: "k = unat (ucast (cEnv c amt) :: u8)"
  shows "\<exists>F' Rem. insertShift F BB i = Inr (F', Rem) \<and> tl (Instrs F' Rem) = drop (Suc i) (Instrs F BB)
    \<and> runs shift F' (if k = 0 then 2 else 3 * k + 4)
        (\<lambda>c'. cBlock c' = Rem \<and> cPc c' = 1 \<and> cEnv c' dst = (shift Opc ^^ k) (cEnv c src)
           \<and> (\<forall>r. known_vreg F r \<longrightarrow> r \<noteq> dst \<longrightarrow> cEnv c' r = cEnv c r)) c"
proof -
  define L n where "L = NextBlock F" and "n = NextVReg F"
  obtain F' pre where F': "insertShift F BB i = Inr (F', Suc L)" and pre: "length pre = i"
    and IB: "Instrs F' BB = pre @ [SMI (Alu CPIRdK) [SReg amt, SImm 0], SMI (Br BREQk) [SMBB (Suc L)]]"
    and IL: "Instrs F' L = loop_instrs BB L Opc src amt n"
    and IR: "Instrs F' (Suc L) = SMI (Misc PHI) [SReg dst, SReg src, SMBB BB, SReg (Virt (n + 3)), SMBB L]
       # drop (Suc i) (Instrs F BB)"
    and lay: "Layout F' = BB # L # Suc L # rest"
    using insertShift_shape [OF assms(4,2,3,5,8) L_def n_def assms(1)] .
  have ne: "L \<noteq> BB" "Suc L \<noteq> BB" using assms(2) by (auto simp: L_def)
  have known: "known_vreg F r \<Longrightarrow> r \<notin> {Virt n, Virt (n + 1), Virt (n + 2), Virt (n + 3)}" for r
    by (auto simp: known_vreg_def n_def)
  let ?Q = "\<lambda>c'. cBlock c' = Suc L \<and> cPc c' = 1 \<and> cEnv c' dst = (shift Opc ^^ k) (cEnv c src)
           \<and> (\<forall>r. known_vreg F r \<longrightarrow> r \<noteq> dst \<longrightarrow> cEnv c' r = cEnv c r)"
  have "runs shift F' (Suc (Suc (if k = 0 then 0 else 3 * k + 2))) ?Q c"
  proof (rule runs_compare)
    show "fetch F' c = Some (SMI (Alu CPIRdK) [SReg amt, SImm 0])"
      using c pre by (simp add: fetch_def IB nth_append)
    fix G :: flags
    define d where "d = c\<lparr>cPc := Suc (cPc c), cFlags := G\<rparr>"
    assume "Z_flag G = (ucast (cEnv c amt) = (ucast (0 :: u64) :: u8))"
    then have z: "cond_holds (cFlags d) COND_EQ \<longleftrightarrow> k = 0"
      by (simp add: d_def cond_holds_def k unat_eq_0)
    have d: "cBlock d = BB" "cPc d = Suc i" "cEnv d = cEnv c" using c by (simp_all add: d_def)
    have "runs shift F' (Suc (if k = 0 then 0 else 3 * k + 2)) ?Q d"
    proof (rule runs_branch)
      show "fetch F' d = Some (SMI (Br BREQk) [SMBB (Suc L)])"
        using d pre by (simp add: fetch_def IB nth_append)
      show "runs shift F' (if k = 0 then 0 else 3 * k + 2) ?Q (goto F' (Suc L) d)"
        if "cond_holds (cFlags d) COND_EQ"
        using that z d assms(6) by (simp add: goto_def Let_def IR phi_update_def)
      show "runs shift F' (if k = 0 then 0 else 3 * k + 2) ?Q (d\<lparr>cPc := Suc (cPc d)\<rparr>)"
        if no: "\<not> cond_holds (cFlags d) COND_EQ"
      proof -
        obtain m where m: "k = Suc m" using no z by (cases k) auto
        let ?d = "d\<lparr>cPc := Suc (cPc d)\<rparr>"
        let ?g = "goto F' L ?d"
        have g: "?g = ?d\<lparr>cBlock := L, cPrev := BB, cPc := 2,
            cEnv := (cEnv c)(Virt (n + 2) := cEnv c src, Virt n := cEnv c amt)\<rparr>"
          using goto_loop [OF IL assms(9) ne(1), of ?d] d by simp
        have "runs shift F' (3 * Suc m + 1)
            (shifted (Suc L) n dst ((shift Opc ^^ Suc m) (cEnv ?g (Virt (n + 2)))) (cEnv ?g)) ?g"
          by (rule shift_loop_runs [OF IL assms(9) IR assms(6) _ ne(1)])
            (use lay ne k m in \<open>simp_all add: g\<close>)
        then have "runs shift F' (3 * k + 1) ?Q ?g"
          unfolding m by (rule runs_mono) (use known in \<open>auto simp: shifted_def g\<close>)
        then have "runs shift F' (Suc (3 * k + 1)) ?Q ?d"
          by (rule runs_fall [rotated 2]) (use d pre lay in \<open>simp_all add: fetch_def IB\<close>)
        then show ?thesis using m by simp
      qed
    qed simp_all
    then show "runs shift F' (Suc (if k = 0 then 0 else 3 * k + 2)) ?Q (c\<lparr>cPc := Suc (cPc c), cFlags := G\<rparr>)"
      by (simp only: d_def)
  qed
  moreover have "Suc (Suc (if k = 0 then 0 else 3 * k + 2)) = (if k = 0 then 2 else 3 * k + 4)" by simp
  ultimately show ?thesis
    using F' IR by (intro exI [of _ F'] exI [of _ "Suc L"]) (simp only: list.sel simp_thms)
qed

definition sample_shift :: mfunction where
  "sample_shift = \<lparr>Layout = [0],
     Instrs = (\<lambda>_. [SMI (Misc Lsl8) [SReg (Virt 2), SReg (Virt 0), SReg (Virt 1)], SMI (Misc RET) []]),
     Succs = (\<lambda>_. []), NextBlock = 1, NextVReg = 3\<rparr>"

lemma insertShift_correct_witness:
  "\<exists>F' Rem. insertShift sample_shift 0 0 = Inr (F', Rem)
     \<and> runs (\<lambda>_ v. 2 * v) F' 13 (\<lambda>c'. cEnv c' (Virt 2) = 40)
         \<lparr>cBlock = 0, cPrev = 0, cPc = 0, cEnv = (\<lambda>r. if r = Virt 0 then 5 else 3),
          cFlags = \<lparr>C_flag = False, Z_flag = False, N_flag = False, V_flag = False\<rparr>\<rparr>"
proof -
  let ?c = "\<lparr>cBlock = 0, cPrev = 0, cPc = 0, cEnv = (\<lambda>r. if r = Virt 0 then 5 else 3),
    cFlags = \<lparr>C_flag = False, Z_flag = False, N_flag = False, V_flag = False\<rparr>\<rparr>"
  have pre: "Layout sample_shift = 0 # []" "0 < NextBlock sample_shift"
    "\<forall>s \<in> set (Succs sample_shift 0). s < NextBlock sample_shift" "0 < length (Instrs sample_shift 0)"
    "Instrs sample_shift 0 ! 0 = SMI (Misc Lsl8) [SReg (Virt 2), SReg (Virt 0), SReg (Virt 1)]"
    "takeWhile isPHI (drop (Suc 0) (Instrs sample_shift 0)) = []"
    "\<forall>r \<in> {Virt 2, Virt 0, Virt 1}. known_vreg sample_shift r"
    "shift_pseudo (Misc Lsl8) = Inr (Alu LSLRd)" "Alu LSLRd \<in> set shift_instrs"
    by (simp_all add: sample_shift_def known_vreg_def shift_pseudo_def shift_instrs_def)
  have c: "cBlock ?c = 0" "cPc ?c = 0" "3 = unat (ucast (cEnv ?c (Virt 1)) :: u8)" by simp_all
  obtain F' Rem where F': "insertShift sample_shift 0 0 = Inr (F', Rem)"
    and r: "runs (\<lambda>_ v. 2 * v) F' (if (3::nat) = 0 then 2 else 3 * 3 + 4) (\<lambda>c'. cBlock c' = Rem \<and> cPc c' = 1
      \<and> cEnv c' (Virt 2) = ((\<lambda>v. 2 * v) ^^ 3) (cEnv ?c (Virt 0))
      \<and> (\<forall>r. known_vreg sample_shift r \<longrightarrow> r \<noteq> Virt 2 \<longrightarrow> cEnv c' r = cEnv ?c r)) ?c"
    using insertShift_correct [OF pre c, of "\<lambda>_ v. 2 * v"] by blast
  have "runs (\<lambda>_ v. 2 * v) F' (if (3::nat) = 0 then 2 else 3 * 3 + 4) (\<lambda>c'. cEnv c' (Virt 2) = 40) ?c"
    by (rule runs_mono [OF r]) (simp add: numeral_3_eq_3)
  then have "runs (\<lambda>_ v. 2 * v) F' 13 (\<lambda>c'. cEnv c' (Virt 2) = 40) ?c" by simp
  with F' show ?thesis by blast
qed

lemma layout_next_insert:
  "x \<in> set xs \<Longrightarrow> x \<notin> {b, l, r} \<Longrightarrow> layout_next x (b # l # r # xs) = layout_next x (b # xs)"
  by (cases xs) auto

text \<open>
  In a block that is not the first one of the function the loop is missed: the
  new blocks are placed after the first block, so when the amount is not zero execution runs
  from the comparison into the block that followed before, and neither the shift nor the rest
  of the block is executed.
\<close>

theorem insertShift_misplaced:
  assumes "Layout F = b0 # rest" "BB \<in> set rest" "b0 \<noteq> BB" "layout_next BB (Layout F) = Some nxt"
    and "\<forall>b \<in> set (Layout F). b < NextBlock F" "\<forall>s \<in> set (Succs F BB). s < NextBlock F"
    and "i < length (Instrs F BB)" "Instrs F BB ! i = SMI opc [SReg dst, SReg src, SReg amt]"
    and "shift_pseudo opc = Inr Opc"
    and c: "cBlock c = BB" "cPc c = i" and k: "(ucast (cEnv c amt) :: u8) \<noteq> 0"
  shows "\<exists>F' Rem. insertShift F BB i = Inr (F', Rem) \<and> runs shift F' 3 (\<lambda>c'. cBlock c' = nxt \<and> nxt < NextBlock F) c"
proof -
  define L n where "L = NextBlock F" and "n = NextVReg F"
  have BB: "BB < NextBlock F" using assms(1,2,5) by simp
  have nxt: "nxt < NextBlock F"
  proof -
    have "layout_next x xs = Some y \<Longrightarrow> y \<in> set xs" for x xs y
      by (induction x xs rule: layout_next.induct) (auto split: if_splits)
    then show ?thesis using assms(4,5) by blast
  qed
  obtain F' pre where F': "insertShift F BB i = Inr (F', Suc L)" and pre: "length pre = i"
    and IB: "Instrs F' BB = pre @ [SMI (Alu CPIRdK) [SReg amt, SImm 0], SMI (Br BREQk) [SMBB (Suc L)]]"
    and lay: "Layout F' = b0 # L # Suc L # rest"
    using insertShift_shape [OF assms(7) BB assms(6,8,9) L_def n_def assms(1)] .
  have next': "layout_next BB (Layout F') = Some nxt"
    using layout_next_insert [OF assms(2), of b0 L "Suc L"] assms(1,3,4) BB by (simp add: lay L_def)
  have "runs shift F' (Suc (Suc (Suc 0))) (\<lambda>c'. cBlock c' = nxt \<and> nxt < NextBlock F) c"
  proof (rule runs_compare)
    show "fetch F' c = Some (SMI (Alu CPIRdK) [SReg amt, SImm 0])"
      using c pre by (simp add: fetch_def IB nth_append)
    fix G :: flags
    define d where "d = c\<lparr>cPc := Suc (cPc c), cFlags := G\<rparr>"
    assume "Z_flag G = (ucast (cEnv c amt) = (ucast (0 :: u64) :: u8))"
    then have z: "\<not> cond_holds (cFlags d) COND_EQ" using k by (simp add: d_def cond_holds_def)
    have d: "cBlock d = BB" "cPc d = Suc i" using c by (simp_all add: d_def)
    have "runs shift F' (Suc (Suc 0)) (\<lambda>c'. cBlock c' = nxt \<and> nxt < NextBlock F) d"
    proof (rule runs_branch [where cc = COND_EQ])
      show "fetch F' d = Some (SMI (Br BREQk) [SMBB (Suc L)])"
        using d pre by (simp add: fetch_def IB nth_append)
      show "runs shift F' (Suc 0) (\<lambda>c'. cBlock c' = nxt \<and> nxt < NextBlock F) (d\<lparr>cPc := Suc (cPc d)\<rparr>)"
        by (rule runs_fall) (use d pre next' nxt in \<open>simp_all add: fetch_def IB goto_def Let_def\<close>)
    qed (simp_all add: z)
    then show "runs shift F' (Suc (Suc 0)) (\<lambda>c'. cBlock c' = nxt \<and> nxt < NextBlock F) (c\<lparr>cPc := Suc (cPc c), cFlags := G\<rparr>)"
      by (simp only: d_def)
  qed
  then show ?thesis using F' by (simp add: numeral_3_eq_3)
qed

definition sample_shift_later :: mfunction where
  "sample_shift_later = \<lparr>Layout = [0, 1, 2],
     Instrs = (\<lambda>b. if b = 1 then [SMI (Misc Lsl8) [SReg (Virt 2), SReg (Virt 0), SReg (Virt 1)]] else []),
     Succs = (\<lambda>b. if b < 2 then [Suc b] else []), NextBlock = 3, NextVReg = 3\<rparr>"

lemma insertShift_misplaced_witness:
  "\<exists>F' Rem. insertShift sample_shift_later 1 0 = Inr (F', Rem)
     \<and> runs (\<lambda>_ v. 2 * v) F' 3 (\<lambda>c'. cBlock c' = 2)
         \<lparr>cBlock = 1, cPrev = 0, cPc = 0, cEnv = (\<lambda>_. 3),
          cFlags = \<lparr>C_flag = False, Z_flag = False, N_flag = False, V_flag = False\<rparr>\<rparr>"
proof -
  let ?c = "\<lparr>cBlock = 1, cPrev = 0, cPc = 0, cEnv = (\<lambda>_. 3),
    cFlags = \<lparr>C_flag = False, Z_flag = False, N_flag = False, V_flag = False\<rparr>\<rparr>"
  have pre: "Layout sample_shift_later = 0 # [1, 2]" "1 \<in> set [1, 2 :: nat]" "0 \<noteq> (1 :: nat)"
    "layout_next 1 (Layout sample_shift_later) = Some 2"
    "\<forall>b \<in> set (Layout sample_shift_later). b < NextBlock sample_shift_later"
    "\<forall>s \<in> set (Succs sample_shift_later 1). s < NextBlock sample_shift_later"
    "0 < length (Instrs sample_shift_later 1)"
    "Instrs sample_shift_later 1 ! 0 = SMI (Misc Lsl8) [SReg (Virt 2), SReg (Virt 0), SReg (Virt 1)]"
    "shift_pseudo (Misc Lsl8) = Inr (Alu LSLRd)" "cBlock ?c = 1" "cPc ?c = 0"
    "(ucast (cEnv ?c (Virt 1)) :: u8) \<noteq> 0"
    by (simp_all add: sample_shift_later_def shift_pseudo_def)
  obtain F' Rem where F': "insertShift sample_shift_later 1 0 = Inr (F', Rem)"
    and r: "runs (\<lambda>_ v. 2 * v) F' 3 (\<lambda>c'. cBlock c' = 2 \<and> 2 < NextBlock sample_shift_later) ?c"
    using insertShift_misplaced [OF pre, of "\<lambda>_ v. 2 * v"] by blast
  have "runs (\<lambda>_ v. 2 * v) F' 3 (\<lambda>c'. cBlock c' = 2) ?c" by (rule runs_mono [OF r]) simp
  with F' show ?thesis by blast
qed

section \<open>The selection diamond\<close>

lemma cond_of_imm_valid: "v < 8 \<Longrightarrow> cond_of_imm v \<noteq> COND_INVALID"
proof -
  assume v: "v < 8"
  then have "unat v < 8" by (simp add: word_less_nat_alt)
  then have "unat v \<in> {0, 1, 2, 3, 4, 5, 6, 7}" by auto
  then show ?thesis using v by (auto simp: cond_of_imm_def)
qed

text \<open>
  Property C26. A selection becomes a diamond: every execution reaches the block of the rest
  with the result register holding the first value if the condition holds on the flags and
  the second if not, the flags and all other registers unchanged, and the instructions that
  followed are next.
\<close>

theorem insertSelect_correct:
  assumes "MBB < NextBlock F" "\<forall>s \<in> set (Succs F MBB). s < NextBlock F"
    and "i < length (Instrs F MBB)" "Instrs F MBB ! i = SMI opc [SReg dst, SReg tr, SReg fr, SImm v]" "v < 8"
    and "takeWhile isPHI (drop (Suc i) (Instrs F MBB)) = []"
    and c: "cBlock c = MBB" "cPc c = i"
  shows "\<exists>F' T. insertSelect F MBB i = Inr (F', T) \<and> tl (Instrs F' T) = drop (Suc i) (Instrs F MBB)
    \<and> runs shift F' (if cond_holds (cFlags c) (cond_of_imm v) then 1 else 3)
        (\<lambda>c'. cBlock c' = T \<and> cPc c' = 1 \<and> cFlags c' = cFlags c
           \<and> cEnv c' = (cEnv c)(dst := cEnv c (if cond_holds (cFlags c) (cond_of_imm v) then tr else fr))) c"
proof -
  define T where "T = NextBlock F"
  define I where "I = after_block MBB (Layout F)"
  define H where "H = insert_block (Suc I) (Suc T) (insert_block I T
    (snd (CreateMachineBasicBlock (snd (CreateMachineBasicBlock F)))))"
  define G where "G = transferSuccessorsAndUpdatePHIs T MBB (splice_after T MBB i H)"
  have H: "Instrs H = (Instrs F)(T := [], Suc T := [])" "Succs H = (Succs F)(T := [], Suc T := [])"
    by (simp_all add: H_def insert_block_def CreateMachineBasicBlock_def Let_def T_def)
  have ne: "MBB \<noteq> T" "MBB \<noteq> Suc T" "T \<notin> set (Succs F MBB)" "Suc T \<notin> set (Succs F MBB)"
    using assms(1,2) T_def by auto
  have G: "Instrs G = (moved_instrs F MBB i T)(Suc T := [])"
    using move_tail(1) [OF H ne, of T i] by (simp add: G_def)
  have K: "length (kept_instrs F MBB i T) = Suc i" by (rule length_kept [OF assms(3)])
  have moved: "moved_instrs F MBB i T MBB = kept_instrs F MBB i T"
    "moved_instrs F MBB i T T = drop (Suc i) (Instrs F MBB)"
    using ne by (simp_all add: moved_instrs_def)
  let ?cc = "cond_of_imm v"
  obtain JCC where J: "getBrCond ?cc = Inr JCC" using getBrCond_ok [OF cond_of_imm_valid [OF assms(5)]] by blast
  then have JC: "getCondFromBranchOpc JCC = ?cc" by (rule getCond_getBrCond)
  define pre where "pre = take i (kept_instrs F MBB i T)"
  have pre: "length pre = i" using K by (simp add: pre_def)
  define F' where "F' = erase_instr MBB i (prepend_instr T
      (SMI (Misc PHI) [SReg dst, SReg tr, SMBB MBB, SReg fr, SMBB (Suc T)])
      (addSuccessor (Suc T) T (append_instrs (Suc T) [SMI (Br RJMPk) [SMBB T]]
        (addSuccessor MBB T (addSuccessor MBB (Suc T)
          (append_instrs MBB [SMI JCC [SMBB T], SMI (Br RJMPk) [SMBB (Suc T)]] G))))))"
  have ins: "insertSelect F MBB i = Inr (F', T)"
    using assms(4) J
    by (simp add: F'_def G_def H_def I_def insertSelect_def Let_def sReg_def sImm_def
      CreateMachineBasicBlock_def T_def insert_block_def)
  note ops = F'_def erase_instr_def prepend_instr_def append_instrs_def addSuccessor_def G moved
  have IM: "Instrs F' MBB = pre @ [SMI JCC [SMBB T], SMI (Br RJMPk) [SMBB (Suc T)]]"
    using ne K by (simp add: ops pre_def)
  have IF: "Instrs F' (Suc T) = [SMI (Br RJMPk) [SMBB T]]" using ne by (simp add: ops)
  have IT: "Instrs F' T = SMI (Misc PHI) [SReg dst, SReg tr, SMBB MBB, SReg fr, SMBB (Suc T)]
      # drop (Suc i) (Instrs F MBB)"
    using ne by (simp add: ops)
  define Q where "Q = (\<lambda>c' :: config. cBlock c' = T \<and> cPc c' = 1 \<and> cFlags c' = cFlags c
    \<and> cEnv c' = (cEnv c)(dst := cEnv c (if cond_holds (cFlags c) ?cc then tr else fr)))"
  have enter: "goto F' T d = d\<lparr>cBlock := T, cPrev := cBlock d, cPc := 1,
      cEnv := (cEnv d)(dst := cEnv d (if cBlock d = MBB then tr else fr))\<rparr>"
    if "cBlock d = MBB \<or> cBlock d = Suc T" for d :: config
    using that ne assms(6) by (auto simp: goto_def Let_def IT phi_update_def)
  have start: "fetch F' c = Some (SMI JCC [SMBB T])" using c pre by (simp add: fetch_def IM nth_append)
  have "runs shift F' (if cond_holds (cFlags c) ?cc then Suc 0 else Suc (Suc (Suc 0))) Q c"
  proof (cases "cond_holds (cFlags c) ?cc")
    case True
    then have "Q (goto F' T c)" using enter [of c] c by (simp add: Q_def)
    then show ?thesis
      using True runs_branch [OF start JC cond_of_imm_valid [OF assms(5)], of shift 0 Q] by simp
  next
    case False
    let ?d = "c\<lparr>cPc := Suc (cPc c)\<rparr>"
    let ?e = "goto F' (Suc T) ?d"
    have f1: "fetch F' ?d = Some (SMI (Br RJMPk) [SMBB (Suc T)])"
      using c pre by (simp add: fetch_def IM nth_append)
    have e: "?e = ?d\<lparr>cBlock := Suc T, cPrev := MBB, cPc := 0\<rparr>" using c by (simp add: goto_def Let_def IF)
    have f2: "fetch F' ?e = Some (SMI (Br RJMPk) [SMBB T])" by (simp add: fetch_def IF e)
    have "Q (goto F' T ?e)" using enter [of ?e] False ne by (simp add: Q_def e)
    then have "runs shift F' (Suc (Suc 0)) Q ?d"
      by (intro runs_jump [OF f1] runs_jump [OF f2]) simp
    then show ?thesis
      using False runs_branch [OF start JC cond_of_imm_valid [OF assms(5)], of shift "Suc (Suc 0)" Q] by simp
  qed
  then have "runs shift F' (if cond_holds (cFlags c) ?cc then 1 else 3) Q c"
    by (simp only: One_nat_def numeral_3_eq_3)
  then show ?thesis
    using ins IT unfolding Q_def by (intro exI [of _ F'] exI [of _ T]) (simp only: list.sel simp_thms)
qed

definition sample_select :: mfunction where
  "sample_select = \<lparr>Layout = [0],
     Instrs = (\<lambda>_. [SMI (Misc Select8) [SReg (Virt 2), SReg (Virt 0), SReg (Virt 1), SImm 3]]),
     Succs = (\<lambda>_. []), NextBlock = 1, NextVReg = 3\<rparr>"

lemma insertSelect_correct_witness:
  "\<exists>F' T. insertSelect sample_select 0 0 = Inr (F', T)
     \<and> runs (\<lambda>_ v. v) F' 3 (\<lambda>c'. cBlock c' = T \<and> cEnv c' (Virt 2) = 7)
         \<lparr>cBlock = 0, cPrev = 0, cPc = 0, cEnv = (\<lambda>r. if r = Virt 0 then 5 else 7),
          cFlags = \<lparr>C_flag = False, Z_flag = False, N_flag = False, V_flag = False\<rparr>\<rparr>"
proof -
  let ?c = "\<lparr>cBlock = 0, cPrev = 0, cPc = 0, cEnv = (\<lambda>r. if r = Virt 0 then 5 else 7),
    cFlags = \<lparr>C_flag = False, Z_flag = False, N_flag = False, V_flag = False\<rparr>\<rparr>"
  have pre: "0 < NextBlock sample_select" "\<forall>s \<in> set (Succs sample_select 0). s < NextBlock sample_select"
    "0 < length (Instrs sample_select 0)"
    "Instrs sample_select 0 ! 0 = SMI (Misc Select8) [SReg (Virt 2), SReg (Virt 0), SReg (Virt 1), SImm 3]"
    "(3 :: u64) < 8" "takeWhile isPHI (drop (Suc 0) (Instrs sample_select 0)) = []"
    "cBlock ?c = 0" "cPc ?c = 0"
    by (simp_all add: sample_select_def)
  have cc: "cond_of_imm 3 = COND_LT" by (simp add: cond_of_imm_def)
  have nc: "\<not> cond_holds (cFlags ?c) COND_LT" by (simp add: cond_holds_def S_flag_def)
  obtain F' T where F': "insertSelect sample_select 0 0 = Inr (F', T)"
    and r: "runs (\<lambda>_ v. v) F' (if cond_holds (cFlags ?c) COND_LT then 1 else 3) (\<lambda>c'. cBlock c' = T \<and> cPc c' = 1
      \<and> cFlags c' = cFlags ?c
      \<and> cEnv c' = (cEnv ?c)(Virt 2 := cEnv ?c (if cond_holds (cFlags ?c) COND_LT then Virt 0 else Virt 1))) ?c"
    using insertSelect_correct [OF pre, of "\<lambda>_ v. v"] unfolding cc by blast
  have "runs (\<lambda>_ v. v) F' (if cond_holds (cFlags ?c) COND_LT then 1 else 3) (\<lambda>c'. cBlock c' = T \<and> cEnv c' (Virt 2) = 7) ?c"
    by (rule runs_mono [OF r]) (use nc in simp)
  with F' nc show ?thesis by (simp only: if_False) blast
qed

end
