(* ===== verification/Frame_Lowering.thy ===== *)
theory Frame_Lowering
  imports ISel_Insert Instr_Info
begin

unbundle bit_operations_syntax

text \<open>
  Stack frames: \<open>SNESFrameLowering.cpp\<close> with the frame analyzer and the pass that saves the
  stack pointer around dynamic allocas, \<open>eliminateFrameIndex\<close> of \<open>SNESRegisterInfo.cpp\<close> and
  the pass of \<open>SNESRelaxMemOperations.cpp\<close> for stores with large displacements. The bodies of
  \<open>emitPrologue\<close> and \<open>emitEpilogue\<close> are commented out in the program.
\<close>

section \<open>Frames\<close>

record frame_object =
  SPOffset :: int
  ObjectSize :: nat

record frame_info =
  NumFixedObjects :: nat
  FrameObjects :: "frame_object list"
  StackSize :: u64
  HasVarSizedObjects :: bool

definition getOffsetOfLocalArea :: int where
  "getOffsetOfLocalArea = - 2"

definition getObject :: "frame_info \<Rightarrow> int \<Rightarrow> frame_object outcome" where
  "getObject MFI i =
     (let k = i + int (NumFixedObjects MFI)
      in asserting (0 \<le> k \<and> k < int (length (FrameObjects MFI))) ''Invalid Object Idx!''
           (asserting (ObjectSize (FrameObjects MFI ! nat k) \<noteq> 2 ^ 64 - 1)
              ''Getting frame offset for a dead object?'' (Inr (FrameObjects MFI ! nat k))))"

definition isFixedObjectIndex :: "frame_info \<Rightarrow> int \<Rightarrow> bool" where
  "isFixedObjectIndex MFI i = (i < 0 \<and> - int (NumFixedObjects MFI) \<le> i)"

definition hasFP :: "function_info \<Rightarrow> bool" where
  "hasFP FI = (HasSpills FI \<or> HasAllocas FI \<or> HasStackArgs FI)"

definition hasReservedCallFrame :: "function_info \<Rightarrow> frame_info \<Rightarrow> bool" where
  "hasReservedCallFrame FI MFI = (hasFP FI \<and> \<not> HasVarSizedObjects MFI)"

definition emitPrologue :: "block \<Rightarrow> block" where
  "emitPrologue MBB = MBB"

definition emitEpilogue :: "block \<Rightarrow> block" where
  "emitEpilogue MBB = MBB"

section \<open>Callee-saved registers\<close>

definition FrameSetup :: nat where
  "FrameSetup = 1"

text \<open>The size of the smallest class with the register.\<close>

definition getRegSizeInBits :: "reg \<Rightarrow> nat outcome" where
  "getRegSizeInBits Reg =
     (if class_contains MainRegs Reg \<or> Reg \<in> {SNES_SP, SNES_DP, SNES_PC} then Inr 16
      else if Reg \<in> {SNES_AL, SNES_XL, SNES_YL, SNES_DB, SNES_PB, SNES_P} then Inr 8
      else Inl (Assertion ''Couldn't find the register class''))"

definition callee_saved_check :: "reg \<Rightarrow> 'a outcome \<Rightarrow> 'a outcome" where
  "callee_saved_check Reg k =
     obind (getRegSizeInBits Reg) (\<lambda>size. asserting (size = 16) ''Invalid register size'' k)"

text \<open>The loop of the spills runs from the last register to the first.\<close>

fun spill_loop :: "reg list \<Rightarrow> reg list \<Rightarrow> (reg list \<times> instr list) outcome" where
  "spill_loop [] LiveIns = Inr (LiveIns, [])"
| "spill_loop (Reg # Regs) LiveIns =
     (let IsNotLiveIn = (Reg \<notin> set LiveIns) in
      callee_saved_check Reg
        (obind (spill_loop Regs (if IsNotLiveIn then LiveIns @ [Reg] else LiveIns)) (\<lambda>(LiveIns', MIs).
           Inr (LiveIns', setMIFlags FrameSetup (BuildMI (Mem PHAstk) [use_kill Reg IsNotLiveIn]) # MIs))))"

definition spillCalleeSavedRegisters ::
  "reg list \<Rightarrow> reg list \<Rightarrow> function_info \<Rightarrow> (bool \<times> reg list \<times> instr list \<times> function_info) outcome" where
  "spillCalleeSavedRegisters CSI LiveIns FI =
     (if CSI = [] then Inr (False, LiveIns, [], FI)
      else obind (spill_loop (rev CSI) LiveIns) (\<lambda>(LiveIns', MIs).
             Inr (True, LiveIns', MIs, FI\<lparr>CalleeSavedFrameSize := length CSI\<rparr>)))"

definition restoreCalleeSavedRegisters :: "reg list \<Rightarrow> (bool \<times> instr list) outcome" where
  "restoreCalleeSavedRegisters CSI =
     (if CSI = [] then Inr (False, [])
      else obind (omap (\<lambda>Reg. callee_saved_check Reg (Inr (BuildMI (Mem POPRd) [def_reg Reg]))) CSI)
             (\<lambda>MIs. Inr (True, MIs)))"

section \<open>Arguments on the stack\<close>

definition isCall :: "instr \<Rightarrow> bool" where
  "isCall MI = (Opcode MI \<in> {Misc CALLk, Misc RCALLk, Misc ICALL})"

definition is_stack_store :: "instr \<Rightarrow> bool" where
  "is_stack_store MI = (Opcode MI \<in> {Misc STDSPQRr, Misc STDWSPQRr})"

text \<open>\<open>setReg\<close> keeps the flags of the operand, \<open>setDesc\<close> keeps the operands.\<close>

definition setReg :: "nat \<Rightarrow> reg \<Rightarrow> instr \<Rightarrow> instr outcome" where
  "setReg i Reg MI = obind (getOperand MI i) (\<lambda>MO. case MO of
     MO_Register r \<Rightarrow> Inr (MI\<lparr>Operands := (Operands MI)[i := MO_Register (r\<lparr>RegNo := Reg\<rparr>)]\<rparr>)
   | _ \<Rightarrow> Inl (Assertion ''Wrong MachineOperand mutator''))"

definition fix_store :: "bool \<Rightarrow> instr \<Rightarrow> instr outcome" where
  "fix_store insertPushes MI =
     obind (getReg MI 0) (\<lambda>Base. asserting (Base = SNES_SP) ''Invalid register, should be SP!''
       (if insertPushes
        then obind (getReg MI 2) (\<lambda>SrcReg. obind (isKill MI 2) (\<lambda>SrcIsKill.
               Inr (BuildMI (Mem PHAstk) [use_kill SrcReg SrcIsKill])))
        else setReg 0 SNES_A (MI\<lparr>Opcode := if Opcode MI = Misc STDWSPQRr then Wide STDWPtrQRr else Mem STDPtrQRr\<rparr>)))"

fun fixStackStores :: "bool \<Rightarrow> instr list \<Rightarrow> instr list outcome" where
  "fixStackStores insertPushes [] = Inr []"
| "fixStackStores insertPushes (MI # MIs) =
     (if isCall MI then Inr (MI # MIs)
      else obind (if is_stack_store MI then fix_store insertPushes MI else Inr MI) (\<lambda>MI'.
           obind (fixStackStores insertPushes MIs) (\<lambda>MIs'. Inr (MI' # MIs'))))"

text \<open>\<open>TargetInstrInfo::getFrameSize\<close>, converted to an \<open>int\<close>.\<close>

definition getFrameSize :: "instr \<Rightarrow> u32 outcome" where
  "getFrameSize MI =
     asserting (Opcode MI \<in> {Misc ADJCALLSTACKDOWN, Misc ADJCALLSTACKUP}) ''Not a frame instruction''
       (obind (getImm MI 0) (\<lambda>v. asserting (\<not> v <s 0) ''I.getOperand(0).getImm() >= 0'' (Inr (ucast v))))"

definition adjust_sp :: "u32 \<Rightarrow> instr list outcome" where
  "adjust_sp Amount =
     obind (setIsDead 3 (BuildMI (Wide SUBIWRdK)
              [def_reg SNES_A, use_kill SNES_A True, MO_Immediate (scast (- Amount))])) (\<lambda>New.
       Inr [BuildMI (Wide SPREAD) [def_reg SNES_A, use SNES_SP], New,
            BuildMI (Wide SPWRITE) [def_reg SNES_SP, use_kill SNES_A True]])"

definition eliminateCallFramePseudoInstr ::
  "function_info \<Rightarrow> frame_info \<Rightarrow> block \<Rightarrow> nat \<Rightarrow> block outcome" where
  "eliminateCallFramePseudoInstr FI MFI MBB i =
     (let MI = MBB ! i; before = take i MBB; after = drop (Suc i) MBB in
      if hasReservedCallFrame FI MFI
      then obind (fixStackStores False after) (\<lambda>after'. Inr (before @ after'))
      else obind (getFrameSize MI) (\<lambda>Amount.
        if Amount = 0 then Inr (before @ after)
        else if Opcode MI = Misc ADJCALLSTACKDOWN
        then obind (fixStackStores True after) (\<lambda>after'. Inr (before @ after'))
        else asserting (Opcode MI = Misc ADJCALLSTACKUP) ''Opcode == TII.getCallFrameDestroyOpcode()''
          (obind (adjust_sp Amount) (\<lambda>new. Inr (before @ new @ after)))))"

section \<open>Frame indices\<close>

definition eliminateFrameIndex :: "frame_info \<Rightarrow> int \<Rightarrow> instr \<Rightarrow> nat \<Rightarrow> instr outcome" where
  "eliminateFrameIndex MFI SPAdj MI FIOperandNum =
     asserting (SPAdj = 0) ''Unexpected SPAdj value''
       (obind (getIndex MI FIOperandNum) (\<lambda>FrameIndex. obind (getObject MFI FrameIndex) (\<lambda>obj.
        obind (getImm MI (FIOperandNum + 1)) (\<lambda>imm.
          let Offset = (word_of_int (SPOffset obj) :: u32);
              Offset = Offset + ucast (StackSize MFI - word_of_int getOffsetOfLocalArea + 1);
              Offset = Offset + ucast imm
          in asserting (isUInt 6 (scast Offset)) ''Offset is out of range''
            (Inr (MI\<lparr>Operands := (Operands MI)
               [FIOperandNum := use SNES_A, FIOperandNum + 1 := MO_Immediate (scast Offset)]\<rparr>))))))"

section \<open>The frame analyzer\<close>

definition analyzed_ops :: "opcode list" where
  "analyzed_ops = [Mem LDDRdPtrQ, Wide LDDWRdPtrQ, Mem STDPtrQRr, Wide STDWPtrQRr]"

definition uses_fixed_object :: "frame_info \<Rightarrow> ssa_instr \<Rightarrow> bool" where
  "uses_fixed_object MFI MI =
     (SOpcode MI \<in> set analyzed_ops
      \<and> list_ex (\<lambda>MO. case MO of SFI i \<Rightarrow> isFixedObjectIndex MFI i | _ \<Rightarrow> False) (SOperands MI))"

definition analyze_allocas :: "frame_info \<Rightarrow> function_info \<Rightarrow> function_info" where
  "analyze_allocas MFI FI =
     (if length (FrameObjects MFI) \<noteq> NumFixedObjects MFI
         \<and> list_ex (\<lambda>obj. ObjectSize obj \<noteq> 0) (drop (NumFixedObjects MFI) (FrameObjects MFI))
      then FI\<lparr>HasAllocas := True\<rparr> else FI)"

definition analyze_frame :: "frame_info \<Rightarrow> mfunction \<Rightarrow> function_info \<Rightarrow> function_info" where
  "analyze_frame MFI F FI =
     (let FI = analyze_allocas MFI FI in
      if NumFixedObjects MFI = 0 then FI
      else if list_ex (\<lambda>b. list_ex (uses_fixed_object MFI) (Instrs F b)) (Layout F)
      then FI\<lparr>HasStackArgs := True\<rparr> else FI)"

section \<open>Dynamic allocas\<close>

definition sIsReturn :: "ssa_instr \<Rightarrow> bool" where
  "sIsReturn MI = (SOpcode MI \<in> {Misc RET, Misc RETI})"

text \<open>The restoring copy goes before the return that ends a block.\<close>

definition restore_sp :: "vreg \<Rightarrow> ssa_instr list \<Rightarrow> ssa_instr list" where
  "restore_sp SPCopy MIs =
     (if MIs \<noteq> [] \<and> sIsReturn (last MIs)
      then butlast MIs @ [SMI (Misc COPY) [SReg (Phys SNES_SP), SReg SPCopy], last MIs] else MIs)"

definition dyn_alloca_sr :: "frame_info \<Rightarrow> mfunction \<Rightarrow> bool \<times> mfunction" where
  "dyn_alloca_sr MFI F =
     (if \<not> HasVarSizedObjects MFI then (False, F)
      else let (SPCopy, F) = createVirtualRegister F;
               F = prepend_instr (hd (Layout F)) (SMI (Misc COPY) [SReg SPCopy, SReg (Phys SNES_SP)]) F
           in (True, F\<lparr>Instrs := (\<lambda>b. if b \<in> set (Layout F) then restore_sp SPCopy (Instrs F b) else Instrs F b)\<rparr>))"

section \<open>Stores with large displacements\<close>

text \<open>
  The comparison of the displacement is signed. The pass reports no change in any case.
\<close>

definition relax_STDWPtrQRr :: "instr \<Rightarrow> instr list outcome" where
  "relax_STDWPtrQRr MI =
     obind (getImm MI 1) (\<lambda>Imm.
       if 63 <s Imm
       then obind (getReg MI 0) (\<lambda>Ptr. obind (isKill MI 0) (\<lambda>PtrIsKill.
            obind (getReg MI 2) (\<lambda>Src. obind (isKill MI 2) (\<lambda>SrcIsKill.
              Inr [BuildMI (Wide PUSHWRr) [use Ptr],
                   BuildMI (Wide SBCIWRdK) [def_reg Ptr, use Ptr, MO_Immediate (- Imm)],
                   BuildMI (Wide STWPtrRr) [use Ptr, use_kill Src SrcIsKill],
                   BuildMI (Wide POPWRd) [use_kill Ptr PtrIsKill]]))))
       else Inr [MI])"

definition relax_instruction :: "instr \<Rightarrow> instr list outcome" where
  "relax_instruction MI = (if Opcode MI = Wide STDWPtrQRr then relax_STDWPtrQRr MI else Inr [MI])"

definition relax_block :: "block \<Rightarrow> (bool \<times> block) outcome" where
  "relax_block MBB = obind (omap relax_instruction MBB) (\<lambda>MIs. Inr (False, concat MIs))"

section \<open>Machines for the frame code\<close>

text \<open>
  What the instructions of the frame code do to 16-bit registers, the carry, the data memory
  and the stack. The stack is kept apart from the data memory: pushes and pops of the frame
  code are balanced, and nothing here takes the address of a pushed value. \<open>PHAstk\<close> is the
  instruction \<open>PHA\<close> of one byte: \<open>SNESInstrInfo.td\<close> gives it the opcode 0x48 and no field for a
  register, so it pushes \<open>A\<close> whatever register its operand names. \<open>POPRd\<close> has a field for its
  register. The pseudo instructions \<open>PUSHWRr\<close> and \<open>POPWRd\<close> stand for what their definitions
  say, a push and a pop of the register named; the expansion of \<open>PUSHWRr\<close> is a \<open>PHAstk\<close>.
\<close>

record frame_machine =
  fm_regs :: "reg \<Rightarrow> u16"
  fm_C :: bool
  fm_mem :: "u16 \<Rightarrow> u8"
  fm_stack :: "u16 list"

definition store_word :: "u16 \<Rightarrow> u16 \<Rightarrow> (u16 \<Rightarrow> u8) \<Rightarrow> (u16 \<Rightarrow> u8)" where
  "store_word a v mem = mem(a := ucast v, a + 1 := ucast (drop_bit 8 v))"

text \<open>Subtracting an immediate, with a borrow coming in.\<close>

definition fm_subtract :: "reg \<Rightarrow> u16 \<Rightarrow> u16 \<Rightarrow> bool \<Rightarrow> frame_machine \<Rightarrow> frame_machine" where
  "fm_subtract d x k c m =
     m\<lparr>fm_regs := (fm_regs m)(d := x - k - of_bool c), fm_C := uint x < uint k + of_bool c\<rparr>"

definition frame_exec :: "instr \<Rightarrow> frame_machine \<Rightarrow> frame_machine option" where
  "frame_exec MI m = (case (Opcode MI, Operands MI) of
     (Mem PHAstk, MO_Register r # _) \<Rightarrow> Some (m\<lparr>fm_stack := fm_regs m SNES_A # fm_stack m\<rparr>)
   | (Wide PUSHWRr, MO_Register r # _) \<Rightarrow> Some (m\<lparr>fm_stack := fm_regs m (RegNo r) # fm_stack m\<rparr>)
   | (Mem POPRd, MO_Register r # _) \<Rightarrow> (case fm_stack m of [] \<Rightarrow> None
       | v # vs \<Rightarrow> Some (m\<lparr>fm_regs := (fm_regs m)(RegNo r := v), fm_stack := vs\<rparr>))
   | (Wide POPWRd, MO_Register r # _) \<Rightarrow> (case fm_stack m of [] \<Rightarrow> None
       | v # vs \<Rightarrow> Some (m\<lparr>fm_regs := (fm_regs m)(RegNo r := v), fm_stack := vs\<rparr>))
   | (Wide SUBIWRdK, MO_Register d # MO_Register r # MO_Immediate k # _) \<Rightarrow>
       Some (fm_subtract (RegNo d) (fm_regs m (RegNo r)) (ucast k) False m)
   | (Wide SBCIWRdK, MO_Register d # MO_Register r # MO_Immediate k # _) \<Rightarrow>
       Some (fm_subtract (RegNo d) (fm_regs m (RegNo r)) (ucast k) (fm_C m) m)
   | (Wide SPREAD, MO_Register d # MO_Register r # _) \<Rightarrow>
       Some (m\<lparr>fm_regs := (fm_regs m)(RegNo d := fm_regs m (RegNo r))\<rparr>)
   | (Wide SPWRITE, MO_Register d # MO_Register r # _) \<Rightarrow>
       Some (m\<lparr>fm_regs := (fm_regs m)(RegNo d := fm_regs m (RegNo r))\<rparr>)
   | (Wide STWPtrRr, MO_Register p # MO_Register r # _) \<Rightarrow>
       Some (m\<lparr>fm_mem := store_word (fm_regs m (RegNo p)) (fm_regs m (RegNo r)) (fm_mem m)\<rparr>)
   | (Wide STDWPtrQRr, MO_Register p # MO_Immediate k # MO_Register r # _) \<Rightarrow>
       Some (m\<lparr>fm_mem := store_word (fm_regs m (RegNo p) + ucast k) (fm_regs m (RegNo r)) (fm_mem m)\<rparr>)
   | _ \<Rightarrow> None)"

fun frame_run :: "instr list \<Rightarrow> frame_machine \<Rightarrow> frame_machine option" where
  "frame_run [] m = Some m"
| "frame_run (MI # MIs) m = (case frame_exec MI m of None \<Rightarrow> None | Some m' \<Rightarrow> frame_run MIs m')"

named_theorems frame_simps \<open>execution of the frame code\<close>

lemma frame_exec_simps [frame_simps]:
  "frame_exec (BuildMI (Mem PHAstk) [use_kill r k]) m = Some (m\<lparr>fm_stack := fm_regs m SNES_A # fm_stack m\<rparr>)"
  "frame_exec (setMIFlags f MI) m = frame_exec MI m"
  "frame_exec (BuildMI (Mem POPRd) [def_reg r]) m = (case fm_stack m of [] \<Rightarrow> None
     | v # vs \<Rightarrow> Some (m\<lparr>fm_regs := (fm_regs m)(r := v), fm_stack := vs\<rparr>))"
  by (simp_all add: frame_exec_def BuildMI_def use_kill_def def_reg_def def_dead_def setMIFlags_def split: list.split)

section \<open>Spills and restores\<close>

lemma spill_loop_run:
  "spill_loop Regs L = Inr (L', MIs) \<Longrightarrow>
   set L' = set L \<union> set Regs
   \<and> frame_run MIs m = Some (m\<lparr>fm_stack := replicate (length Regs) (fm_regs m SNES_A) @ fm_stack m\<rparr>)
   \<and> (\<forall>r \<in> set Regs. getRegSizeInBits r = Inr 16)"
proof (induction Regs arbitrary: L L' MIs m)
  case Nil
  then show ?case by simp
next
  case (Cons Reg Regs)
  from Cons.prems obtain MIs' where l: "spill_loop Regs (if Reg \<notin> set L then L @ [Reg] else L) = Inr (L', MIs')"
    and M: "MIs = setMIFlags FrameSetup (BuildMI (Mem PHAstk) [use_kill Reg (Reg \<notin> set L)]) # MIs'"
    and s: "getRegSizeInBits Reg = Inr 16"
    by (auto simp: Let_def callee_saved_check_def outcome_inv split: if_splits)
  have "replicate n x @ x # st = x # replicate n x @ st" for n and x :: u16 and st
    by (induction n) simp_all
  then show ?case using Cons.IH [OF l] s by (auto simp: M frame_simps split: if_splits)
qed

lemma restore_run:
  assumes "\<forall>r \<in> set CSI. getRegSizeInBits r = Inr 16"
  shows "\<exists>MIs. omap (\<lambda>Reg. callee_saved_check Reg (Inr (BuildMI (Mem POPRd) [def_reg Reg]))) CSI = Inr MIs
    \<and> (\<forall>m regs. fm_stack m = List.map regs CSI @ st \<longrightarrow>
         frame_run MIs m = Some (m\<lparr>fm_regs := (\<lambda>r. if r \<in> set CSI then regs r else fm_regs m r), fm_stack := st\<rparr>))"
  using assms
proof (induction CSI)
  case Nil
  then show ?case by simp
next
  case (Cons r CSI)
  then obtain MIs where M: "omap (\<lambda>Reg. callee_saved_check Reg (Inr (BuildMI (Mem POPRd) [def_reg Reg]))) CSI = Inr MIs"
    and run: "\<And>m regs. fm_stack m = List.map regs CSI @ st \<Longrightarrow>
         frame_run MIs m = Some (m\<lparr>fm_regs := (\<lambda>r. if r \<in> set CSI then regs r else fm_regs m r), fm_stack := st\<rparr>)"
    by auto
  have "frame_run (BuildMI (Mem POPRd) [def_reg r] # MIs) m
      = Some (m\<lparr>fm_regs := (\<lambda>x. if x \<in> set (r # CSI) then regs x else fm_regs m x), fm_stack := st\<rparr>)"
    if "fm_stack m = List.map regs (r # CSI) @ st" for m and regs :: "reg \<Rightarrow> u16"
    using that run [of "m\<lparr>fm_regs := (fm_regs m)(r := regs r), fm_stack := List.map regs CSI @ st\<rparr>" regs]
    by (simp add: frame_simps) (intro arg_cong [where f = Some] frame_machine.equality, auto)
  moreover have "callee_saved_check r (Inr (BuildMI (Mem POPRd) [def_reg r])) = Inr (BuildMI (Mem POPRd) [def_reg r])"
    using Cons.prems by (simp add: callee_saved_check_def)
  ultimately show ?case using M by (simp del: frame_run.simps)
qed

text \<open>Pushing \<open>A\<close> for every register and popping them gives back \<open>A\<close> only.\<close>

lemma restored_iff:
  assumes S: "\<And>m. frame_run S m = Some (m\<lparr>fm_stack := replicate (length CSI) (fm_regs m SNES_A) @ fm_stack m\<rparr>)"
    and run: "\<And>m2 a st. fm_stack m2 = replicate (length CSI) a @ st \<Longrightarrow>
      frame_run R m2 = Some (m2\<lparr>fm_regs := (\<lambda>r. if r \<in> set CSI then a else fm_regs m2 r), fm_stack := st\<rparr>)"
  shows "(\<forall>m m1 m2 m3. frame_run S m = Some m1 \<and> fm_stack m2 = fm_stack m1 \<and> frame_run R m2 = Some m3 \<longrightarrow>
       (\<forall>r \<in> set CSI. fm_regs m3 r = fm_regs m r)) \<longleftrightarrow> set CSI \<subseteq> {SNES_A}"
proof -
  have "(\<forall>m m1 m2 m3. frame_run S m = Some m1 \<and> fm_stack m2 = fm_stack m1 \<and> frame_run R m2 = Some m3 \<longrightarrow>
       (\<forall>r \<in> set CSI. fm_regs m3 r = fm_regs m r)) \<longleftrightarrow> (\<forall>m. \<forall>r \<in> set CSI. fm_regs m SNES_A = fm_regs (m :: frame_machine) r)"
    (is "?kept = ?same")
  proof
    assume b: ?kept
    show ?same
    proof (intro allI ballI)
      fix m :: frame_machine and r assume r: "r \<in> set CSI"
      let ?m1 = "m\<lparr>fm_stack := replicate (length CSI) (fm_regs m SNES_A) @ fm_stack m\<rparr>"
      have "frame_run R ?m1 = Some (?m1\<lparr>fm_regs := (\<lambda>r. if r \<in> set CSI then fm_regs m SNES_A else fm_regs ?m1 r), fm_stack := fm_stack m\<rparr>)"
        by (rule run) simp
      with b [rule_format, OF conjI [OF S conjI [OF refl]], OF _ r] r show "fm_regs m SNES_A = fm_regs m r" by force
    qed
  next
    assume s: ?same
    show ?kept
    proof (intro allI impI ballI, elim conjE)
      fix m m1 m2 m3 :: frame_machine and r
      assume h: "frame_run S m = Some m1" "fm_stack m2 = fm_stack m1" "frame_run R m2 = Some m3" and r: "r \<in> set CSI"
      have "fm_stack m2 = replicate (length CSI) (fm_regs m SNES_A) @ fm_stack m" using h(1,2) S [of m] by auto
      from run [OF this] h(3) r have "fm_regs m3 r = fm_regs m SNES_A" by auto
      with s r show "fm_regs m3 r = fm_regs m r" by simp
    qed
  qed
  moreover have "(\<forall>m. \<forall>r \<in> set CSI. fm_regs m SNES_A = fm_regs (m :: frame_machine) r) \<longleftrightarrow> set CSI \<subseteq> {SNES_A}"
  proof
    assume h: "\<forall>m. \<forall>r \<in> set CSI. fm_regs m SNES_A = fm_regs (m :: frame_machine) r"
    show "set CSI \<subseteq> {SNES_A}"
      using spec [OF h, of "\<lparr>fm_regs = (\<lambda>r. if r = SNES_A then 1 else 0), fm_C = False, fm_mem = (\<lambda>_. 0), fm_stack = []\<rparr>"]
      by (auto split: if_splits)
  qed auto
  ultimately show ?thesis by (rule trans)
qed



section \<open>Frame indices and relaxed stores\<close>

lemma ucast32_sint: "(ucast (x :: u64) :: u32) = word_of_int (sint x)"
  unfolding ucast_eq word_of_int_eq_iff sint_uint by (simp add: take_bit_signed_take_bit)

lemma scast_of_int32:
  assumes "- (2 ^ 31) \<le> d" "d < 2 ^ 31"
  shows "scast (word_of_int d :: u32) = (word_of_int d :: u64)"
proof -
  have "sint (word_of_int d :: u32) = d"
    using assms by (simp add: sint_sbintrunc' signed_take_bit_int_eq_self)
  then show ?thesis by (simp add: scast_eq)
qed

lemma small_of_int:
  assumes "- (2 ^ 31) \<le> d" "d < 2 ^ 31"
  shows "uint (word_of_int d :: u64) = (if 0 \<le> d then d else d + 2 ^ 64)"
    and "isUInt 6 (word_of_int d) \<longleftrightarrow> 0 \<le> d \<and> d \<le> 63"
proof -
  show u: "uint (word_of_int d :: u64) = (if 0 \<le> d then d else d + 2 ^ 64)"
    
    using assms mod_add_self2 [of d "2 ^ 64"] mod_pos_pos_trivial [of "d + 2 ^ 64" "2 ^ 64"]
    by (auto simp: uint_word_of_int)
  show "isUInt 6 (word_of_int d) \<longleftrightarrow> 0 \<le> d \<and> d \<le> 63" using assms u by (auto simp: isUInt_iff)
qed

text \<open>
  Property C38. A frame index becomes register A with a displacement. With the stack pointer
  below the return address and the frame, and pointing to the empty slot under it, pointer
  plus displacement is the address of the object plus the offset of the operand, one above
  its place relative to the incoming pointer; when that displacement is not between 0 and 63
  the function stops at its assertion.
\<close>

theorem eliminateFrameIndex_address:
  assumes "getIndex MI n = Inr i" "getImm MI (n + 1) = Inr imm" "getObject MFI i = Inr obj"
    and small: "\<bar>SPOffset obj\<bar> < 2 ^ 29" "\<bar>sint imm\<bar> < 2 ^ 29" "uint (StackSize MFI) < 2 ^ 29"
    and sp: "sp0 - int (unat (StackSize MFI)) + getOffsetOfLocalArea = frame_sp"
  shows "case eliminateFrameIndex MFI 0 MI n of
      Inl e \<Rightarrow> e = Assertion ''Offset is out of range''
        \<and> \<not> (0 \<le> sp0 + SPOffset obj + 1 + sint imm - frame_sp
             \<and> sp0 + SPOffset obj + 1 + sint imm - frame_sp \<le> 63)
    | Inr MI' \<Rightarrow> \<exists>d. MI' = MI\<lparr>Operands := (Operands MI)[n := use SNES_A, n + 1 := MO_Immediate d]\<rparr>
        \<and> uint d \<le> 63 \<and> frame_sp + int (unat d) = sp0 + SPOffset obj + 1 + sint imm"
proof -
  define D where "D = SPOffset obj + int (unat (StackSize MFI)) + 3 + sint imm"
  have d: "sp0 + SPOffset obj + 1 + sint imm - frame_sp = D"
    using sp by (simp add: getOffsetOfLocalArea_def D_def)
  define w where "w = (word_of_int (SPOffset obj) :: u32) + ucast (StackSize MFI - word_of_int getOffsetOfLocalArea + 1)
    + ucast imm"
  have st: "uint (StackSize MFI) < 536870912" using small(3) by simp
  have "uint (StackSize MFI - word_of_int getOffsetOfLocalArea + 1) = uint (StackSize MFI) + 3"
  proof -
    have e: "StackSize MFI - word_of_int getOffsetOfLocalArea + 1 = StackSize MFI + 3"
      by (simp add: getOffsetOfLocalArea_def)
    have "uint (StackSize MFI + 3) = (uint (StackSize MFI) + 3) mod 18446744073709551616"
      by (simp add: uint_word_ariths)
    then show ?thesis unfolding e using st by simp
  qed
  then have "w = word_of_int (SPOffset obj) + word_of_int (uint (StackSize MFI) + 3) + word_of_int (sint imm)"
    unfolding w_def ucast32_sint [of imm] by (simp only: ucast_eq)
  also have "\<dots> = word_of_int (SPOffset obj + (uint (StackSize MFI) + 3) + sint imm)" by (simp only: of_int_add)
  also have "SPOffset obj + (uint (StackSize MFI) + 3) + sint imm = D"
    using uint_nat [of "StackSize MFI"] unfolding D_def by linarith
  finally have "w = word_of_int D" .
  moreover have r: "- (2 ^ 31) \<le> D \<and> D < 2 ^ 31"
  proof -
    have "\<bar>SPOffset obj\<bar> < 536870912" "\<bar>sint imm\<bar> < 536870912" using small(1,2) by simp_all
    then have "- 2147483648 \<le> D \<and> D < 2147483648"
      using st uint_nonnegative [of "StackSize MFI"] uint_nat [of "StackSize MFI"] unfolding D_def by linarith
    then show ?thesis by simp
  qed
  ultimately have w: "scast w = (word_of_int D :: u64)" using scast_of_int32 by blast
  have e: "eliminateFrameIndex MFI 0 MI n = asserting (isUInt 6 (word_of_int D))
      ''Offset is out of range'' (Inr (MI\<lparr>Operands := (Operands MI)
         [n := use SNES_A, n + 1 := MO_Immediate (word_of_int D)]\<rparr>))"
    using assms(1-3) by (simp add: eliminateFrameIndex_def Let_def w_def [symmetric] w)
  show ?thesis
  proof (cases "0 \<le> D \<and> D \<le> 63")
    case True
    then have u: "uint (word_of_int D :: u64) = D" using small_of_int(1) [of D] r by simp
    then have n: "int (unat (word_of_int D :: u64)) = D" using uint_nat [of "word_of_int D :: u64"] by linarith
    have g: "isUInt 6 (word_of_int D)" using small_of_int(2) [of D] r True by blast
    show ?thesis
      unfolding e by (simp only: g asserting_True sum.case)
        (intro exI [of _ "word_of_int D"] conjI refl; use u n d True in linarith)
  next
    case False
    then have g: "\<not> isUInt 6 (word_of_int D)" using small_of_int(2) [of D] r by blast
    show ?thesis unfolding e by (simp only: g asserting_False sum.case) (use d False in auto)
  qed
qed

lemma eliminateFrameIndex_address_witness:
  "\<exists>d. eliminateFrameIndex \<lparr>NumFixedObjects = 1, FrameObjects = [\<lparr>SPOffset = 2, ObjectSize = 2\<rparr>, \<lparr>SPOffset = - 6, ObjectSize = 4\<rparr>],
         StackSize = 8, HasVarSizedObjects = False\<rparr> 0
         (BuildMI (Mem LDDRdPtrQ) [def_reg SNES_A, MO_FrameIndex 0, MO_Immediate 3]) 1
       = Inr ((BuildMI (Mem LDDRdPtrQ) [def_reg SNES_A, use SNES_A, MO_Immediate d])) \<and> 190 + int (unat d) = 200 - 6 + 1 + 3"
proof -
  let ?MFI = "\<lparr>NumFixedObjects = 1, FrameObjects = [\<lparr>SPOffset = 2, ObjectSize = 2\<rparr>, \<lparr>SPOffset = - 6, ObjectSize = 4\<rparr>],
         StackSize = 8, HasVarSizedObjects = False\<rparr>"
  let ?MI = "BuildMI (Mem LDDRdPtrQ) [def_reg SNES_A, MO_FrameIndex 0, MO_Immediate 3]"
  have pre: "getIndex ?MI 1 = Inr 0" "getImm ?MI (1 + 1) = Inr 3"
    "getObject ?MFI 0 = Inr \<lparr>SPOffset = - 6, ObjectSize = 4\<rparr>"
    "\<bar>SPOffset \<lparr>SPOffset = - 6, ObjectSize = 4\<rparr>\<bar> < 2 ^ 29" "\<bar>sint (3 :: u64)\<bar> < 2 ^ 29"
    "uint (StackSize ?MFI) < 2 ^ 29" "200 - int (unat (StackSize ?MFI)) + getOffsetOfLocalArea = 190"
    by (simp_all add: getIndex_def getImm_def getOperand_def BuildMI_def getObject_def Let_def getOffsetOfLocalArea_def)
  from eliminateFrameIndex_address [OF pre] show ?thesis
    by (auto simp: BuildMI_def split: sum.splits)
qed

lemma fm_subtract_simps [frame_simps]:
  "fm_C m = c \<Longrightarrow> fm_regs (fm_subtract d x k c m) = (fm_regs m)(d := x - k - of_bool c)"
  "fm_stack (fm_subtract d x k c m) = fm_stack m" "fm_mem (fm_subtract d x k c m) = fm_mem m"
  by (simp_all add: fm_subtract_def)

lemma frame_exec_wide [frame_simps]:
  "frame_exec (BuildMI (Wide PUSHWRr) [use r]) m = Some (m\<lparr>fm_stack := fm_regs m r # fm_stack m\<rparr>)"
  "frame_exec (BuildMI (Wide POPWRd) [use_kill r b]) m = (case fm_stack m of [] \<Rightarrow> None
     | v # vs \<Rightarrow> Some (m\<lparr>fm_regs := (fm_regs m)(r := v), fm_stack := vs\<rparr>))"
  "frame_exec (BuildMI (Wide SBCIWRdK) [def_reg r, use q, MO_Immediate k]) m
     = Some (fm_subtract r (fm_regs m q) (ucast k) (fm_C m) m)"
  "frame_exec (BuildMI (Wide STWPtrRr) [use p, use_kill q b]) m
     = Some (m\<lparr>fm_mem := store_word (fm_regs m p) (fm_regs m q) (fm_mem m)\<rparr>)"
  "frame_exec (BuildMI (Wide SPREAD) [def_reg r, use q]) m = Some (m\<lparr>fm_regs := (fm_regs m)(r := fm_regs m q)\<rparr>)"
  "frame_exec (BuildMI (Wide SPWRITE) [def_reg r, use_kill q b]) m = Some (m\<lparr>fm_regs := (fm_regs m)(r := fm_regs m q)\<rparr>)"
  by (simp_all add: frame_exec_def BuildMI_def use_kill_def def_reg_def def_dead_def use_def split: list.split)

lemma ucast_neg16:
  assumes "16 \<le> LENGTH('a)"
  shows "(ucast (- w) :: u16) = - ucast (w :: 'a::len word)"
proof -
  have "uint (- w) = take_bit LENGTH('a) (- uint w)" by (simp add: uint_word_ariths take_bit_eq_mod)
  moreover have "(word_of_int (take_bit LENGTH('a) (- uint w)) :: u16) = word_of_int (- uint w)"
    using assms unfolding word_of_int_eq_iff by (simp add: take_bit_take_bit min_def)
  ultimately have "(word_of_int (uint (- w)) :: u16) = word_of_int (- uint w)" by (simp only:)
  then show ?thesis by (simp only: ucast_eq of_int_minus)
qed

lemma ucast_scast16: "(ucast (scast (x :: u32) :: u64) :: u16) = ucast x"
  by (rule bit_word_eqI) (auto simp: bit_simps)

text \<open>
  Property C40. Relaxing a store of a word with a displacement above 63 leaves the registers
  and the stack as they were and stores one word; it is the word and the address of the
  original store exactly when the carry is clear and the source is not the pointer: the
  displacement is added by a subtraction with borrow, and the source is read afterwards.
\<close>

theorem relax_store:
  assumes MI: "Opcode MI = Wide STDWPtrQRr" "getReg MI 0 = Inr ptr" "getImm MI 1 = Inr imm" "getReg MI 2 = Inr src"
    and k: "isKill MI 0 = Inr k0" "isKill MI 2 = Inr k2" and imm: "63 <s imm"
  shows "\<exists>MIs. relax_instruction MI = Inr MIs
    \<and> (\<exists>m'. frame_run MIs m = Some m' \<and> fm_regs m' = fm_regs m \<and> fm_stack m' = fm_stack m
        \<and> (let a = fm_regs m ptr + ucast imm - of_bool (fm_C m)
           in fm_mem m' = store_word a (if src = ptr then a else fm_regs m src) (fm_mem m)))
    \<and> frame_exec MI m = Some (m\<lparr>fm_mem := store_word (fm_regs m ptr + ucast imm) (fm_regs m src) (fm_mem m)\<rparr>)"
proof -
  have neg: "x - ucast (- imm) - of_bool c = x + ucast imm - of_bool c" for x :: u16 and c
    by (simp add: ucast_neg16)
  have "2 < length (Operands MI)" using MI(4) by (auto simp: getReg_def getOperand_def outcome_inv)
  then obtain a b c rest where ops: "Operands MI = a # b # c # rest"
    by (auto simp: numeral_2_eq_2 Suc_le_length_iff less_eq_Suc_le)
  have o: "\<exists>p r. Operands MI = MO_Register p # MO_Immediate imm # MO_Register r # rest \<and> RegNo p = ptr \<and> RegNo r = src"
    using MI(2-4) by (auto simp: ops getReg_def getImm_def getOperand_def as_reg_def outcome_inv wrong_accessor_def
      split: operand.splits)
  then show ?thesis
    using MI k imm
    by (auto simp: relax_instruction_def relax_STDWPtrQRr_def frame_simps Let_def neg frame_exec_def [of MI])
qed

lemma relax_store_witness:
  "\<exists>MIs m'. relax_instruction (BuildMI (Wide STDWPtrQRr) [use SNES_X, MO_Immediate 100, use SNES_A]) = Inr MIs
     \<and> frame_run MIs \<lparr>fm_regs = (\<lambda>r. if r = SNES_X then 0x200 else 0x1234), fm_C = True, fm_mem = (\<lambda>_. 0), fm_stack = []\<rparr> = Some m'
     \<and> fm_mem m' = store_word 0x263 0x1234 (\<lambda>_. 0)"
proof -
  let ?MI = "BuildMI (Wide STDWPtrQRr) [use SNES_X, MO_Immediate 100, use SNES_A]"
  let ?m = "\<lparr>fm_regs = (\<lambda>r. if r = SNES_X then 0x200 else 0x1234), fm_C = True, fm_mem = (\<lambda>_. 0), fm_stack = []\<rparr> :: frame_machine"
  have pre: "Opcode ?MI = Wide STDWPtrQRr" "getReg ?MI 0 = Inr SNES_X" "getImm ?MI 1 = Inr 100" "getReg ?MI 2 = Inr SNES_A"
    "isKill ?MI 0 = Inr False" "isKill ?MI 2 = Inr False" "63 <s (100 :: u64)"
    by (simp_all add: getReg_def getImm_def getOperand_def isKill_def as_reg_def BuildMI_def use_def numeral_2_eq_2)
  from relax_store [OF pre, of ?m] show ?thesis by (auto simp: Let_def)
qed

section \<open>Call frames\<close>

lemma fix_store_push:
  "fix_store True MI = Inr MI' \<Longrightarrow> \<exists>r k. getReg MI 2 = Inr r \<and> MI' = BuildMI (Mem PHAstk) [use_kill r k]"
  by (auto simp: fix_store_def outcome_inv)

lemma fix_store_keep:
  assumes "fix_store False MI = Inr MI'"
  shows "Opcode MI' = (if Opcode MI = Misc STDWSPQRr then Wide STDWPtrQRr else Mem STDPtrQRr)
    \<and> getReg MI' 0 = Inr SNES_A \<and> tl (Operands MI') = tl (Operands MI)"
proof -
  let ?MI = "MI\<lparr>Opcode := if Opcode MI = Misc STDWSPQRr then Wide STDWPtrQRr else Mem STDPtrQRr\<rparr>"
  have "setReg 0 SNES_A ?MI = Inr MI'" using assms by (auto simp: fix_store_def outcome_inv)
  then obtain MO where "getOperand ?MI 0 = Inr MO"
    and "(case MO of MO_Register r \<Rightarrow> Inr (?MI\<lparr>Operands := (Operands ?MI)[0 := MO_Register (r\<lparr>RegNo := SNES_A\<rparr>)]\<rparr>)
      | _ \<Rightarrow> Inl (Assertion ''Wrong MachineOperand mutator'')) = Inr MI'"
    unfolding setReg_def obind_eq_Inr by blast
  then obtain r rest where "Operands MI = MO_Register r # rest"
    and "MI' = ?MI\<lparr>Operands := MO_Register (r\<lparr>RegNo := SNES_A\<rparr>) # rest\<rparr>"
    by (cases "Operands MI") (auto simp: getOperand_def split: operand.splits)
  then show ?thesis by (simp add: getReg_def getOperand_def as_reg_def)
qed

lemma fix_store_not_store: "fix_store b MI = Inr MI' \<Longrightarrow> \<not> is_stack_store MI'"
  using fix_store_push [of MI MI'] fix_store_keep [of MI MI'] by (cases b) (auto simp: is_stack_store_def)

lemma fixStackStores_region:
  "fixStackStores b MIs = Inr MIs' \<Longrightarrow>
   \<exists>R. MIs' = R @ dropWhile (\<lambda>MI. \<not> isCall MI) MIs
     \<and> list_all2 (\<lambda>MI MI'. if is_stack_store MI then fix_store b MI = Inr MI' else MI' = MI)
         (takeWhile (\<lambda>MI. \<not> isCall MI) MIs) R"
proof (induction MIs arbitrary: MIs')
  case Nil
  then show ?case by simp
next
  case (Cons MI MIs)
  show ?case
  proof (cases "isCall MI")
    case True
    with Cons.prems show ?thesis by (intro exI [of _ "[]"]) auto
  next
    case False
    from Cons.prems False obtain MI' T where h: "(if is_stack_store MI then fix_store b MI else Inr MI) = Inr MI'"
      and t: "fixStackStores b MIs = Inr T" and M: "MIs' = MI' # T"
      by (auto simp: outcome_inv)
    from Cons.IH [OF t] obtain R where "T = R @ dropWhile (\<lambda>MI. \<not> isCall MI) MIs"
      "list_all2 (\<lambda>MI MI'. if is_stack_store MI then fix_store b MI = Inr MI' else MI' = MI)
         (takeWhile (\<lambda>MI. \<not> isCall MI) MIs) R" by blast
    with False h M show ?thesis by (intro exI [of _ "MI' # R"]) (auto split: if_splits)
  qed
qed

lemma adjust_sp_run:
  "\<exists>N. adjust_sp Amount = Inr N
   \<and> (\<forall>m. let sp = fm_regs m SNES_SP + ucast Amount in \<exists>m'. frame_run N m = Some m'
        \<and> fm_regs m' = (fm_regs m)(SNES_A := sp, SNES_SP := sp) \<and> fm_mem m' = fm_mem m \<and> fm_stack m' = fm_stack m)"
proof -
  let ?ops = "[def_reg SNES_A, use_kill SNES_A True, MO_Immediate (scast (- Amount)) :: operand]"
  let ?P = "MO_Register \<lparr>RegNo = SNES_P, IsDef = True, IsImp = True, IsKill = False, IsDead = True\<rparr>"
  let ?New = "\<lparr>Opcode = Wide SUBIWRdK, Operands = ?ops @ [?P], Flags = 0\<rparr>"
  have N: "setIsDead 3 (BuildMI (Wide SUBIWRdK) ?ops) = Inr ?New"
    by (simp add: setIsDead_def getOperand_def BuildMI_def ImplicitDefs_def ImplicitUses_def wide_writes_P_def
      wide_reads_P_def implicit_def_def)
  have "ucast (scast (- Amount) :: u64) = (- ucast Amount :: u16)"
    by (simp add: ucast_scast16 ucast_neg16)
  then have "frame_exec ?New m = Some (fm_subtract SNES_A (fm_regs m SNES_A) (- ucast Amount) False m)" for m
    by (simp add: frame_exec_def def_reg_def def_dead_def use_kill_def)
  then have run: "frame_run [BuildMI (Wide SPREAD) [def_reg SNES_A, use SNES_SP], ?New,
      BuildMI (Wide SPWRITE) [def_reg SNES_SP, use_kill SNES_A True]] m
    = (let m1 = fm_subtract SNES_A (fm_regs m SNES_SP) (- ucast Amount) False
         (m\<lparr>fm_regs := (fm_regs m)(SNES_A := fm_regs m SNES_SP)\<rparr>)
       in Some (m1\<lparr>fm_regs := (fm_regs m1)(SNES_SP := fm_regs m1 SNES_A)\<rparr>))" for m
    by (simp add: frame_exec_wide Let_def)
  show ?thesis
  proof (intro exI conjI allI)
    show "adjust_sp Amount = Inr [BuildMI (Wide SPREAD) [def_reg SNES_A, use SNES_SP], ?New,
      BuildMI (Wide SPWRITE) [def_reg SNES_SP, use_kill SNES_A True]]"
      by (simp only: adjust_sp_def N obind_Inr)
    show "let sp = fm_regs m SNES_SP + ucast Amount in \<exists>m'. frame_run
        [BuildMI (Wide SPREAD) [def_reg SNES_A, use SNES_SP], ?New,
         BuildMI (Wide SPWRITE) [def_reg SNES_SP, use_kill SNES_A True]] m = Some m'
        \<and> fm_regs m' = (fm_regs m)(SNES_A := sp, SNES_SP := sp) \<and> fm_mem m' = fm_mem m \<and> fm_stack m' = fm_stack m"
      for m
      unfolding run Let_def by (simp add: fm_subtract_def)
  qed
qed

text \<open>
  Property C16. A call frame set-up or tear-down disappears. With a reserved call frame, or at
  a set-up of a non-empty frame, every pseudo store up to the next call is replaced, in place
  and in order, by a store through A of the same displacement and source or by a \<open>PHAstk\<close> with its
  source as the operand, and nothing else changes; at a tear-down without reserved frame the stack pointer
  is raised by the size of the frame; an empty frame just goes.
\<close>

theorem call_frame_eliminated:
  assumes "eliminateCallFramePseudoInstr FI MFI MBB i = Inr MBB'" and "getFrameSize (MBB ! i) = Inr amount"
    and r: "reserved = hasReservedCallFrame FI MFI" and "rest = drop (Suc i) MBB"
  shows "if reserved \<or> amount \<noteq> 0 \<and> Opcode (MBB ! i) = Misc ADJCALLSTACKDOWN
    then \<exists>R. MBB' = take i MBB @ R @ dropWhile (\<lambda>MI. \<not> isCall MI) rest \<and> list_all (\<lambda>MI. \<not> is_stack_store MI) R
       \<and> list_all2 (\<lambda>MI MI'. if \<not> is_stack_store MI then MI' = MI
            else if reserved then getReg MI' 0 = Inr SNES_A \<and> tl (Operands MI') = tl (Operands MI)
              \<and> Opcode MI' = (if Opcode MI = Misc STDWSPQRr then Wide STDWPtrQRr else Mem STDPtrQRr)
            else \<exists>r k. getReg MI 2 = Inr r \<and> MI' = BuildMI (Mem PHAstk) [use_kill r k])
          (takeWhile (\<lambda>MI. \<not> isCall MI) rest) R
    else if amount = 0 then MBB' = take i MBB @ rest
    else \<exists>N. MBB' = take i MBB @ N @ rest
       \<and> (\<forall>m. let sp = fm_regs m SNES_SP + ucast amount in \<exists>m'. frame_run N m = Some m'
            \<and> fm_regs m' = (fm_regs m)(SNES_A := sp, SNES_SP := sp) \<and> fm_mem m' = fm_mem m \<and> fm_stack m' = fm_stack m)"
proof (cases "reserved \<or> amount \<noteq> 0 \<and> Opcode (MBB ! i) = Misc ADJCALLSTACKDOWN")
  case True
  then obtain T where T: "fixStackStores (\<not> reserved) rest = Inr T" and M: "MBB' = take i MBB @ T"
    using assms by (auto simp: eliminateCallFramePseudoInstr_def Let_def outcome_inv split: if_splits)
  from fixStackStores_region [OF T] obtain R where R: "T = R @ dropWhile (\<lambda>MI. \<not> isCall MI) rest"
    and all: "list_all2 (\<lambda>MI MI'. if is_stack_store MI then fix_store (\<not> reserved) MI = Inr MI' else MI' = MI)
      (takeWhile (\<lambda>MI. \<not> isCall MI) rest) R" by blast
  have "list_all (\<lambda>MI. \<not> is_stack_store MI) R"
    using all by (auto simp: list_all2_conv_all_nth list_all_length dest: fix_store_not_store split: if_splits)
  moreover have "list_all2 (\<lambda>MI MI'. if \<not> is_stack_store MI then MI' = MI
            else if reserved then getReg MI' 0 = Inr SNES_A \<and> tl (Operands MI') = tl (Operands MI)
              \<and> Opcode MI' = (if Opcode MI = Misc STDWSPQRr then Wide STDWPtrQRr else Mem STDPtrQRr)
            else \<exists>r k. getReg MI 2 = Inr r \<and> MI' = BuildMI (Mem PHAstk) [use_kill r k])
          (takeWhile (\<lambda>MI. \<not> isCall MI) rest) R"
    using all
  proof (rule list_all2_mono)
    fix MI MI' assume h: "if is_stack_store MI then fix_store (\<not> reserved) MI = Inr MI' else MI' = MI"
    then show "if \<not> is_stack_store MI then MI' = MI
            else if reserved then getReg MI' 0 = Inr SNES_A \<and> tl (Operands MI') = tl (Operands MI)
              \<and> Opcode MI' = (if Opcode MI = Misc STDWSPQRr then Wide STDWPtrQRr else Mem STDPtrQRr)
            else \<exists>r k. getReg MI 2 = Inr r \<and> MI' = BuildMI (Mem PHAstk) [use_kill r k]"
      using fix_store_push [of MI MI'] fix_store_keep [of MI MI'] by (cases reserved) (simp_all split: if_splits)
  qed
  ultimately show ?thesis using True M R by auto
next
  case False
  then show ?thesis
    using assms adjust_sp_run [of amount]
    by (auto simp: eliminateCallFramePseudoInstr_def Let_def outcome_inv split: if_splits)
qed

definition sample_frame :: frame_info where
  "sample_frame = \<lparr>NumFixedObjects = 1, FrameObjects = [\<lparr>SPOffset = 2, ObjectSize = 2\<rparr>], StackSize = 0,
     HasVarSizedObjects = False\<rparr>"

definition sample_call :: block where
  "sample_call = [BuildMI (Misc ADJCALLSTACKDOWN) [MO_Immediate 2, MO_Immediate 0],
     BuildMI (Misc STDWSPQRr) [use SNES_SP, MO_Immediate 1, use SNES_X], BuildMI (Misc CALLk) []]"

lemma call_frame_eliminated_witness:
  "\<exists>R. eliminateCallFramePseudoInstr initial_function_info sample_frame sample_call 0 = Inr (R @ [BuildMI (Misc CALLk) []])
     \<and> list_all (\<lambda>MI. \<not> is_stack_store MI) R \<and> length R = 1"
proof -
  have g: "getFrameSize (sample_call ! 0) = Inr 2"
    by (simp add: getFrameSize_def sample_call_def getImm_def getOperand_def BuildMI_def word_sless_alt)
  have res: "hasReservedCallFrame initial_function_info sample_frame = False"
    by (simp add: hasReservedCallFrame_def hasFP_def initial_function_info_def)
  obtain MBB' where e: "eliminateCallFramePseudoInstr initial_function_info sample_frame sample_call 0 = Inr MBB'"
    by (simp add: eliminateCallFramePseudoInstr_def res g Let_def)
      (simp add: sample_call_def isCall_def is_stack_store_def fix_store_def getReg_def isKill_def getOperand_def
        as_reg_def BuildMI_def use_def)
  have tw: "takeWhile (\<lambda>MI. \<not> isCall MI) (drop (Suc 0) sample_call) = [sample_call ! 1]"
    "dropWhile (\<lambda>MI. \<not> isCall MI) (drop (Suc 0) sample_call) = [BuildMI (Misc CALLk) []]"
    by (simp_all add: sample_call_def isCall_def)
  have o: "Opcode (sample_call ! 0) = Misc ADJCALLSTACKDOWN" "(2 :: u32) \<noteq> 0" by (simp_all add: sample_call_def)
  obtain R where "MBB' = R @ [BuildMI (Misc CALLk) []]"
    "list_all (\<lambda>MI. \<not> is_stack_store MI) R"
    and all: "list_all2 (\<lambda>MI MI'. if \<not> is_stack_store MI then MI' = MI
         else \<exists>r k. getReg MI 2 = Inr r \<and> MI' = BuildMI (Mem PHAstk) [use_kill r k]) [sample_call ! 1] R"
    using call_frame_eliminated [OF e g res [symmetric] refl] o
    by (simp only: tw simp_thms if_True if_False take_0 append_Nil not_False_eq_True) blast
  with e list_all2_lengthD [OF all] show ?thesis by auto
qed

end
