(* ===== verification/Calling_Conv.thy ===== *)
theory Calling_Conv
  imports Frame_Lowering ISel_Lower
begin

text \<open>
  The calling convention: the part of \<open>SNESISelLowering.cpp\<close> that gives arguments and
  results their registers and stack slots and lowers formal arguments, calls and returns,
  with \<open>SNESCallingConv.td\<close> and the state \<open>CCState\<close> of \<open>CallingConvLower.h\<close>. The chain of a
  lowered call or return is the list of the nodes that it threads, in order.
\<close>

section \<open>Pieces of arguments\<close>

text \<open>
  The fields of \<open>ISD::OutputArg\<close> and \<open>ISD::InputArg\<close> that the target reads. The type of a
  piece is a register type of the target.
\<close>

record arg_piece =
  piece_VT :: simple_vt
  PartOffset :: nat

definition getStoreSize :: "simple_vt \<Rightarrow> nat" where
  "getStoreSize T = (case T of MVT_i8 \<Rightarrow> 1 | MVT_i16 \<Rightarrow> 2)"

definition to_evt :: "simple_vt \<Rightarrow> evt" where
  "to_evt T = (case T of MVT_i8 \<Rightarrow> VT_i8 | MVT_i16 \<Rightarrow> VT_i16)"

text \<open>
  An integer of \<open>w\<close> bits is promoted to a register type or cut into registers of the larger
  one, and each part becomes a piece with its offset.
\<close>

definition getRegisterType :: "nat \<Rightarrow> simple_vt" where
  "getRegisterType w = (if w \<le> 8 then MVT_i8 else MVT_i16)"

definition getNumRegisters :: "nat \<Rightarrow> nat" where
  "getNumRegisters w = (let RegWidth = 8 * getStoreSize (getRegisterType w) in (w + RegWidth - 1) div RegWidth)"

definition split_argument :: "nat \<Rightarrow> arg_piece list" where
  "split_argument w = List.map (\<lambda>j. \<lparr>piece_VT = getRegisterType w,
     PartOffset = j * getStoreSize (getRegisterType w)\<rparr>) [0..<getNumRegisters w]"

text \<open>The number of pieces of each parameter, from the sizes of the types in bits.\<close>

definition parseFunctionArgs :: "nat list \<Rightarrow> nat list" where
  "parseFunctionArgs = List.map (\<lambda>w. let Bytes = (w + 7) div 8 in (Bytes + 1) div 2)"

text \<open>
  For an external symbol the pieces themselves tell where an argument ends: the inner loop
  counts the pieces whose offset continues the argument. When it counts none the outer loop
  does not advance.
\<close>

fun same_argument :: "nat \<Rightarrow> arg_piece list \<Rightarrow> nat" where
  "same_argument Offset [] = 0"
| "same_argument Offset (p # ps) =
     (if PartOffset p = Offset then Suc (same_argument (Offset + getStoreSize (piece_VT p)) ps) else 0)"

partial_function (option) parseExternFuncCallArgs :: "arg_piece list \<Rightarrow> nat list option" where
  "parseExternFuncCallArgs ps =
     (if ps = [] then Some []
      else let Size = same_argument 0 ps
           in Option.bind (parseExternFuncCallArgs (drop Size ps)) (\<lambda>Out. Some (Size # Out)))"

section \<open>Locations\<close>

datatype loc_info = Full | SExt | ZExt | AExt | SExtUpper | ZExtUpper | AExtUpper | BCvt | VExt
  | FPExt | Indirect

datatype location = RegLoc reg | MemLoc nat

record cc_val_assign =
  ValNo :: nat
  ValVT :: simple_vt
  LocVT :: simple_vt
  HTP :: loc_info
  Loc :: location

record cc_state =
  UsedRegs :: "reg list"
  StackOffset :: nat
  MaxStackArgAlign :: nat
  Locs :: "cc_val_assign list"

definition initial_cc_state :: cc_state where
  "initial_cc_state = \<lparr>UsedRegs = [], StackOffset = 0, MaxStackArgAlign = 1, Locs = []\<rparr>"

definition addLoc :: "cc_val_assign \<Rightarrow> cc_state \<Rightarrow> cc_state" where
  "addLoc V S = S\<lparr>Locs := Locs S @ [V]\<rparr>"

text \<open>A register, its sub-registers and its super-registers.\<close>

definition aliases :: "reg \<Rightarrow> reg list" where
  "aliases r = (case r of
     SNES_A \<Rightarrow> [SNES_A, SNES_AL, SNES_AH] | SNES_AL \<Rightarrow> [SNES_AL, SNES_A] | SNES_AH \<Rightarrow> [SNES_AH, SNES_A]
   | SNES_X \<Rightarrow> [SNES_X, SNES_XL, SNES_XH] | SNES_XL \<Rightarrow> [SNES_XL, SNES_X] | SNES_XH \<Rightarrow> [SNES_XH, SNES_X]
   | SNES_Y \<Rightarrow> [SNES_Y, SNES_YL, SNES_YH] | SNES_YL \<Rightarrow> [SNES_YL, SNES_Y] | SNES_YH \<Rightarrow> [SNES_YH, SNES_Y]
   | _ \<Rightarrow> [r])"

definition isAllocated :: "cc_state \<Rightarrow> reg \<Rightarrow> bool" where
  "isAllocated S r = (r \<in> set (UsedRegs S))"

definition MarkAllocated :: "reg \<Rightarrow> cc_state \<Rightarrow> cc_state" where
  "MarkAllocated r S = S\<lparr>UsedRegs := UsedRegs S @ aliases r\<rparr>"

definition AllocateReg :: "reg list \<Rightarrow> cc_state \<Rightarrow> reg \<times> cc_state" where
  "AllocateReg Regs S = (case List.find (\<lambda>r. \<not> isAllocated S r) Regs of
     None \<Rightarrow> (NoRegister, S) | Some r \<Rightarrow> (r, MarkAllocated r S))"

definition alignTo :: "nat \<Rightarrow> nat \<Rightarrow> nat" where
  "alignTo v a = (v + a - 1) div a * a"

definition AllocateStack :: "nat \<Rightarrow> nat \<Rightarrow> cc_state \<Rightarrow> nat \<times> cc_state" where
  "AllocateStack Size Align S =
     (let Result = alignTo (StackOffset S) Align
      in (Result, S\<lparr>StackOffset := Result + Size, MaxStackArgAlign := max Align (MaxStackArgAlign S)\<rparr>))"

definition getReg_loc :: "nat \<Rightarrow> simple_vt \<Rightarrow> reg \<Rightarrow> simple_vt \<Rightarrow> loc_info \<Rightarrow> cc_val_assign" where
  "getReg_loc n V r L I = \<lparr>ValNo = n, ValVT = V, LocVT = L, HTP = I, Loc = RegLoc r\<rparr>"

definition getMem_loc :: "nat \<Rightarrow> simple_vt \<Rightarrow> nat \<Rightarrow> simple_vt \<Rightarrow> loc_info \<Rightarrow> cc_val_assign" where
  "getMem_loc n V off L I = \<lparr>ValNo = n, ValVT = V, LocVT = L, HTP = I, Loc = MemLoc off\<rparr>"

text \<open>
  An assignment function answers whether it failed. The two conventions of
  \<open>SNESCallingConv.td\<close>: results in AL or A, arguments of variadic functions in stack slots of
  two bytes.
\<close>

type_synonym assign_fn = "nat \<Rightarrow> simple_vt \<Rightarrow> simple_vt \<Rightarrow> loc_info \<Rightarrow> cc_state \<Rightarrow> bool \<times> cc_state"

definition CCAssignToReg :: "reg list \<Rightarrow> assign_fn" where
  "CCAssignToReg Regs n V L I S =
     (let (r, S') = AllocateReg Regs S
      in if r = NoRegister then (True, S') else (False, addLoc (getReg_loc n V r L I) S'))"

definition RetCC_SNES :: assign_fn where
  "RetCC_SNES n V L I S = (case L of
     MVT_i8 \<Rightarrow> CCAssignToReg [SNES_AL] n V L I S
   | MVT_i16 \<Rightarrow> CCAssignToReg [SNES_A] n V L I S)"

definition ArgCC_SNES_Vararg :: assign_fn where
  "ArgCC_SNES_Vararg n V L I S =
     (let (Offset, S') = AllocateStack 2 1 S in (False, addLoc (getMem_loc n V Offset L I) S'))"

definition CCAssignFnForReturn :: "nat \<Rightarrow> assign_fn" where
  "CCAssignFnForReturn CallConv = RetCC_SNES"

text \<open>
  \<open>AnalyzeFormalArguments\<close>, \<open>AnalyzeCallOperands\<close>, \<open>AnalyzeReturn\<close> and \<open>AnalyzeCallResult\<close> are
  the same loop; \<open>CheckReturn\<close> answers instead of stopping.
\<close>

fun analyze_values :: "assign_fn \<Rightarrow> nat \<Rightarrow> simple_vt list \<Rightarrow> cc_state \<Rightarrow> cc_state outcome" where
  "analyze_values Fn i [] S = Inr S"
| "analyze_values Fn i (T # Ts) S =
     (let (failed, S') = Fn i T T Full S
      in if failed then Inl (Unreachable '''') else analyze_values Fn (Suc i) Ts S')"

fun CheckReturn :: "assign_fn \<Rightarrow> nat \<Rightarrow> simple_vt list \<Rightarrow> cc_state \<Rightarrow> bool" where
  "CheckReturn Fn i [] S = True"
| "CheckReturn Fn i (T # Ts) S =
     (let (failed, S') = Fn i T T Full S in if failed then False else CheckReturn Fn (Suc i) Ts S')"

section \<open>Arguments\<close>

definition RegList8 :: "reg list" where
  "RegList8 = [SNES_AL, SNES_XL, SNES_YL]"

definition RegList16 :: "reg list" where
  "RegList16 = [SNES_A, SNES_X, SNES_Y]"

text \<open>The two inner loops: \<open>Size\<close> pieces in registers, or \<open>Size\<close> pieces on the stack.\<close>

fun assign_regs :: "nat \<Rightarrow> nat \<Rightarrow> simple_vt \<Rightarrow> cc_state \<Rightarrow> cc_state" where
  "assign_regs 0 n T S = S"
| "assign_regs (Suc Size) n T S =
     (let (r, S') = AllocateReg (if T = MVT_i16 then RegList16 else RegList8) S
      in assign_regs Size (Suc n) T (addLoc (getReg_loc n T r T Full) S'))"

definition reverse_from :: "nat \<Rightarrow> nat \<Rightarrow> cc_state \<Rightarrow> cc_state" where
  "reverse_from pos Size S = S\<lparr>Locs := take pos (Locs S) @ rev (take Size (drop pos (Locs S)))
     @ drop (pos + Size) (Locs S)\<rparr>"

fun assign_stack :: "nat \<Rightarrow> nat \<Rightarrow> simple_vt \<Rightarrow> cc_state \<Rightarrow> cc_state" where
  "assign_stack 0 n T S = S"
| "assign_stack (Suc Size) n T S =
     (let (Offset, S') = AllocateStack (getStoreSize T) 1 S
      in assign_stack Size (Suc n) T (addLoc (getMem_loc n T Offset T Full) S'))"

text \<open>
  The loop over the arguments, with the state \<open>RegsLeft\<close>, \<open>ValNo\<close>, \<open>UsesStack\<close> and \<open>pos\<close>. The
  sizes and alignments of i8 and i16 are those of the data layout of \<open>SNESTargetMachine.cpp\<close>.
\<close>

fun standard_loop :: "simple_vt list \<Rightarrow> nat \<Rightarrow> nat \<Rightarrow> bool \<Rightarrow> nat \<Rightarrow> nat list \<Rightarrow> cc_state \<Rightarrow> cc_state outcome" where
  "standard_loop Ts RegsLeft n UsesStack pos [] S = Inr S"
| "standard_loop Ts RegsLeft n UsesStack pos (Size # Args) S =
     (if Size = 0 then standard_loop Ts RegsLeft n UsesStack pos Args S
      else asserting (pos < length Ts) ''idx < size()''
        (if \<not> UsesStack \<and> Size \<le> RegsLeft
         then standard_loop Ts (RegsLeft - Size) (n + Size) UsesStack (pos + Size) Args
                (reverse_from pos Size (assign_regs Size n (Ts ! pos) S))
         else standard_loop Ts RegsLeft (n + Size) True (pos + Size) Args
                (assign_stack Size n (Ts ! pos) S)))"

text \<open>\<open>None\<close> when the parse of the pieces of a call does not end.\<close>

definition analyzeStandardArguments ::
  "nat list \<Rightarrow> arg_piece list \<Rightarrow> bool \<Rightarrow> bool \<Rightarrow> cc_state outcome option" where
  "analyzeStandardArguments widths pieces IsCall IsVarArg =
     (let Ts = List.map piece_VT pieces in
      if IsVarArg then Some (analyze_values ArgCC_SNES_Vararg 0 Ts initial_cc_state)
      else Option.bind (if IsCall then parseExternFuncCallArgs pieces else Some (parseFunctionArgs widths))
        (\<lambda>Args. Some (standard_loop Ts (length RegList8) 0 False 0 Args initial_cc_state)))"

definition analyzeArguments ::
  "nat list \<Rightarrow> arg_piece list \<Rightarrow> nat \<Rightarrow> bool \<Rightarrow> bool \<Rightarrow> cc_state outcome option" where
  "analyzeArguments widths pieces CallConv IsCall IsVarArg =
     analyzeStandardArguments widths pieces IsCall IsVarArg"

section \<open>Formal arguments\<close>

definition CreateFixedObject :: "nat \<Rightarrow> int \<Rightarrow> frame_info \<Rightarrow> (int \<times> frame_info) outcome" where
  "CreateFixedObject Size off MFI =
     asserting (Size \<noteq> 0) ''Cannot allocate zero size fixed stack objects!''
       (Inr (- int (Suc (NumFixedObjects MFI)),
             MFI\<lparr>FrameObjects := \<lparr>SPOffset = off, ObjectSize = Size\<rparr> # FrameObjects MFI,
                 NumFixedObjects := Suc (NumFixedObjects MFI)\<rparr>))"

definition unknown_loc_info :: "'a outcome" where
  "unknown_loc_info = Inl (Unreachable ''Unknown loc info!'')"

text \<open>The value of a register argument: the switch over the location info.\<close>

definition incoming_value :: "cc_val_assign \<Rightarrow> sdvalue \<Rightarrow> sdvalue outcome" where
  "incoming_value VA ArgValue =
     (let RegVT = to_evt (LocVT VA); T = to_evt (ValVT VA) in
      case HTP VA of
        Full \<Rightarrow> Inr ArgValue
      | BCvt \<Rightarrow> Inr (SD_Node ISD_BITCAST T [ArgValue])
      | SExt \<Rightarrow> Inr (SD_Node ISD_TRUNCATE T [SD_Node ISD_AssertSext RegVT [ArgValue, SD_ValueType T]])
      | ZExt \<Rightarrow> Inr (SD_Node ISD_TRUNCATE T [SD_Node ISD_AssertZext RegVT [ArgValue, SD_ValueType T]])
      | _ \<Rightarrow> unknown_loc_info)"

definition copy_from_reg :: "reg \<Rightarrow> simple_vt \<Rightarrow> sdvalue" where
  "copy_from_reg r T = SD_Node ISD_CopyFromReg (to_evt T) [SD_Register r (to_evt T)]"

text \<open>
  The loop over the locations: the values, the live-in registers and the frame with an
  object for each argument on the stack.
\<close>

fun formal_values :: "cc_val_assign list \<Rightarrow> frame_info \<Rightarrow> (sdvalue list \<times> reg list \<times> frame_info) outcome" where
  "formal_values [] MFI = Inr ([], [], MFI)"
| "formal_values (VA # VAs) MFI = (case Loc VA of
     RegLoc r \<Rightarrow>
       obind (incoming_value VA (copy_from_reg r (LocVT VA))) (\<lambda>v.
       obind (formal_values VAs MFI) (\<lambda>(vs, live, MFI'). Inr (v # vs, r # live, MFI')))
   | MemLoc off \<Rightarrow>
       obind (CreateFixedObject (getStoreSize (LocVT VA)) (int off) MFI) (\<lambda>(FI, MFI).
       obind (formal_values VAs MFI) (\<lambda>(vs, live, MFI').
         Inr (SD_Node ISD_LOAD (to_evt (LocVT VA)) [SD_FrameIndex FI VT_i16] # vs, live, MFI'))))"

record formal_arguments =
  fa_InVals :: "sdvalue list"
  fa_LiveIns :: "reg list"
  fa_frame :: frame_info
  fa_info :: function_info

definition LowerFormalArguments :: "nat \<Rightarrow> bool \<Rightarrow> nat list \<Rightarrow> arg_piece list \<Rightarrow> frame_info \<Rightarrow> function_info \<Rightarrow>
    formal_arguments outcome option" where
  "LowerFormalArguments CallConv isVarArg widths Ins MFI FI =
     map_option (\<lambda>CC. obind CC (\<lambda>CCInfo.
       obind (formal_values (Locs CCInfo) MFI) (\<lambda>(InVals, live, MFI').
         if isVarArg
         then obind (CreateFixedObject 2 (int (StackOffset CCInfo)) MFI') (\<lambda>(VFI, MFI').
                Inr \<lparr>fa_InVals = InVals, fa_LiveIns = live, fa_frame = MFI',
                     fa_info = FI\<lparr>VarArgsFrameIndex := VFI\<rparr>\<rparr>)
         else Inr \<lparr>fa_InVals = InVals, fa_LiveIns = live, fa_frame = MFI', fa_info = FI\<rparr>)))
     (analyzeArguments widths Ins CallConv False isVarArg)"

section \<open>Calls\<close>

datatype chain_node =
    CALLSEQ_START nat nat
  | Chain_Store sdvalue sdvalue
  | CopyToReg reg sdvalue
  | Chain_Node isd_op "sdvalue list"
  | CALLSEQ_END nat nat
  | CopyFromReg reg simple_vt

text \<open>The value of an argument in its location: the switch over the location info.\<close>

definition outgoing_value :: "cc_val_assign \<Rightarrow> sdvalue \<Rightarrow> sdvalue outcome" where
  "outgoing_value VA Arg =
     (let RegVT = to_evt (LocVT VA) in
      case HTP VA of
        Full \<Rightarrow> Inr Arg
      | SExt \<Rightarrow> Inr (SD_Node ISD_SIGN_EXTEND RegVT [Arg])
      | ZExt \<Rightarrow> Inr (SD_Node ISD_ZERO_EXTEND RegVT [Arg])
      | AExt \<Rightarrow> Inr (SD_Node ISD_ANY_EXTEND RegVT [Arg])
      | BCvt \<Rightarrow> Inr (SD_Node ISD_BITCAST RegVT [Arg])
      | _ \<Rightarrow> unknown_loc_info)"

definition no_operand :: "'a outcome" where
  "no_operand = Inl (Assertion ''idx < size()'')"

text \<open>The first loop: the arguments in registers, up to the first one on the stack.\<close>

fun regs_to_pass :: "cc_val_assign list \<Rightarrow> sdvalue list \<Rightarrow> (reg \<times> sdvalue) list outcome" where
  "regs_to_pass [] Args = Inr []"
| "regs_to_pass (VA # VAs) [] = no_operand"
| "regs_to_pass (VA # VAs) (Arg # Args) =
     obind (outgoing_value VA Arg) (\<lambda>Arg'. case Loc VA of
       MemLoc off \<Rightarrow> Inr []
     | RegLoc r \<Rightarrow> obind (regs_to_pass VAs Args) (\<lambda>rs. Inr ((r, Arg') # rs)))"

text \<open>The second loop, from the last argument down; the values are stored as they are.\<close>

definition stack_store :: "cc_val_assign \<Rightarrow> sdvalue \<Rightarrow> chain_node outcome" where
  "stack_store VA Arg = (case Loc VA of
     RegLoc r \<Rightarrow> Inl (Assertion ''VA.isMemLoc()'')
   | MemLoc off \<Rightarrow> Inr (Chain_Store Arg (SD_Node ISD_ADD VT_i16
       [SD_Register SNES_SP VT_i16, SD_Constant (of_nat (off + 1)) VT_i16])))"

fun stack_stores :: "cc_val_assign list \<Rightarrow> sdvalue list \<Rightarrow> chain_node list outcome" where
  "stack_stores [] Args = Inr []"
| "stack_stores (VA # VAs) [] = no_operand"
| "stack_stores (VA # VAs) (Arg # Args) =
     obind (stack_stores VAs Args) (\<lambda>later. obind (stack_store VA Arg) (\<lambda>st. Inr (later @ [st])))"

text \<open>The callee of a direct call becomes a target node that legalization leaves alone.\<close>

definition target_callee :: "sdvalue \<Rightarrow> sdvalue outcome" where
  "target_callee Callee = (case Callee of
     SD_GlobalAddress GV off \<Rightarrow>
       asserting (gv_is_function GV) ''cast<Ty>() argument of incompatible type!'' (Inr (SD_TargetGlobalAddress GV 0))
   | SD_ExternalSymbol s \<Rightarrow> Inr (SD_TargetExternalSymbol s)
   | _ \<Rightarrow> Inr Callee)"

text \<open>\<open>CSR_Normal_RegMask\<close>: the preserved registers with their sub-registers.\<close>

definition getCallPreservedMask :: "nat \<Rightarrow> reg list" where
  "getCallPreservedMask CallConv = [SNES_A, SNES_AH, SNES_AL]"

text \<open>The results come in registers: \<open>getLocReg\<close> asserts it.\<close>

definition result_copy :: "cc_val_assign \<Rightarrow> chain_node outcome" where
  "result_copy VA = (case Loc VA of
     RegLoc r \<Rightarrow> Inr (CopyFromReg r (ValVT VA)) | MemLoc off \<Rightarrow> Inl (Assertion ''isRegLoc()''))"

definition result_value :: "chain_node \<Rightarrow> sdvalue" where
  "result_value n = (case n of CopyFromReg r T \<Rightarrow> copy_from_reg r T | _ \<Rightarrow> SD_Glue)"

definition LowerCallResult :: "nat \<Rightarrow> simple_vt list \<Rightarrow> (chain_node list \<times> sdvalue list) outcome" where
  "LowerCallResult CallConv Ins =
     obind (analyze_values (CCAssignFnForReturn CallConv) 0 Ins initial_cc_state) (\<lambda>CCInfo.
     obind (omap result_copy (Locs CCInfo)) (\<lambda>copies. Inr (copies, List.map result_value copies)))"

record call_info =
  ci_Callee :: sdvalue
  ci_CallConv :: nat
  ci_IsVarArg :: bool
  ci_IsTailCall :: bool
  ci_Outs :: "arg_piece list"
  ci_OutVals :: "sdvalue list"
  ci_Ins :: "simple_vt list"

record lowered_call =
  lc_chain :: "chain_node list"
  lc_InVals :: "sdvalue list"
  lc_IsTailCall :: bool

definition LowerCall :: "call_info \<Rightarrow> lowered_call outcome option" where
  "LowerCall CLI =
     (case target_callee (ci_Callee CLI) of Inl e \<Rightarrow> Some (Inl e) | Inr Callee \<Rightarrow>
      map_option (\<lambda>CC. obind CC (\<lambda>CCInfo.
        let NumBytes = StackOffset CCInfo; ArgLocs = Locs CCInfo in
        obind (regs_to_pass ArgLocs (ci_OutVals CLI)) (\<lambda>RegsToPass.
        obind (stack_stores (drop (length RegsToPass) ArgLocs) (drop (length RegsToPass) (ci_OutVals CLI))) (\<lambda>stores.
        obind (LowerCallResult (ci_CallConv CLI) (ci_Ins CLI)) (\<lambda>(copies, InVals).
          let Ops = Callee # List.map (\<lambda>(r, v). SD_Register r (getValueType v)) RegsToPass
                @ [SD_RegisterMask (getCallPreservedMask (ci_CallConv CLI))]
                @ (if RegsToPass = [] then [] else [SD_Glue])
          in Inr \<lparr>lc_chain = [CALLSEQ_START NumBytes 0] @ stores @ List.map (\<lambda>(r, v). CopyToReg r v) RegsToPass
                   @ [Chain_Node SNESISD_CALL Ops, CALLSEQ_END NumBytes 0] @ copies,
                 lc_InVals = InVals, lc_IsTailCall = False\<rparr>)))))
      (analyzeArguments [] (ci_Outs CLI) (ci_CallConv CLI) True (ci_IsVarArg CLI)))"

section \<open>Returns\<close>

definition CanLowerReturn :: "nat \<Rightarrow> simple_vt list \<Rightarrow> bool" where
  "CanLowerReturn CallConv Outs = CheckReturn (CCAssignFnForReturn CallConv) 0 Outs initial_cc_state"

fun return_copies :: "cc_val_assign list \<Rightarrow> sdvalue list \<Rightarrow> (chain_node \<times> sdvalue) list outcome" where
  "return_copies [] OutVals = Inr []"
| "return_copies (VA # VAs) OutVals = (case Loc VA of
     MemLoc off \<Rightarrow> Inl (Assertion ''Can only return in registers!'')
   | RegLoc r \<Rightarrow> (case OutVals of
       [] \<Rightarrow> no_operand
     | v # vs \<Rightarrow> obind (return_copies VAs vs) (\<lambda>cs.
         Inr ((CopyToReg r v, SD_Register r (to_evt (LocVT VA))) # cs))))"

definition LowerReturn :: "nat \<Rightarrow> bool \<Rightarrow> simple_vt list \<Rightarrow> sdvalue list \<Rightarrow> chain_node list outcome" where
  "LowerReturn CallConv naked Outs OutVals =
     obind (analyze_values (CCAssignFnForReturn CallConv) 0 Outs initial_cc_state) (\<lambda>CCInfo.
       let RVLocs = (if length (Locs CCInfo) > 1 then rev (Locs CCInfo) else Locs CCInfo) in
       obind (return_copies RVLocs OutVals) (\<lambda>cs.
         let RetOps = List.map snd cs @ (if cs = [] then [] else [SD_Glue])
         in Inr (List.map fst cs @ (if naked then [] else [Chain_Node SNESISD_RET_FLAG RetOps]))))"

section \<open>The convention as a rule\<close>

text \<open>
  The convention that both sides should follow: arguments take registers from the left as
  long as all of their pieces fit, the pieces of one argument in reverse; from the first
  argument that does not fit on, the pieces lie one after the other on the stack. In a
  variadic function every piece has a slot of two bytes.
\<close>

type_synonym place = "simple_vt \<times> location"

definition arg_reg :: "simple_vt \<Rightarrow> nat \<Rightarrow> reg" where
  "arg_reg T i = (if T = MVT_i16 then RegList16 else RegList8) ! i"

fun places :: "nat \<Rightarrow> bool \<Rightarrow> nat \<Rightarrow> nat list \<Rightarrow> place list" where
  "places k on_stack off [] = []"
| "places k on_stack off (w # ws) =
     (let n = getNumRegisters w; T = getRegisterType w in
      if \<not> on_stack \<and> k + n \<le> 3
      then List.map (\<lambda>i. (T, RegLoc (arg_reg T i))) (rev [k..<k + n]) @ places (k + n) False off ws
      else List.map (\<lambda>j. (T, MemLoc (off + j * getStoreSize T))) [0..<n]
           @ places k True (off + n * getStoreSize T) ws)"

fun slots :: "nat \<Rightarrow> simple_vt list \<Rightarrow> place list" where
  "slots off [] = []"
| "slots off (T # Ts) = (T, MemLoc off) # slots (off + 2) Ts"

definition pieces_of :: "nat list \<Rightarrow> arg_piece list" where
  "pieces_of ws = concat (List.map split_argument ws)"

definition arg_places :: "bool \<Rightarrow> nat list \<Rightarrow> place list" where
  "arg_places isVarArg ws =
     (if isVarArg then slots 0 (List.map piece_VT (pieces_of ws)) else places 0 False 0 ws)"

fun place_end :: "place \<Rightarrow> nat" where
  "place_end (T, RegLoc r) = 0"
| "place_end (T, MemLoc off) = off + getStoreSize T"

definition place_loc :: "place \<Rightarrow> simple_vt \<times> simple_vt \<times> loc_info \<times> location" where
  "place_loc p = (fst p, fst p, Full, snd p)"

definition loc_shape :: "cc_val_assign \<Rightarrow> simple_vt \<times> simple_vt \<times> loc_info \<times> location" where
  "loc_shape V = (ValVT V, LocVT V, HTP V, Loc V)"

named_theorems cc_simps \<open>evaluation of the convention\<close>

lemma loc_shape_simps [cc_simps]:
  "loc_shape (getReg_loc n T r T Full) = place_loc (T, RegLoc r)"
  "loc_shape (getMem_loc n T off T Full) = place_loc (T, MemLoc off)"
  by (simp_all add: loc_shape_def place_loc_def getReg_loc_def getMem_loc_def)

lemma Locs_simps [cc_simps]:
  "Locs (addLoc V S) = Locs S @ [V]" "StackOffset (addLoc V S) = StackOffset S"
  "UsedRegs (addLoc V S) = UsedRegs S" "Locs (MarkAllocated r S) = Locs S"
  "StackOffset (MarkAllocated r S) = StackOffset S" "UsedRegs (MarkAllocated r S) = UsedRegs S @ aliases r"
  by (simp_all add: addLoc_def MarkAllocated_def)

lemma AllocateStack_one [cc_simps]:
  "AllocateStack Size (Suc 0) S = (StackOffset S, S\<lparr>StackOffset := StackOffset S + Size,
     MaxStackArgAlign := max 1 (MaxStackArgAlign S)\<rparr>)"
  by (simp add: AllocateStack_def alignTo_def Let_def)

lemma getStoreSize_pos [simp]: "0 < getStoreSize T"
  by (cases T) (simp_all add: getStoreSize_def)

lemma getNumRegisters_pos: "0 < w \<Longrightarrow> 0 < getNumRegisters w"
  by (auto simp: getNumRegisters_def Let_def getRegisterType_def getStoreSize_def div_greater_zero_iff)

text \<open>The parser of the parameter types and the one of the pieces find the same counts.\<close>

lemma parseFunctionArgs_counts: "0 < w \<Longrightarrow> parseFunctionArgs [w] = [getNumRegisters w]"
proof -
  assume "0 < w"
  have "((w + 7) div 8 + 1) div 2 = (w + 15) div 8 div 2"
    by (rule arg_cong [where f = "\<lambda>x. x div 2"]) simp
  also have "\<dots> = (w + 15) div 16" by (simp only: div_mult2_eq [symmetric]) simp
  finally have e: "((w + 7) div 8 + 1) div 2 = (w + 15) div 16" .
  show ?thesis
  proof (cases "w \<le> 8")
    case True
    then have "(w + 15) div 16 = 1" "(w + 7) div 8 = 1" using \<open>0 < w\<close> by presburger+
    with e True show ?thesis
      by (simp add: parseFunctionArgs_def getNumRegisters_def getRegisterType_def getStoreSize_def Let_def)
  next
    case False
    with e show ?thesis
      by (simp add: parseFunctionArgs_def getNumRegisters_def getRegisterType_def getStoreSize_def Let_def)
  qed
qed

lemma parseFunctionArgs_all: "\<forall>w \<in> set ws. 0 < w \<Longrightarrow> parseFunctionArgs ws = List.map getNumRegisters ws"
  using parseFunctionArgs_counts by (induction ws) (auto simp: parseFunctionArgs_def Let_def)

lemma same_argument_split:
  assumes "rest = [] \<or> PartOffset (hd rest) \<noteq> off + n * getStoreSize T"
  shows "same_argument off (List.map (\<lambda>j. \<lparr>piece_VT = T, PartOffset = off + j * getStoreSize T\<rparr>) [0..<n] @ rest) = n"
  using assms
proof (induction n arbitrary: off)
  case 0
  then show ?case by (cases rest) auto
next
  case (Suc n)
  have l: "List.map (\<lambda>j. \<lparr>piece_VT = T, PartOffset = off + j * getStoreSize T\<rparr>) [0..<Suc n]
     = \<lparr>piece_VT = T, PartOffset = off\<rparr>
       # List.map (\<lambda>j. \<lparr>piece_VT = T, PartOffset = (off + getStoreSize T) + j * getStoreSize T\<rparr>) [0..<n]"
    by (simp add: upt_conv_Cons map_Suc_upt [symmetric] algebra_simps del: upt_Suc)
  show ?case using Suc.IH [of "off + getStoreSize T"] Suc.prems unfolding l by (simp add: algebra_simps)
qed

lemma pieces_of_hd: "\<forall>w \<in> set ws. 0 < w \<Longrightarrow> pieces_of ws = [] \<or> PartOffset (hd (pieces_of ws)) = 0"
proof (cases ws)
  case (Cons w ws')
  moreover assume "\<forall>w \<in> set ws. 0 < w"
  ultimately have "0 < getNumRegisters w" using getNumRegisters_pos by simp
  then show ?thesis
    by (simp add: Cons pieces_of_def split_argument_def upt_conv_Cons)
qed (simp add: pieces_of_def)

lemma parseExternFuncCallArgs_split:
  "\<forall>w \<in> set ws. 0 < w \<Longrightarrow> parseExternFuncCallArgs (pieces_of ws) = Some (List.map getNumRegisters ws)"
proof (induction ws)
  case Nil
  then show ?case by (subst parseExternFuncCallArgs.simps) (simp add: pieces_of_def)
next
  case (Cons w ws)
  have n: "0 < getNumRegisters w" using Cons.prems getNumRegisters_pos by simp
  have p: "pieces_of (w # ws) = split_argument w @ pieces_of ws" by (simp add: pieces_of_def)
  have "same_argument 0 (split_argument w @ pieces_of ws) = getNumRegisters w"
    using same_argument_split [of "pieces_of ws" 0 "getNumRegisters w" "getRegisterType w"] pieces_of_hd [of ws] Cons.prems n
    by (auto simp: split_argument_def)
  moreover have "length (split_argument w) = getNumRegisters w" by (simp add: split_argument_def)
  moreover have "split_argument w \<noteq> []" using n by (auto simp: split_argument_def)
  ultimately show ?case
    using Cons by (subst parseExternFuncCallArgs.simps) (simp add: p Let_def)
qed

section \<open>The code follows the rule\<close>

text \<open>The first \<open>k\<close> registers of both lists are taken, the others are free.\<close>

definition taken :: "nat \<Rightarrow> cc_state \<Rightarrow> bool" where
  "taken k S \<longleftrightarrow> k \<le> 3 \<and> (\<forall>i < 3. (isAllocated S (RegList8 ! i) = (i < k)) \<and> (isAllocated S (RegList16 ! i) = (i < k)))"

lemma less_three: "(\<forall>i < 3. P (i :: nat)) \<longleftrightarrow> P 0 \<and> P 1 \<and> P 2"
  by (auto simp: numeral_3_eq_3 less_Suc_eq numeral_2_eq_2)

lemma AllocateReg_taken:
  assumes "taken k S" "k < 3"
  shows "\<exists>S'. AllocateReg (if T = MVT_i16 then RegList16 else RegList8) S = (arg_reg T k, S')
    \<and> taken (Suc k) S' \<and> Locs S' = Locs S \<and> StackOffset S' = StackOffset S"
proof -
  have k: "k = 0 \<or> k = 1 \<or> k = 2" using assms(2) by auto
  show ?thesis
    using assms(1) k
    by (cases T) (auto simp: taken_def less_three RegList8_def RegList16_def AllocateReg_def arg_reg_def
        isAllocated_def cc_simps aliases_def)
qed

lemma assign_regs_places:
  "taken k S \<Longrightarrow> k + Size \<le> 3 \<Longrightarrow>
   taken (k + Size) (assign_regs Size n T S)
   \<and> List.map loc_shape (Locs (assign_regs Size n T S))
       = List.map loc_shape (Locs S) @ List.map (\<lambda>i. place_loc (T, RegLoc (arg_reg T i))) [k..<k + Size]
   \<and> StackOffset (assign_regs Size n T S) = StackOffset S"
proof (induction Size arbitrary: k n S)
  case 0
  then show ?case by simp
next
  case (Suc Size)
  from Suc.prems obtain S' where a: "AllocateReg (if T = MVT_i16 then RegList16 else RegList8) S = (arg_reg T k, S')"
    and t: "taken (Suc k) S'" and l: "Locs S' = Locs S" "StackOffset S' = StackOffset S"
    using AllocateReg_taken [of k S T] by auto
  have t': "taken (Suc k) (addLoc (getReg_loc n T (arg_reg T k) T Full) S')"
    using t by (simp add: taken_def isAllocated_def cc_simps)
  show ?case
    using Suc.IH [OF t', of "Suc n"] Suc.prems
    by (simp add: a l cc_simps upt_conv_Cons del: upt_Suc)
qed

lemma assign_stack_places:
  "Locs (assign_stack Size n T S) = Locs S @ List.map (\<lambda>j. getMem_loc (n + j) T (StackOffset S + j * getStoreSize T) T Full) [0..<Size]
   \<and> StackOffset (assign_stack Size n T S) = StackOffset S + Size * getStoreSize T
   \<and> UsedRegs (assign_stack Size n T S) = UsedRegs S"
proof (induction Size arbitrary: n S)
  case 0
  then show ?case by simp
next
  case (Suc Size)
  have u: "[0..<Suc Size] = 0 # List.map Suc [0..<Size]" by (simp add: upt_conv_Cons map_Suc_upt)
  show ?case
    using Suc.IH [of "Suc n" "addLoc (getMem_loc n T (StackOffset S) T Full)
       (S\<lparr>StackOffset := StackOffset S + getStoreSize T, MaxStackArgAlign := max 1 (MaxStackArgAlign S)\<rparr>)"]
    by (simp add: cc_simps u algebra_simps del: upt_Suc)
qed

text \<open>The bytes that the arguments take on the stack, from offset \<open>off\<close>.\<close>

fun stack_end :: "nat \<Rightarrow> place list \<Rightarrow> nat" where
  "stack_end off [] = off"
| "stack_end off ((T, RegLoc r) # ps) = stack_end off ps"
| "stack_end off ((T, MemLoc o') # ps) = stack_end (o' + getStoreSize T) ps"

lemma stack_end_append: "stack_end off (ps @ qs) = stack_end (stack_end off ps) qs"
  by (induction off ps rule: stack_end.induct) auto

lemma stack_end_regs: "stack_end off (List.map (\<lambda>i. (T, RegLoc (f i))) is) = off"
  by (induction "is") auto

lemma stack_end_mems:
  "stack_end off (List.map (\<lambda>j. (T, MemLoc (off + j * getStoreSize T))) [0..<n]) = off + n * getStoreSize T"
  by (induction n) (simp_all add: stack_end_append)

lemma reverse_from_locs:
  "length (Locs S) = pos + Size \<Longrightarrow> pos = length xs \<Longrightarrow> List.map loc_shape (Locs S) = xs @ ys \<Longrightarrow>
   List.map loc_shape (Locs (reverse_from pos Size S)) = xs @ rev ys"
  by (simp add: reverse_from_def take_map [symmetric] drop_map [symmetric] rev_map [symmetric])

lemma standard_loop_places:
  assumes "\<forall>w \<in> set ws. 0 < w" "taken k S"
    and "Ts = List.map piece_VT (pre @ pieces_of ws)" "length pre = length (Locs S)"
  shows "\<exists>S'. standard_loop Ts (3 - k) n on_stack (length (Locs S)) (List.map getNumRegisters ws) S = Inr S'
    \<and> List.map loc_shape (Locs S') = List.map loc_shape (Locs S) @ List.map place_loc (places k on_stack (StackOffset S) ws)
    \<and> StackOffset S' = stack_end (StackOffset S) (places k on_stack (StackOffset S) ws)"
  using assms
proof (induction ws arbitrary: k S n on_stack pre)
  case Nil
  then show ?case by simp
next
  case (Cons w ws)
  let ?n = "getNumRegisters w" and ?T = "getRegisterType w" and ?pos = "length (Locs S)"
  have n: "0 < ?n" using Cons.prems(1) getNumRegisters_pos by simp
  have pcs: "pieces_of (w # ws) = split_argument w @ pieces_of ws" by (simp add: pieces_of_def)
  have len: "length (split_argument w) = ?n" by (simp add: split_argument_def)
  have nth: "?pos < length Ts" "Ts ! ?pos = ?T"
    using n len Cons.prems(4) by (simp_all add: Cons.prems(3) pcs nth_append split_argument_def)
  have pos: "?pos = length pre" using Cons.prems(4) by simp
  show ?case
  proof (cases "\<not> on_stack \<and> k + ?n \<le> 3")
    case True
    let ?R = "assign_regs ?n n ?T S" and ?S = "reverse_from ?pos ?n (assign_regs ?n n ?T S)"
    let ?P = "List.map (\<lambda>i. (?T, RegLoc (arg_reg ?T i))) (rev [k..<k + ?n])"
    have R: "taken (k + ?n) ?R" "StackOffset ?R = StackOffset S"
      "List.map loc_shape (Locs ?R) = List.map loc_shape (Locs S) @ List.map (\<lambda>i. place_loc (?T, RegLoc (arg_reg ?T i))) [k..<k + ?n]"
      using assign_regs_places [of k S ?n n ?T] Cons.prems(2) True by simp_all
    have lR: "length (Locs ?R) = ?pos + ?n" using arg_cong [OF R(3), of length] by simp
    have S: "List.map loc_shape (Locs ?S) = List.map loc_shape (Locs S) @ List.map place_loc ?P"
      using reverse_from_locs [OF lR _ R(3)] by (simp add: rev_map comp_def)
    have t: "taken (k + ?n) ?S" "StackOffset ?S = StackOffset S"
      using R(1,2) by (simp_all add: reverse_from_def taken_def isAllocated_def)
    have lS: "length (Locs ?S) = ?pos + ?n" using arg_cong [OF S, of length] by simp
    have "Ts = List.map piece_VT ((pre @ split_argument w) @ pieces_of ws)" by (simp add: Cons.prems(3) pcs)
    moreover have "length (pre @ split_argument w) = length (Locs ?S)" by (simp add: lS len Cons.prems(4))
    ultimately obtain S' where
      S': "standard_loop Ts (3 - (k + ?n)) (n + ?n) False (length (Locs ?S)) (List.map getNumRegisters ws) ?S = Inr S'"
      "List.map loc_shape (Locs S') = List.map loc_shape (Locs ?S) @ List.map place_loc (places (k + ?n) False (StackOffset ?S) ws)"
      "StackOffset S' = stack_end (StackOffset ?S) (places (k + ?n) False (StackOffset ?S) ws)"
      using Cons.IH [of "k + ?n" ?S "pre @ split_argument w" "n + ?n" False] Cons.prems(1) t(1) by auto
    have "?n \<le> 3 - k" "3 - k - ?n = 3 - (k + ?n)" using conjunct2 [OF True] by linarith+
    then have "standard_loop Ts (3 - k) n on_stack ?pos (List.map getNumRegisters (w # ws)) S = Inr S'"
      using S'(1) n nth True by (simp add: lS)
    moreover have "places k on_stack (StackOffset S) (w # ws) = ?P @ places (k + ?n) False (StackOffset S) ws"
      using True by (simp add: Let_def)
    ultimately show ?thesis
      using S'(2,3) S by (simp only: t(2)) (simp add: stack_end_append stack_end_regs)
  next
    case False
    let ?S = "assign_stack ?n n ?T S"
    let ?P = "List.map (\<lambda>j. (?T, MemLoc (StackOffset S + j * getStoreSize ?T))) [0..<?n]"
    have st: "Locs ?S = Locs S @ List.map (\<lambda>j. getMem_loc (n + j) ?T (StackOffset S + j * getStoreSize ?T) ?T Full) [0..<?n]"
      "StackOffset ?S = StackOffset S + ?n * getStoreSize ?T" "UsedRegs ?S = UsedRegs S"
      using assign_stack_places [of ?n n ?T S] by auto
    have S: "List.map loc_shape (Locs ?S) = List.map loc_shape (Locs S) @ List.map place_loc ?P"
      by (simp add: st(1) cc_simps comp_def)
    have t: "taken k ?S" using Cons.prems(2) st(3) by (simp add: taken_def isAllocated_def)
    have lS: "length (Locs ?S) = ?pos + ?n" by (simp add: st(1))
    have "Ts = List.map piece_VT ((pre @ split_argument w) @ pieces_of ws)" by (simp add: Cons.prems(3) pcs)
    moreover have "length (pre @ split_argument w) = length (Locs ?S)" by (simp add: lS len Cons.prems(4))
    ultimately obtain S' where
      S': "standard_loop Ts (3 - k) (n + ?n) True (length (Locs ?S)) (List.map getNumRegisters ws) ?S = Inr S'"
      "List.map loc_shape (Locs S') = List.map loc_shape (Locs ?S) @ List.map place_loc (places k True (StackOffset ?S) ws)"
      "StackOffset S' = stack_end (StackOffset ?S) (places k True (StackOffset ?S) ws)"
      using Cons.IH [of k ?S "pre @ split_argument w" "n + ?n" True] Cons.prems(1) t by auto
    have "\<not> (\<not> on_stack \<and> ?n \<le> 3 - k)" using False Cons.prems(2) by (auto simp: taken_def)
    then have "standard_loop Ts (3 - k) n on_stack ?pos (List.map getNumRegisters (w # ws)) S = Inr S'"
      using S'(1) n nth by (auto simp add: lS)
    moreover have "places k on_stack (StackOffset S) (w # ws) = ?P @ places k True (StackOffset S + ?n * getStoreSize ?T) ws"
      using False by (auto simp: Let_def)
    ultimately show ?thesis
      using S'(2,3) S st(2) by (simp add: stack_end_append stack_end_mems)
  qed
qed

lemma vararg_values_slots:
  "\<exists>S'. analyze_values ArgCC_SNES_Vararg i Ts S = Inr S'
    \<and> List.map loc_shape (Locs S') = List.map loc_shape (Locs S) @ List.map place_loc (slots (StackOffset S) Ts)
    \<and> StackOffset S' = StackOffset S + 2 * length Ts"
proof (induction Ts arbitrary: i S)
  case Nil
  then show ?case by simp
next
  case (Cons T Ts)
  let ?S = "addLoc (getMem_loc i T (StackOffset S) T Full)
     (S\<lparr>StackOffset := StackOffset S + 2, MaxStackArgAlign := max 1 (MaxStackArgAlign S)\<rparr>)"
  have "ArgCC_SNES_Vararg i T T Full S = (False, ?S)" by (simp add: ArgCC_SNES_Vararg_def cc_simps)
  then show ?case using Cons.IH [of "Suc i" ?S] by (auto simp: cc_simps)
qed

text \<open>The bytes of the stack that the arguments of a call take.\<close>

definition arg_bytes :: "bool \<Rightarrow> nat list \<Rightarrow> nat" where
  "arg_bytes isVarArg ws =
     (if isVarArg then 2 * length (pieces_of ws) else stack_end 0 (places 0 False 0 ws))"

text \<open>
  A call and a function of the same parameters give every piece the same place, the one of
  the rule.
\<close>

lemma analyze_places:
  assumes "\<forall>w \<in> set ws. 0 < w"
  shows "\<exists>S. analyzeArguments widths (pieces_of ws) CallConv True isVarArg = Some (Inr S)
    \<and> analyzeArguments ws (pieces_of ws) CallConv False isVarArg = Some (Inr S)
    \<and> List.map loc_shape (Locs S) = List.map place_loc (arg_places isVarArg ws)
    \<and> StackOffset S = arg_bytes isVarArg ws"
proof (cases isVarArg)
  case True
  with vararg_values_slots [of 0 "List.map piece_VT (pieces_of ws)" initial_cc_state] show ?thesis
    by (auto simp: analyzeArguments_def analyzeStandardArguments_def arg_places_def arg_bytes_def
        initial_cc_state_def)
next
  case False
  have t: "taken 0 initial_cc_state"
    by (simp add: taken_def isAllocated_def initial_cc_state_def)
  have l: "length RegList8 = 3" by (simp add: RegList8_def)
  obtain S where "standard_loop (List.map piece_VT (pieces_of ws)) 3 0 False 0 (List.map getNumRegisters ws) initial_cc_state = Inr S"
    "List.map loc_shape (Locs S) = List.map place_loc (places 0 False 0 ws)"
    "StackOffset S = stack_end 0 (places 0 False 0 ws)"
    using standard_loop_places [OF assms t, of "List.map piece_VT (pieces_of ws)" "[]" 0 False]
    by (auto simp: initial_cc_state_def)
  with False show ?thesis
    by (simp add: analyzeArguments_def analyzeStandardArguments_def arg_places_def arg_bytes_def l
        parseExternFuncCallArgs_split [OF assms] parseFunctionArgs_all [OF assms])
qed

section \<open>Properties of the rule\<close>

text \<open>Two places do not overlap.\<close>

fun apart :: "place \<Rightarrow> place \<Rightarrow> bool" where
  "apart (T, RegLoc r) (T', RegLoc r') = (set (aliases r) \<inter> set (aliases r') = {})"
| "apart (T, MemLoc o1) (T', MemLoc o2) = (o1 + getStoreSize T \<le> o2 \<or> o2 + getStoreSize T' \<le> o1)"
| "apart _ _ = True"

text \<open>A register holds values of its own size, a slot lies in the argument area.\<close>

fun fits :: "nat \<Rightarrow> place \<Rightarrow> bool" where
  "fits n (T, RegLoc r) = (r \<in> set (if T = MVT_i16 then RegList16 else RegList8))"
| "fits n (T, MemLoc off) = (off + getStoreSize T \<le> n)"

lemma apart_sym: "apart p q = apart q p"
  by (cases "(p, q)" rule: apart.cases) auto

lemma arg_reg_apart: "i < 3 \<Longrightarrow> j < 3 \<Longrightarrow> i \<noteq> j \<Longrightarrow> apart (T, RegLoc (arg_reg T i)) (T', RegLoc (arg_reg T' j))"
proof -
  assume "i < 3" "j < 3" "i \<noteq> j"
  then have "i = 0 \<or> i = 1 \<or> i = 2" "j = 0 \<or> j = 1 \<or> j = 2" by auto
  with \<open>i \<noteq> j\<close> show ?thesis
    by (cases T; cases T') (auto simp: arg_reg_def RegList8_def RegList16_def aliases_def)
qed

text \<open>What lies in a list of places from register \<open>k\<close> and offset \<open>off\<close> on.\<close>

fun beyond :: "nat \<Rightarrow> nat \<Rightarrow> nat \<Rightarrow> place \<Rightarrow> bool" where
  "beyond k off n (T, RegLoc r) = (\<exists>i. k \<le> i \<and> i < 3 \<and> r = arg_reg T i)"
| "beyond k off n (T, MemLoc o') = (off \<le> o' \<and> o' + getStoreSize T \<le> n)"

lemma beyond_mono: "beyond k off n p \<Longrightarrow> k' \<le> k \<Longrightarrow> off' \<le> off \<Longrightarrow> n \<le> n' \<Longrightarrow> beyond k' off' n' p"
  by (cases p rule: place_end.cases) (auto intro: le_trans)

lemma places_apart:
  "k \<le> 3 \<Longrightarrow>
   off \<le> stack_end off (places k on_stack off ws)
   \<and> (\<forall>p \<in> set (places k on_stack off ws). beyond k off (stack_end off (places k on_stack off ws)) p)
   \<and> sorted_wrt apart (places k on_stack off ws)"
proof (induction ws arbitrary: k off on_stack)
  case Nil
  then show ?case by simp
next
  case (Cons w ws)
  let ?n = "getNumRegisters w" and ?T = "getRegisterType w"
  show ?case
  proof (cases "\<not> on_stack \<and> k + ?n \<le> 3")
    case True
    let ?P = "List.map (\<lambda>i. (?T, RegLoc (arg_reg ?T i))) (rev [k..<k + ?n])"
    let ?Q = "places (k + ?n) False off ws"
    have e: "places k on_stack off (w # ws) = ?P @ ?Q" using True by (simp add: Let_def)
    have Q: "off \<le> stack_end off ?Q" "\<forall>p \<in> set ?Q. beyond (k + ?n) off (stack_end off ?Q) p" "sorted_wrt apart ?Q"
      using Cons.IH [of "k + ?n" off False] True by auto
    have s: "stack_end off (?P @ ?Q) = stack_end off ?Q" by (simp add: stack_end_append stack_end_regs)
    have b: "\<forall>p \<in> set ?P. beyond k off m p" for m using True by auto
    have "apart p q" if pq: "p \<in> set ?P" "q \<in> set ?Q" for p q
    proof -
      from pq(1) obtain i where i: "i < k + ?n" "p = (?T, RegLoc (arg_reg ?T i))" by auto
      from pq(2) Q(2) have "beyond (k + ?n) off (stack_end off ?Q) q" by blast
      then show ?thesis using i True
        by (cases "(k, off, k, q)" rule: beyond.cases) (auto intro!: arg_reg_apart simp del: apart.simps(1))
    qed
    moreover have "sorted_wrt apart ?P"
    proof -
      have "sorted_wrt (\<lambda>i j. apart (?T, RegLoc (arg_reg ?T j)) (?T, RegLoc (arg_reg ?T i))) [k..<k + ?n]"
        using True by (intro sorted_wrt_mono_rel [OF _ sorted_wrt_upt]) (auto intro!: arg_reg_apart simp del: apart.simps(1))
      then show ?thesis by (simp add: sorted_wrt_map sorted_wrt_rev)
    qed
    ultimately have "sorted_wrt apart (?P @ ?Q)" using Q(3) by (simp only: sorted_wrt_append) blast
    moreover have "\<forall>p \<in> set (?P @ ?Q). beyond k off (stack_end off ?Q) p"
      using Q(2) b beyond_mono [of "k + ?n" off "stack_end off ?Q" _ k] by (simp only: set_append) auto
    ultimately show ?thesis using Q(1) by (simp only: e s)
  next
    case False
    let ?P = "List.map (\<lambda>j. (?T, MemLoc (off + j * getStoreSize ?T))) [0..<?n]"
    let ?m = "off + ?n * getStoreSize ?T"
    let ?Q = "places k True ?m ws"
    have e: "places k on_stack off (w # ws) = ?P @ ?Q" using False by (auto simp: Let_def)
    have Q: "?m \<le> stack_end ?m ?Q" "\<forall>p \<in> set ?Q. beyond k ?m (stack_end ?m ?Q) p" "sorted_wrt apart ?Q"
      using Cons.IH [of k ?m True] Cons.prems by auto
    have s: "stack_end off (?P @ ?Q) = stack_end ?m ?Q" by (simp add: stack_end_append stack_end_mems)
    have j: "j * getStoreSize ?T + getStoreSize ?T \<le> ?n * getStoreSize ?T" if "j < ?n" for j
      using that mult_le_mono1 [of "Suc j" ?n "getStoreSize ?T"] by simp
    have b: "\<forall>p \<in> set ?P. beyond k off (stack_end ?m ?Q) p" using Q(1) j by fastforce
    have "apart p q" if pq: "p \<in> set ?P" "q \<in> set ?Q" for p q
    proof -
      from pq(1) obtain i where i: "i < ?n" "p = (?T, MemLoc (off + i * getStoreSize ?T))" by auto
      from pq(2) Q(2) have "beyond k ?m (stack_end ?m ?Q) q" by blast
      then show ?thesis using i j [OF i(1)]
        by (cases "(k, off, k, q)" rule: beyond.cases) auto
    qed
    moreover have "sorted_wrt apart ?P"
    proof -
      have "i * getStoreSize ?T + getStoreSize ?T \<le> j * getStoreSize ?T" if "i < j" for i j
        using that mult_le_mono1 [of "Suc i" j "getStoreSize ?T"] by simp
      then have "sorted_wrt (\<lambda>i j. apart (?T, MemLoc (off + i * getStoreSize ?T)) (?T, MemLoc (off + j * getStoreSize ?T))) [0..<?n]"
        by (intro sorted_wrt_mono_rel [OF _ sorted_wrt_upt]) auto
      then show ?thesis by (simp add: sorted_wrt_map)
    qed
    ultimately have "sorted_wrt apart (?P @ ?Q)" using Q(3) by (simp only: sorted_wrt_append) blast
    moreover have "\<forall>p \<in> set (?P @ ?Q). beyond k off (stack_end ?m ?Q) p"
      using Q(2) b beyond_mono [of k ?m "stack_end ?m ?Q" _ k off] by (simp only: set_append) auto
    ultimately show ?thesis using Q(1) by (simp only: e s) simp
  qed
qed

lemma slots_apart:
  "(\<forall>p \<in> set (slots off Ts). beyond 3 off (off + 2 * length Ts) p) \<and> sorted_wrt apart (slots off Ts)"
proof (induction Ts arbitrary: off)
  case Nil
  then show ?case by simp
next
  case (Cons T Ts)
  have s: "getStoreSize T \<le> 2" by (cases T) (simp_all add: getStoreSize_def)
  have "apart (T, MemLoc off) p" if "p \<in> set (slots (off + 2) Ts)" for p
  proof -
    from that Cons.IH [of "off + 2"] have "beyond 3 (off + 2) (off + 2 + 2 * length Ts) p" by blast
    then show ?thesis using s by (cases p rule: place_end.cases) auto
  qed
  moreover have "beyond 3 off (off + 2 * length (T # Ts)) p" if "p \<in> set (slots (off + 2) Ts)" for p
  proof -
    from that Cons.IH [of "off + 2"] have "beyond 3 (off + 2) (off + 2 + 2 * length Ts) p" by blast
    then show ?thesis by (rule beyond_mono) simp_all
  qed
  ultimately show ?case using Cons.IH [of "off + 2"] s by auto
qed

lemma beyond_fits: "beyond k off n p \<Longrightarrow> fits n p"
proof (cases p rule: place_end.cases)
  case (1 T r)
  moreover assume "beyond k off n p"
  ultimately obtain i where i: "i < 3" "r = arg_reg T i" by auto
  then have "i = 0 \<or> i = 1 \<or> i = 2" by auto
  with i 1 show ?thesis by (auto simp: arg_reg_def RegList8_def RegList16_def)
qed simp

definition in_reg :: "place \<Rightarrow> bool" where
  "in_reg p = (case snd p of RegLoc r \<Rightarrow> True | MemLoc off \<Rightarrow> False)"

lemma places_stack: "\<forall>p \<in> set (places k True off ws). \<not> in_reg p"
  by (induction ws arbitrary: off) (auto simp: Let_def in_reg_def)

lemma places_regs_first:
  "\<exists>R M. places k on_stack off ws = R @ M \<and> (\<forall>p \<in> set R. in_reg p) \<and> (\<forall>p \<in> set M. \<not> in_reg p)"
proof (induction ws arbitrary: k off on_stack)
  case Nil
  then show ?case by simp
next
  case (Cons w ws)
  let ?n = "getNumRegisters w" and ?T = "getRegisterType w"
  show ?case
  proof (cases "\<not> on_stack \<and> k + ?n \<le> 3")
    case True
    obtain R M where "places (k + ?n) False off ws = R @ M" "\<forall>p \<in> set R. in_reg p" "\<forall>p \<in> set M. \<not> in_reg p"
      using Cons.IH [of "k + ?n" False off] by auto
    with True show ?thesis
      by (intro exI [of _ "List.map (\<lambda>i. (?T, RegLoc (arg_reg ?T i))) (rev [k..<k + ?n]) @ R"] exI [of _ M])
        (auto simp: Let_def in_reg_def)
  next
    case False
    then have "\<forall>p \<in> set (places k on_stack off (w # ws)). \<not> in_reg p"
      using places_stack [of k _ ws] by (auto simp: Let_def in_reg_def)
    then show ?thesis by (intro exI [of _ "[]"] exI [of _ "places k on_stack off (w # ws)"]) simp
  qed
qed

lemma slots_stack: "\<forall>p \<in> set (slots off Ts). \<not> in_reg p"
  by (induction Ts arbitrary: off) (auto simp: in_reg_def)

lemma arg_places_apart:
  "sorted_wrt apart (arg_places va ws)" "\<forall>p \<in> set (arg_places va ws). fits (arg_bytes va ws) p"
proof -
  have "sorted_wrt apart (arg_places va ws) \<and> (\<forall>p \<in> set (arg_places va ws). fits (arg_bytes va ws) p)"
    using places_apart [of 0 0 False ws] slots_apart [of 0 "List.map piece_VT (pieces_of ws)"] beyond_fits
    by (auto simp: arg_places_def arg_bytes_def)
  then show "sorted_wrt apart (arg_places va ws)" "\<forall>p \<in> set (arg_places va ws). fits (arg_bytes va ws) p" by simp_all
qed

lemma arg_places_regs_first:
  "\<exists>R M. arg_places va ws = R @ M \<and> (\<forall>p \<in> set R. in_reg p) \<and> (\<forall>p \<in> set M. \<not> in_reg p)"
  using places_regs_first [of 0 False 0 ws] slots_stack [of 0 "List.map piece_VT (pieces_of ws)"]
  by (cases va) (auto simp: arg_places_def intro: exI [of _ "[]"])

lemma length_places: "List.map fst (places k on_stack off ws) = List.map piece_VT (pieces_of ws)"
  by (induction k on_stack off ws rule: places.induct)
    (auto simp: Let_def pieces_of_def split_argument_def comp_def rev_map map_replicate_const)

lemma slots_types: "List.map fst (slots off Ts) = Ts"
  by (induction Ts arbitrary: off) auto

lemma arg_places_types: "List.map fst (arg_places va ws) = List.map piece_VT (pieces_of ws)"
  by (simp add: arg_places_def length_places slots_types)

text \<open>
  Property C10. A call and the called function analyze parameters of integer types to the
  same locations, variadic or not: those of the rule, which are pairwise apart, in registers
  of the right size or within the bytes that the call reserves, the registers first.
\<close>

theorem arguments_placed:
  assumes "\<forall>w \<in> set ws. 0 < w"
  shows "\<exists>S R M. analyzeArguments widths (pieces_of ws) CallConv True isVarArg = Some (Inr S)
    \<and> analyzeArguments ws (pieces_of ws) CallConv False isVarArg = Some (Inr S)
    \<and> List.map loc_shape (Locs S) = List.map place_loc (R @ M) \<and> R @ M = arg_places isVarArg ws
    \<and> sorted_wrt apart (R @ M) \<and> list_all (fits (StackOffset S)) (R @ M)
    \<and> list_all in_reg R \<and> list_all (\<lambda>p. \<not> in_reg p) M"
  using analyze_places [OF assms, of widths CallConv isVarArg] arg_places_regs_first [of isVarArg ws]
    arg_places_apart [of isVarArg ws]
  by (auto simp: list_all_iff) (metis)

lemma arguments_placed_witness:
  "\<exists>S R M. analyzeArguments [] (pieces_of [16, 1, 32, 8, 24]) 0 True False = Some (Inr S)
      \<and> analyzeArguments [16, 1, 32, 8, 24] (pieces_of [16, 1, 32, 8, 24]) 0 False False = Some (Inr S)
      \<and> R @ M = [(MVT_i16, RegLoc SNES_A), (MVT_i8, RegLoc SNES_XL), (MVT_i16, MemLoc 0), (MVT_i16, MemLoc 2),
          (MVT_i8, MemLoc 4), (MVT_i16, MemLoc 5), (MVT_i16, MemLoc 7)]"
proof -
  have p: "\<forall>w \<in> set [16, 1, 32, 8, 24 :: nat]. 0 < w" by simp
  have "arg_places False [16, 1, 32, 8, 24] = [(MVT_i16, RegLoc SNES_A), (MVT_i8, RegLoc SNES_XL), (MVT_i16, MemLoc 0),
      (MVT_i16, MemLoc 2), (MVT_i8, MemLoc 4), (MVT_i16, MemLoc 5), (MVT_i16, MemLoc 7)]"
    by code_simp
  with arguments_placed [OF p, of "[]" 0 False] show ?thesis by metis
qed

end
