(* ===== verification/Asm_Lexer.thy ===== *)
theory Asm_Lexer
  imports Inst_Printer
begin

text \<open>
  Tokens of assembly text and the part of \<open>AsmLexer.cpp\<close> that cuts operands into them:
  identifiers, decimal numbers and punctuation. Text that needs another part of the lexer
  (comments, strings, floating point, other radixes) or is rejected has no tokens here: the
  lexer answers \<open>None\<close>.
\<close>

section \<open>Tokens\<close>

datatype (plugins only: code size) token_kind =
    Tok_Eof | Tok_Identifier | Tok_String | Tok_Integer | Tok_BigNum | Tok_Real
  | Tok_EndOfStatement | Tok_Colon | Tok_Plus | Tok_Minus | Tok_Tilde | Tok_Slash | Tok_LParen | Tok_RParen
  | Tok_LBrac | Tok_RBrac | Tok_Star | Tok_Dot | Tok_Comma | Tok_Dollar | Tok_Equal | Tok_EqualEqual
  | Tok_Pipe | Tok_PipePipe | Tok_Caret | Tok_Amp | Tok_AmpAmp | Tok_Exclaim | Tok_ExclaimEqual
  | Tok_Percent | Tok_Hash | Tok_Less | Tok_LessEqual | Tok_LessLess | Tok_LessGreater | Tok_Greater
  | Tok_GreaterEqual | Tok_GreaterGreater | Tok_At

record token =
  tk_kind :: token_kind
  tk_string :: string
  tk_int :: u64

definition plain_token :: "token_kind \<Rightarrow> string \<Rightarrow> token" where
  "plain_token k s = \<lparr>tk_kind = k, tk_string = s, tk_int = 0\<rparr>"

definition int_token :: "string \<Rightarrow> nat \<Rightarrow> token" where
  "int_token s n = \<lparr>tk_kind = if n < 2 ^ 64 then Tok_Integer else Tok_BigNum, tk_string = s, tk_int = of_nat n\<rparr>"

section \<open>Characters\<close>

definition code_of :: "char \<Rightarrow> nat" where
  "code_of c = of_char c"

definition isdigit :: "char \<Rightarrow> bool" where
  "isdigit c = (48 \<le> code_of c \<and> code_of c \<le> 57)"

definition isalpha :: "char \<Rightarrow> bool" where
  "isalpha c = (65 \<le> code_of c \<and> code_of c \<le> 90 \<or> 97 \<le> code_of c \<and> code_of c \<le> 122)"

definition IsIdentifierChar :: "char \<Rightarrow> bool" where
  "IsIdentifierChar c = (isdigit c \<or> isalpha c \<or> c \<in> set ''_$.@?'')"

definition lower :: "string \<Rightarrow> string" where
  "lower = map (\<lambda>c. if 65 \<le> code_of c \<and> code_of c \<le> 90 then char_of (code_of c + 32) else c)"

definition upper :: "string \<Rightarrow> string" where
  "upper = map (\<lambda>c. if 97 \<le> code_of c \<and> code_of c \<le> 122 then char_of (code_of c - 32) else c)"

section \<open>The lexer\<close>

text \<open>An identifier from its first character on; a single dot is a token of its own.\<close>

definition LexIdentifier :: "char \<Rightarrow> string \<Rightarrow> (token \<times> string) option" where
  "LexIdentifier c cs =
     (if c = CHR ''.'' \<and> cs \<noteq> [] \<and> isdigit (hd cs) then None
      else let name = c # takeWhile IsIdentifierChar cs; rest = dropWhile IsIdentifierChar cs
           in Some (plain_token (if name = ''.'' then Tok_Dot else Tok_Identifier) name, rest))"

text \<open>
  A decimal number: zero alone or digits that do not start with zero, not followed by a
  character that makes it a number of another kind or a number with a suffix.
\<close>

definition LexDigit :: "char \<Rightarrow> string \<Rightarrow> (token \<times> string) option" where
  "LexDigit c cs =
     (let digits = c # takeWhile isdigit cs; rest = dropWhile isdigit cs
      in if c = CHR ''0'' \<and> digits \<noteq> ''0'' then None
         else if rest \<noteq> [] \<and> (isalpha (hd rest) \<or> hd rest = CHR ''.'') then None
         else Some (int_token digits (digits_value digits), rest))"

definition single_chars :: "(char \<times> token_kind) list" where
  "single_chars = [(CHR '':'', Tok_Colon), (CHR ''+'', Tok_Plus), (CHR ''-'', Tok_Minus), (CHR ''~'', Tok_Tilde),
     (CHR ''('', Tok_LParen), (CHR '')'', Tok_RParen), (CHR ''['', Tok_LBrac), (CHR '']'', Tok_RBrac),
     (CHR ''*'', Tok_Star), (CHR '','', Tok_Comma), (CHR ''$'', Tok_Dollar), (CHR ''@'', Tok_At), (CHR ''^'', Tok_Caret),
     (CHR ''='', Tok_Equal), (CHR ''|'', Tok_Pipe), (CHR ''&'', Tok_Amp), (CHR ''!'', Tok_Exclaim), (CHR ''<'', Tok_Less),
     (CHR ''>'', Tok_Greater), (CHR ''%'', Tok_Percent), (CHR ''/'', Tok_Slash),
     (char_of (10 :: nat), Tok_EndOfStatement), (char_of (13 :: nat), Tok_EndOfStatement)]"

text \<open>The operators of two characters; a second slash or a star after a slash starts a comment.\<close>

definition double_chars :: "((char \<times> char) \<times> token_kind) list" where
  "double_chars = [((CHR ''='', CHR ''=''), Tok_EqualEqual), ((CHR ''|'', CHR ''|''), Tok_PipePipe),
     ((CHR ''&'', CHR ''&''), Tok_AmpAmp), ((CHR ''!'', CHR ''=''), Tok_ExclaimEqual),
     ((CHR ''<'', CHR ''<''), Tok_LessLess), ((CHR ''<'', CHR ''=''), Tok_LessEqual),
     ((CHR ''<'', CHR ''>''), Tok_LessGreater), ((CHR ''>'', CHR ''>''), Tok_GreaterGreater),
     ((CHR ''>'', CHR ''=''), Tok_GreaterEqual)]"

definition LexOperator :: "char \<Rightarrow> string \<Rightarrow> (token \<times> string) option" where
  "LexOperator c cs =
     (case (if cs = [] then None else map_of double_chars (c, hd cs)) of
        Some k \<Rightarrow> Some (plain_token k [c, hd cs], tl cs)
      | None \<Rightarrow> if c = CHR ''/'' \<and> cs \<noteq> [] \<and> hd cs \<in> {CHR ''*'', CHR ''/''} then None
                else map_option (\<lambda>k. (plain_token k [c], cs)) (map_of single_chars c))"

definition is_blank :: "char \<Rightarrow> bool" where
  "is_blank c = (code_of c = 32 \<or> code_of c = 9)"

definition LexToken :: "char \<Rightarrow> string \<Rightarrow> (token \<times> string) option" where
  "LexToken c cs =
     (if isalpha c \<or> c = CHR ''_'' \<or> c = CHR ''.'' then LexIdentifier c cs
      else if isdigit c then LexDigit c cs
      else LexOperator c cs)"

lemma LexToken_shorter: "LexToken c cs = Some (t, rest) \<Longrightarrow> length rest < Suc (length cs)"
  by (auto simp: LexToken_def LexIdentifier_def LexDigit_def LexOperator_def Let_def less_Suc_eq_le length_dropWhile_le
      split: if_splits option.splits)

text \<open>All tokens of an operand text, white space skipped.\<close>

function lex :: "string \<Rightarrow> token list option" where
  "lex [] = Some []"
| "lex (c # cs) =
     (if is_blank c then lex cs
      else case LexToken c cs of None \<Rightarrow> None | Some (t, rest) \<Rightarrow> map_option ((#) t) (lex rest))"
  by pat_completeness auto
termination
  by (relation "measure length") (auto dest: LexToken_shorter)

section \<open>Tokens of printed text\<close>

lemma code_of_eq [simp]: "code_of c = code_of d \<longleftrightarrow> c = d"
  by (simp add: code_of_def)

lemma isdigit_nat_digits: "\<forall>c \<in> set (nat_digits n). isdigit c"
  using nat_digits_digit by (auto simp: isdigit_def code_of_def)

lemma nat_digits_leading: "nat_digits n \<noteq> ''0'' \<Longrightarrow> hd (nat_digits n) \<noteq> CHR ''0''"
proof (induction n rule: nat_digits.induct)
  case (1 n)
  show ?case
  proof (cases "n < 10")
    case True
    then have "nat_digits n = [char_of (48 + n)]" by (subst nat_digits.simps) simp
    with 1 show ?thesis by auto
  next
    case False
    then have e: "nat_digits n = nat_digits (n div 10) @ [char_of (48 + n mod 10)]"
      by (subst nat_digits.simps) simp
    have "nat_digits (n div 10) \<noteq> ''0''"
    proof
      assume "nat_digits (n div 10) = ''0''"
      moreover have "digits_value ''0'' = 0" by (simp add: digits_value_def)
      ultimately have "n div 10 = 0" using digits_value_nat_digits [of "n div 10"] by metis
      with False show False by simp
    qed
    with 1 False e show ?thesis by simp
  qed
qed

lemma lex_number:
  assumes "rest = [] \<or> \<not> isdigit (hd rest) \<and> \<not> isalpha (hd rest) \<and> hd rest \<noteq> CHR ''.''"
  shows "lex (nat_digits n @ rest) = map_option ((#) (int_token (nat_digits n) n)) (lex rest)"
proof -
  obtain c cs where d: "nat_digits n = c # cs" by (cases "nat_digits n") auto
  have digs: "isdigit c" "\<forall>x \<in> set cs. isdigit x" using isdigit_nat_digits [of n] by (simp_all add: d)
  have tw: "takeWhile isdigit (cs @ rest) = cs" "dropWhile isdigit (cs @ rest) = rest"
    using digs(2) assms by (cases rest; simp add: takeWhile_append2 dropWhile_append2)+
  have c: "\<not> isalpha c" "c \<noteq> CHR ''_''" "c \<noteq> CHR ''.''" "\<not> is_blank c"
    using digs(1) by (auto simp: isdigit_def isalpha_def is_blank_def code_of_def)
  have "\<not> (c = CHR ''0'' \<and> c # cs \<noteq> ''0'')" using nat_digits_leading [of n] by (auto simp: d)
  then have "LexToken c (cs @ rest) = Some (int_token (nat_digits n) n, rest)"
    using c digs(1) assms digits_value_nat_digits [of n]
    by (auto simp: LexToken_def LexDigit_def tw d Let_def)
  then show ?thesis using c(4) by (simp add: d)
qed

definition is_name :: "string \<Rightarrow> bool" where
  "is_name s = (s \<noteq> [] \<and> (isalpha (hd s) \<or> hd s = CHR ''_'') \<and> list_all IsIdentifierChar s)"

lemma lex_name:
  assumes "is_name s" "rest = [] \<or> \<not> IsIdentifierChar (hd rest)"
  shows "lex (s @ rest) = map_option ((#) (plain_token Tok_Identifier s)) (lex rest)"
proof -
  obtain c cs where s: "s = c # cs" using assms(1) by (cases s) (auto simp: is_name_def)
  have c: "isalpha c \<or> c = CHR ''_''" "c \<noteq> CHR ''.''" "\<not> is_blank c" "list_all IsIdentifierChar cs"
    using assms(1) by (auto simp: is_name_def s isalpha_def is_blank_def code_of_def)
  have tw: "takeWhile IsIdentifierChar (cs @ rest) = cs" "dropWhile IsIdentifierChar (cs @ rest) = rest"
    using c(4) assms(2) by (cases rest; simp add: takeWhile_append2 dropWhile_append2 list_all_iff)+
  have "LexToken c (cs @ rest) = Some (plain_token Tok_Identifier s, rest)"
    using c by (auto simp: LexToken_def LexIdentifier_def tw s Let_def)
  then show ?thesis using c(3) by (simp add: s)
qed

lemma lex_single:
  "\<not> is_blank c \<Longrightarrow> \<not> isalpha c \<Longrightarrow> c \<noteq> CHR ''_'' \<Longrightarrow> c \<noteq> CHR ''.'' \<Longrightarrow> \<not> isdigit c \<Longrightarrow> map_of single_chars c = Some k \<Longrightarrow>
   c \<notin> set ''=|&!<>/'' \<Longrightarrow> lex (c # rest) = map_option ((#) (plain_token k [c])) (lex rest)"
  by (simp add: LexToken_def LexOperator_def double_chars_def)

end
