(* ===== verification/Inline_Asm.thy ===== *)
theory Inline_Asm
  imports Calling_Conv Asm_Lexer
begin

text \<open>
  Operands of inline assembly, the last part of \<open>SNESISelLowering.cpp\<close>: what kind a constraint
  is, how well a value matches it, which registers it stands for and which constants it
  accepts, with the generic parts of \<open>TargetLowering.cpp\<close> that these functions end in, and
  \<open>GetRegistersForValue\<close>, which uses them.
\<close>

section \<open>Kinds of constraints\<close>

datatype constraint_type = C_Register | C_RegisterClass | C_Memory | C_Other | C_Unknown

definition generic_getConstraintType :: "string \<Rightarrow> constraint_type" where
  "generic_getConstraintType Constraint =
     (if length Constraint = 1 \<and> hd Constraint = CHR ''r'' then C_RegisterClass
      else if length Constraint = 1 \<and> hd Constraint \<in> set ''moV'' then C_Memory
      else if length Constraint = 1 \<and> hd Constraint \<in> set ''inEFspXIJKLMNOP<>'' then C_Other
      else if 1 < length Constraint \<and> hd Constraint = CHR ''{'' \<and> last Constraint = CHR ''}''
      then (if Constraint = ''{memory}'' then C_Memory else C_Register)
      else C_Unknown)"

definition getConstraintType :: "string \<Rightarrow> constraint_type" where
  "getConstraintType Constraint =
     (if length Constraint = 1 \<and> hd Constraint \<in> set ''abdleqrw'' then C_RegisterClass
      else if length Constraint = 1 \<and> hd Constraint \<in> set ''txXyYzZ'' then C_Register
      else if length Constraint = 1 \<and> hd Constraint = CHR ''Q'' then C_Memory
      else if length Constraint = 1 \<and> hd Constraint \<in> set ''GIJKLMNOPR'' then C_Other
      else generic_getConstraintType Constraint)"

datatype mem_constraint = Constraint_Unknown | Constraint_i | Constraint_m | Constraint_Q

definition getInlineAsmMemConstraint :: "string \<Rightarrow> mem_constraint outcome" where
  "getInlineAsmMemConstraint ConstraintCode =
     asserting (ConstraintCode \<noteq> []) ''Invalid index!''
       (Inr (if hd ConstraintCode = CHR ''Q'' then Constraint_Q
             else if ConstraintCode = ''i'' then Constraint_i
             else if ConstraintCode = ''m'' then Constraint_m
             else Constraint_Unknown))"

section \<open>How well a value matches\<close>

text \<open>The values of the IR that the functions tell apart.\<close>

datatype ir_value = IR_ConstantInt u64 evt | IR_ConstantFP bool | IR_GlobalValue | IR_Other bool

definition CW_Invalid :: int where "CW_Invalid = - 1"
definition CW_SpecificReg :: int where "CW_SpecificReg = 0"
definition CW_Register :: int where "CW_Register = 1"
definition CW_Memory :: int where "CW_Memory = 2"
definition CW_Constant :: int where "CW_Constant = 3"
definition CW_Default :: int where "CW_Default = 0"

definition isIntegerTy :: "ir_value \<Rightarrow> bool" where
  "isIntegerTy V = (case V of IR_ConstantInt _ _ \<Rightarrow> True | IR_Other b \<Rightarrow> b | _ \<Rightarrow> False)"

definition isConstantInt :: "ir_value \<Rightarrow> bool" where
  "isConstantInt V = (case V of IR_ConstantInt _ _ \<Rightarrow> True | _ \<Rightarrow> False)"

definition isConstantFP :: "ir_value \<Rightarrow> bool" where
  "isConstantFP V = (case V of IR_ConstantFP _ \<Rightarrow> True | _ \<Rightarrow> False)"

definition generic_MatchWeight :: "ir_value \<Rightarrow> char \<Rightarrow> int" where
  "generic_MatchWeight V c =
     (if c \<in> set ''in'' then (if isConstantInt V then CW_Constant else CW_Invalid)
      else if c = CHR ''s'' then (if V = IR_GlobalValue then CW_Constant else CW_Invalid)
      else if c \<in> set ''EF'' then (if isConstantFP V then CW_Constant else CW_Invalid)
      else if c \<in> set ''<>moV'' then CW_Memory
      else if c \<in> set ''rg'' then (if isIntegerTy V then CW_Register else CW_Invalid)
      else CW_Default)"

text \<open>The test of each letter for a constant, by its two readings.\<close>

definition weight_test :: "char \<Rightarrow> u64 \<Rightarrow> u64 \<Rightarrow> bool" where
  "weight_test c CVal64 CUVal64 =
     (if c = CHR ''I'' then isUInt 6 CUVal64
      else if c = CHR ''J'' then - 63 \<le> sint CVal64 \<and> sint CVal64 \<le> 0
      else if c = CHR ''K'' then CUVal64 = 2
      else if c = CHR ''L'' then CUVal64 = 0
      else if c = CHR ''M'' then isUInt 8 CUVal64
      else if c = CHR ''N'' then sint CVal64 = - 1
      else if c = CHR ''O'' then CUVal64 = 8 \<or> CUVal64 = 16 \<or> CUVal64 = 24
      else if c = CHR ''P'' then CUVal64 = 1
      else - 6 \<le> sint CVal64 \<and> sint CVal64 \<le> 5)"

definition getSingleConstraintMatchWeight :: "ir_value option \<Rightarrow> char \<Rightarrow> int" where
  "getSingleConstraintMatchWeight CallOperandVal c = (case CallOperandVal of
     None \<Rightarrow> CW_Default
   | Some V \<Rightarrow>
       if c \<in> set ''drl'' then CW_Register
       else if c \<in> set ''abeqtwxXyYzZ'' then CW_SpecificReg
       else if c = CHR ''G'' then (if V = IR_ConstantFP True then CW_Constant else CW_Invalid)
       else if c \<in> set ''IJKLMNOPR''
       then (case V of
           IR_ConstantInt C Ty \<Rightarrow>
             if weight_test c (getSExtValue C Ty) (getZExtValue C Ty) then CW_Constant else CW_Invalid
         | _ \<Rightarrow> CW_Invalid)
       else if c = CHR ''Q'' then CW_Memory
       else generic_MatchWeight V c)"

section \<open>Registers\<close>

text \<open>
  A register in braces: the register of that name, in a class that has the type when there is
  one, else in the first class that contains it. The order of the classes is TableGen's.
\<close>

fun find_named_reg ::
  "(reg_class \<times> reg) list \<Rightarrow> string \<Rightarrow> evt \<Rightarrow> (reg \<times> reg_class) option \<Rightarrow> (reg \<times> reg_class) option" where
  "find_named_reg [] RegName VT R = R"
| "find_named_reg ((RC, r) # ps) RegName VT R =
     (if lower RegName = lower (reg_name r)
      then (if to_evt (class_type RC) = VT then Some (r, RC)
            else find_named_reg ps RegName VT (if R = None then Some (r, RC) else R))
      else find_named_reg ps RegName VT R)"

definition generic_getRegForInlineAsmConstraint ::
  "reg_class list \<Rightarrow> string \<Rightarrow> evt \<Rightarrow> (reg \<times> reg_class option) outcome" where
  "generic_getRegForInlineAsmConstraint regclasses Constraint VT =
     (if Constraint = [] \<or> hd Constraint \<noteq> CHR ''{'' then Inr (NoRegister, None)
      else asserting (last Constraint = CHR ''}'') ''Not a brace enclosed constraint?''
        (let RegName = butlast (tl Constraint);
             ps = concat (List.map (\<lambda>RC. List.map (Pair RC) (class_members RC)) regclasses)
         in Inr (case find_named_reg ps RegName VT None of
              None \<Rightarrow> (NoRegister, None) | Some (r, RC) \<Rightarrow> (r, Some RC))))"

definition getRegForInlineAsmConstraint ::
  "reg_class list \<Rightarrow> string \<Rightarrow> evt \<Rightarrow> (reg \<times> reg_class option) outcome" where
  "getRegForInlineAsmConstraint regclasses Constraint VT =
     (case Constraint of
        [c] \<Rightarrow>
          if c \<in> set ''ad'' then Inr (NoRegister, Some MainLoRegs)
          else if c \<in> set ''blw'' then Inr (NoRegister, Some MainRegs)
          else if c = CHR ''e'' then Inr (NoRegister, Some IndexRegs)
          else if c = CHR ''q'' then Inr (NoRegister, Some StackPointerRegs)
          else if c = CHR ''r''
          then (if VT = VT_i8 then Inr (NoRegister, Some MainRegs)
                else asserting (VT = VT_i16) ''inline asm constraint too large'' (Inr (NoRegister, Some MainRegs)))
          else if c = CHR ''t'' then Inr (SNES_A, Some MainRegs)
          else if c \<in> set ''xX'' then Inr (SNES_X, Some IndexRegs)
          else if c \<in> set ''yY'' then Inr (SNES_Y, Some IndexRegs)
          else if c \<in> set ''zZ'' then Inr (SNES_A, Some IndexRegs)
          else generic_getRegForInlineAsmConstraint regclasses Constraint VT
      | _ \<Rightarrow> generic_getRegForInlineAsmConstraint regclasses Constraint VT)"

text \<open>
  \<open>GetRegistersForValue\<close>: the registers of a value, physical or new virtual ones of a class,
  with the types of the registers and of the value. When the constraint stands for no register
  there is no assignment. Operands are integers.
\<close>

datatype asm_reg = PhysReg reg | VirtReg reg_class

definition class_vt :: "reg_class \<Rightarrow> evt" where
  "class_vt RC = to_evt (class_type RC)"

definition regs_from :: "reg \<Rightarrow> reg_class \<Rightarrow> nat \<Rightarrow> reg list outcome" where
  "regs_from AssignedReg RC NumRegs =
     (if NumRegs = 1 then Inr [AssignedReg]
      else case dropWhile (\<lambda>r. r \<noteq> AssignedReg) (class_members RC) of
        [] \<Rightarrow> Inl (Undefined ''reads past the register class'')
      | r # rs \<Rightarrow> asserting (NumRegs - 1 \<le> length rs) ''Ran out of registers to allocate!''
          (Inr (AssignedReg # take (NumRegs - 1) rs)))"

definition GetRegistersForValue ::
  "reg_class list \<Rightarrow> bool \<Rightarrow> string \<Rightarrow> evt \<Rightarrow> (asm_reg list \<times> evt \<times> evt) option outcome" where
  "GetRegistersForValue regclasses isInput ConstraintCode ConstraintVT =
     obind (getRegForInlineAsmConstraint regclasses ConstraintCode ConstraintVT) (\<lambda>(AssignedReg, RCo).
       let VT = (case RCo of
             Some RC \<Rightarrow> if isInput \<and> ConstraintVT \<noteq> VT_Other \<and> class_vt RC \<noteq> ConstraintVT
                  \<and> getSizeInBits (class_vt RC) = getSizeInBits ConstraintVT then class_vt RC else ConstraintVT
           | None \<Rightarrow> ConstraintVT);
           NumRegs = (if ConstraintVT \<noteq> VT_Other then getNumRegisters (getSizeInBits VT) else 1)
       in case RCo of
            None \<Rightarrow> Inr None
          | Some RC \<Rightarrow>
              let ValueVT = (if VT = VT_Other then class_vt RC else VT)
              in if AssignedReg \<noteq> NoRegister
                 then obind (regs_from AssignedReg RC NumRegs) (\<lambda>rs. Inr (Some (List.map PhysReg rs, class_vt RC, ValueVT)))
                 else Inr (Some (replicate NumRegs (VirtReg RC), class_vt RC, ValueVT)))"

section \<open>Constants\<close>

text \<open>\<open>ConstantSDNode\<close> and \<open>GlobalAddressSDNode\<close> cover the target nodes too.\<close>

definition as_constant :: "sdvalue \<Rightarrow> (u64 \<times> evt) option" where
  "as_constant v = (case v of SD_Constant c T \<Rightarrow> Some (c, T) | SD_TargetConstant c T \<Rightarrow> Some (c, T) | _ \<Rightarrow> None)"

definition as_global :: "sdvalue \<Rightarrow> (global_value \<times> u64) option" where
  "as_global v = (case v of SD_GlobalAddress g off \<Rightarrow> Some (g, off) | SD_TargetGlobalAddress g off \<Rightarrow> Some (g, off) | _ \<Rightarrow> None)"

definition is_block :: "sdvalue \<Rightarrow> bool" where
  "is_block v = (case v of SD_BasicBlock _ \<Rightarrow> True | _ \<Rightarrow> False)"

definition push_to :: "sdvalue list \<Rightarrow> sdvalue outcome \<Rightarrow> sdvalue list outcome" where
  "push_to Ops r = obind r (\<lambda>v. Inr (Ops @ [v]))"

text \<open>The global and the constant of an operand, alone or added in either order.\<close>

definition global_and_constant :: "sdvalue \<Rightarrow> (u64 \<times> evt) option \<times> (global_value \<times> u64) option" where
  "global_and_constant Op = (case Op of
     SD_Node ISD_ADD _ [l, r] \<Rightarrow>
       if as_constant r \<noteq> None \<and> as_global l \<noteq> None then (as_constant r, as_global l)
       else if as_constant l \<noteq> None \<and> as_global r \<noteq> None then (as_constant l, as_global r)
       else (None, None)
   | _ \<Rightarrow> (as_constant Op, as_global Op))"

definition generic_LowerAsmOperandForConstraint :: "sdvalue \<Rightarrow> string \<Rightarrow> sdvalue list \<Rightarrow> sdvalue list outcome" where
  "generic_LowerAsmOperandForConstraint Op Constraint Ops =
     (case Constraint of
        [c] \<Rightarrow>
          if c = CHR ''X'' \<and> is_block Op then Inr (Ops @ [Op])
          else if c \<in> set ''Xins''
          then (case global_and_constant Op of
              (C, Some (g, off)) \<Rightarrow>
                if c \<noteq> CHR ''n''
                then Inr (Ops @ [SD_TargetGlobalAddress g (off + (case C of None \<Rightarrow> 0 | Some (v, T) \<Rightarrow> getZExtValue v T))])
                else Inr Ops
            | (Some (v, T), None) \<Rightarrow>
                if c \<noteq> CHR ''s'' then push_to Ops (getTargetConstant (getSExtValue v T) VT_i64) else Inr Ops
            | (None, None) \<Rightarrow> Inr Ops)
          else Inr Ops
      | _ \<Rightarrow> Inr Ops)"

text \<open>The constant that a letter accepts, with the type it is given.\<close>

definition accepted_constant :: "char \<Rightarrow> u64 \<Rightarrow> u64 \<Rightarrow> evt \<Rightarrow> (u64 \<times> evt) option" where
  "accepted_constant c CVal64 CUVal64 Ty =
     (if c = CHR ''I'' then (if \<not> isUInt 6 CUVal64 then None else Some (CUVal64, Ty))
      else if c = CHR ''J'' then (if sint CVal64 < - 63 \<or> 0 < sint CVal64 then None else Some (CVal64, Ty))
      else if c = CHR ''K'' then (if CUVal64 \<noteq> 2 then None else Some (CUVal64, Ty))
      else if c = CHR ''L'' then (if CUVal64 \<noteq> 0 then None else Some (CUVal64, Ty))
      else if c = CHR ''M'' then (if \<not> isUInt 8 CUVal64 then None
        else Some (CUVal64, if Ty = VT_i8 then VT_i16 else Ty))
      else if c = CHR ''N'' then (if sint CVal64 \<noteq> - 1 then None else Some (CVal64, Ty))
      else if c = CHR ''O'' then (if CUVal64 \<noteq> 8 \<and> CUVal64 \<noteq> 16 \<and> CUVal64 \<noteq> 24 then None else Some (CUVal64, Ty))
      else if c = CHR ''P'' then (if CUVal64 \<noteq> 1 then None else Some (CUVal64, Ty))
      else (if sint CVal64 < - 6 \<or> 5 < sint CVal64 then None else Some (CVal64, Ty)))"

definition LowerAsmOperandForConstraint :: "sdvalue \<Rightarrow> string \<Rightarrow> sdvalue list \<Rightarrow> sdvalue list outcome" where
  "LowerAsmOperandForConstraint Op Constraint Ops =
     (case Constraint of
        [c] \<Rightarrow>
          if c \<in> set ''IJKLMNOPR''
          then (case as_constant Op of
              None \<Rightarrow> Inr Ops
            | Some (v, T) \<Rightarrow> (case accepted_constant c (getSExtValue v T) (getZExtValue v T) (getValueType Op) of
                  None \<Rightarrow> Inr Ops
                | Some (w, Ty) \<Rightarrow> push_to Ops (getTargetConstant w Ty)))
          else if c = CHR ''G''
          then (case Op of SD_ConstantFP True _ \<Rightarrow> push_to Ops (getTargetConstant 0 VT_i8) | _ \<Rightarrow> Inr Ops)
          else generic_LowerAsmOperandForConstraint Op Constraint Ops
      | _ \<Rightarrow> Inr Ops)"

section \<open>Names of registers\<close>

definition getRegisterByName :: "string \<Rightarrow> evt \<Rightarrow> reg outcome" where
  "getRegisterByName RegName VT =
     (if RegName = ''X'' then Inr SNES_X else if RegName = ''Y'' then Inr SNES_Y
      else if RegName = ''A'' then Inr SNES_A
      else Inl (FatalError ''Invalid register name global variable''))"

section \<open>Constants that are accepted\<close>

text \<open>What the letters mean for a value of \<open>n\<close> bits.\<close>

definition immediate_range :: "char \<Rightarrow> nat \<Rightarrow> int \<Rightarrow> bool" where
  "immediate_range c n u =
     (if c = CHR ''I'' then u \<le> 63
      else if c = CHR ''J'' then signed_value n u \<in> {-63..0}
      else if c = CHR ''K'' then u = 2
      else if c = CHR ''L'' then u = 0
      else if c = CHR ''M'' then u \<le> 255
      else if c = CHR ''N'' then signed_value n u = - 1
      else if c = CHR ''O'' then u \<in> {8, 16, 24}
      else if c = CHR ''P'' then u = 1
      else signed_value n u \<in> {-6..5})"

lemma sint_signed_take_bit: "k < 64 \<Longrightarrow> sint (signed_take_bit k (w :: u64)) = signed_value (Suc k) (uint (take_bit (Suc k) w))"
proof -
  assume k: "k < 64"
  have "sint (signed_take_bit k w) = signed_take_bit k (uint w)"
    using k by (intro bit_eqI) (auto simp: bit_simps bit_sint_iff min_def)
  also have "\<dots> = take_bit (Suc k) (uint w) - 2 ^ Suc k * of_bool (bit (uint w) k)"
    by (rule signed_take_bit_eq_take_bit_minus)
  also have "bit (uint w) k = (2 ^ k \<le> take_bit (Suc k) (uint w))"
    using take_bit_Suc_from_most [of k "uint w"] take_bit_int_less_exp [of k "uint w"]
    by (cases "bit (uint w) k") (simp_all only: of_bool_eq take_bit_nonnegative, simp_all add: not_le)
  finally show ?thesis
    by (simp add: signed_value_def unsigned_take_bit_eq)
qed

lemma constant_readings:
  assumes "T \<in> set legal_types"
  shows "sint (getSExtValue v T) = signed_value (getSizeInBits T) (uint (getZExtValue v T))"
    "getTargetConstant (getZExtValue v T) T = Inr (SD_TargetConstant (getZExtValue v T) T)"
    "getTargetConstant (getSExtValue v T) T = Inr (SD_TargetConstant (getZExtValue v T) T)"
    "T = VT_i8 \<Longrightarrow> getTargetConstant (getZExtValue v T) VT_i16 = Inr (SD_TargetConstant (getZExtValue v T) VT_i16)"
proof -
  let ?n = "getSizeInBits T"
  have n: "2 \<le> ?n" "?n \<le> 64" using legal_size [OF assms] by simp_all
  then show "sint (getSExtValue v T) = signed_value (getSizeInBits T) (uint (getZExtValue v T))"
    using sint_signed_take_bit [of "?n - 1" v] by (simp add: getSExtValue_def getZExtValue_def)
  have z: "signed_drop_bit ?n (take_bit ?n v) = 0" if "?n < 64"
    using that by (intro bit_word_eqI) (auto simp: bit_simps)
  then show "getTargetConstant (getZExtValue v T) T = Inr (SD_TargetConstant (getZExtValue v T) T)"
    using n by (cases "?n < 64") (simp_all add: getTargetConstant_def getZExtValue_def)
  have "signed_drop_bit ?n (signed_take_bit (?n - 1) v) = (if bit v (?n - 1) then - 1 else 0)" if "?n < 64"
    using that n by (intro bit_word_eqI) (auto simp: bit_simps min_def)
  then show "getTargetConstant (getSExtValue v T) T = Inr (SD_TargetConstant (getZExtValue v T) T)"
    using n by (cases "?n < 64") (simp_all add: getTargetConstant_def getSExtValue_def getZExtValue_def take_bit_signed_take_bit)
  assume "T = VT_i8"
  moreover have "signed_drop_bit 16 (take_bit 8 v) = 0" by (intro bit_word_eqI) (auto simp: bit_simps)
  ultimately show "getTargetConstant (getZExtValue v T) VT_i16 = Inr (SD_TargetConstant (getZExtValue v T) VT_i16)"
    by (simp add: getTargetConstant_def getZExtValue_def getSizeInBits_def)
qed

text \<open>
  Property C30. A constant of a legal type is accepted for an immediate letter exactly when it
  lies in the range of the letter, and then becomes a target constant of the same bits; 8-bit
  constants of \<open>M\<close> become 16-bit ones so that they are printed without a sign. The weight of
  the constraint agrees: it is the one of a constant exactly for those values.
\<close>

theorem immediate_constraints:
  assumes "c \<in> set ''IJKLMNOPR''" "T \<in> set legal_types"
  shows "let ok = immediate_range c (getSizeInBits T) (uint (getZExtValue v T)) in
     LowerAsmOperandForConstraint (SD_Constant v T) [c] Ops = Inr (Ops @ (if ok
       then [SD_TargetConstant (getZExtValue v T) (if c = CHR ''M'' \<and> T = VT_i8 then VT_i16 else T)] else []))
     \<and> getSingleConstraintMatchWeight (Some (IR_ConstantInt v T)) c = (if ok then CW_Constant else CW_Invalid)"
proof -
  define ok where "ok = immediate_range c (getSizeInBits T) (uint (getZExtValue v T))"
  note r = constant_readings [OF assms(2), of v]
  let ?u = "getZExtValue v T"
  have lit: "?u = word_of_int k \<longleftrightarrow> uint ?u = k" if "0 \<le> k" "k < 2 ^ 64" for k
    using that by (auto simp: word_uint_eq_iff uint_word_of_int)
  have u: "?u = 2 \<longleftrightarrow> uint ?u = 2" "?u = 0 \<longleftrightarrow> uint ?u = 0" "?u = 1 \<longleftrightarrow> uint ?u = 1"
    "?u = 8 \<longleftrightarrow> uint ?u = 8" "?u = 16 \<longleftrightarrow> uint ?u = 16" "?u = 24 \<longleftrightarrow> uint ?u = 24"
    using lit [of 2] lit [of 0] lit [of 1] lit [of 8] lit [of 16] lit [of 24] by simp_all
  have le63: "i < 64 \<longleftrightarrow> i \<le> 63" "i < 256 \<longleftrightarrow> i \<le> 255" for i :: int by linarith+
  have letter: "c = CHR ''I'' \<or> c = CHR ''J'' \<or> c = CHR ''K'' \<or> c = CHR ''L'' \<or> c = CHR ''M'' \<or> c = CHR ''N'' \<or> c = CHR ''O''
      \<or> c = CHR ''P'' \<or> c = CHR ''R''"
    using assms(1) by (simp only: list.set insert_iff empty_iff simp_thms)
  have acc: "accepted_constant c (getSExtValue v T) ?u T
      = (if ok then Some (if c \<in> set ''JNR'' then getSExtValue v T else ?u, if c = CHR ''M'' \<and> T = VT_i8 then VT_i16 else T) else None)"
    using letter by (elim disjE) (simp_all add: accepted_constant_def ok_def immediate_range_def isUInt_iff r(1) u le63)
  have "weight_test c (getSExtValue v T) ?u = ok"
    using letter by (elim disjE) (simp_all add: weight_test_def ok_def immediate_range_def isUInt_iff r(1) u le63)
  then have "getSingleConstraintMatchWeight (Some (IR_ConstantInt v T)) c = (if ok then CW_Constant else CW_Invalid)"
    using letter by (elim disjE) (simp_all add: getSingleConstraintMatchWeight_def)
  moreover have "LowerAsmOperandForConstraint (SD_Constant v T) [c] Ops = Inr (Ops @ (if ok
       then [SD_TargetConstant (getZExtValue v T) (if c = CHR ''M'' \<and> T = VT_i8 then VT_i16 else T)] else []))"
  proof -
    have "LowerAsmOperandForConstraint (SD_Constant v T) [c] Ops = (case accepted_constant c (getSExtValue v T) ?u T of
        None \<Rightarrow> Inr Ops | Some (w, Ty) \<Rightarrow> push_to Ops (getTargetConstant w Ty))"
      using assms(1) by (simp only: LowerAsmOperandForConstraint_def list.case if_True as_constant_def sdvalue.case option.case
          prod.case getValueType_def)
    then show ?thesis
      unfolding acc using letter r(2-4) by (elim disjE) (simp_all add: push_to_def)
  qed
  ultimately show ?thesis by (simp add: ok_def Let_def)
qed

lemma immediate_constraints_witness:
  "LowerAsmOperandForConstraint (SD_Constant 254 VT_i8) ''M'' [] = Inr [SD_TargetConstant 254 VT_i16]
   \<and> getSingleConstraintMatchWeight (Some (IR_ConstantInt 254 VT_i8)) CHR ''R'' = CW_Constant"
  using immediate_constraints [where c = "CHR ''M''" and T = VT_i8 and v = 254 and Ops = "[]"]
    immediate_constraints [where c = "CHR ''R''" and T = VT_i8 and v = 254 and Ops = "[]"]
  by (simp add: legal_types_def immediate_range_def getZExtValue_def getSizeInBits_def signed_value_def take_bit_eq_mod)

section \<open>Registers that are assigned\<close>

text \<open>The failures of the register letters for a value of \<open>n\<close> bits.\<close>

definition register_failure :: "char \<Rightarrow> nat \<Rightarrow> code_error option" where
  "register_failure c n =
     (if c = CHR ''r'' \<and> 16 < n then Some (Assertion ''inline asm constraint too large'')
      else if c \<in> set ''zZ'' \<and> 16 < n then Some (Undefined ''reads past the register class'')
      else if c \<in> set ''yY'' \<and> 16 < n \<or> c \<in> set ''xX'' \<and> 32 < n \<or> c = CHR ''t'' \<and> 48 < n
      then Some (Assertion ''Ran out of registers to allocate!'')
      else None)"

lemma GetRegisters_letter:
  assumes "getRegForInlineAsmConstraint regclasses [c] T = Inr (r, Some RC)" "T \<in> set legal_types"
  shows "GetRegistersForValue regclasses isInput [c] T =
    (let n = getNumRegisters (getSizeInBits T) in
     if r \<noteq> NoRegister then obind (regs_from r RC n) (\<lambda>rs. Inr (Some (List.map PhysReg rs, class_vt RC, T)))
     else Inr (Some (replicate n (VirtReg RC), class_vt RC, T)))"
proof -
  have "\<not> (class_vt RC \<noteq> T \<and> getSizeInBits (class_vt RC) = getSizeInBits T)" "T \<noteq> VT_Other"
    using assms(2) by (auto simp: legal_types_def class_vt_def to_evt_def getSizeInBits_def split: simple_vt.splits)
  then have "(isInput \<and> T \<noteq> VT_Other \<and> class_vt RC \<noteq> T \<and> getSizeInBits (class_vt RC) = getSizeInBits T) = False" "T \<noteq> VT_Other"
    by blast+
  then show ?thesis by (simp only: GetRegistersForValue_def assms(1) Let_def obind_Inr option.case if_False simp_thms prod.case refl if_True)
qed

lemma legal_registers:
  assumes "T \<in> set legal_types"
  obtains "T = VT_i8" "getSizeInBits T = 8" "getNumRegisters (getSizeInBits T) = 1"
  | "T = VT_i16" "getSizeInBits T = 16" "getNumRegisters (getSizeInBits T) = 1"
  | "T = VT_i32" "getSizeInBits T = 32" "getNumRegisters (getSizeInBits T) = 2"
  | "T = VT_i64" "getSizeInBits T = 64" "getNumRegisters (getSizeInBits T) = 4"
  using assms by (auto simp: legal_types_def getSizeInBits_def getNumRegisters_def getRegisterType_def getStoreSize_def)

definition registers_as_expected :: "char \<Rightarrow> evt \<Rightarrow> (asm_reg list \<times> evt \<times> evt) option outcome \<Rightarrow> bool" where
  "registers_as_expected c T res = (case res of
      Inl e \<Rightarrow> register_failure c (getSizeInBits T) = Some e
    | Inr None \<Rightarrow> False
    | Inr (Some (rs, RegVT, ValueVT)) \<Rightarrow> register_failure c (getSizeInBits T) = None \<and> ValueVT = T
        \<and> (getSizeInBits T \<le> length rs * getSizeInBits RegVT \<longleftrightarrow> \<not> (c \<in> set ''ad'' \<and> 8 < getSizeInBits T))
        \<and> list_all (\<lambda>r. getConstraintType [c] = (case r of PhysReg _ \<Rightarrow> C_Register | VirtReg _ \<Rightarrow> C_RegisterClass)) rs)"

lemma class_letters:
  assumes "getRegForInlineAsmConstraint regclasses [c] T = Inr (NoRegister, Some RC)" "T \<in> set legal_types"
    and "getConstraintType [c] = C_RegisterClass" "register_failure c (getSizeInBits T) = None"
    and "c \<in> set ''ad'' \<and> getSizeInBits (class_vt RC) = 8 \<or> c \<notin> set ''ad'' \<and> getSizeInBits (class_vt RC) = 16"
  shows "registers_as_expected c T (GetRegistersForValue regclasses isInput [c] T)"
  unfolding GetRegisters_letter [OF assms(1,2)] registers_as_expected_def
  using assms(2) by (rule legal_registers) (use assms(3-5) in \<open>auto simp: list_all_iff Let_def\<close>)

lemma register_letters:
  assumes "getRegForInlineAsmConstraint regclasses [c] T = Inr (r, Some RC)" "T \<in> set legal_types"
    and "getConstraintType [c] = C_Register" "r \<noteq> NoRegister" "class_vt RC = VT_i16" "c \<notin> set ''ad''"
    and "case regs_from r RC (getNumRegisters (getSizeInBits T)) of
           Inl e \<Rightarrow> register_failure c (getSizeInBits T) = Some e
         | Inr rs \<Rightarrow> register_failure c (getSizeInBits T) = None \<and> length rs = getNumRegisters (getSizeInBits T)"
  shows "registers_as_expected c T (GetRegistersForValue regclasses isInput [c] T)"
  unfolding GetRegisters_letter [OF assms(1,2)] registers_as_expected_def
  using assms(2) by (rule legal_registers)
    (use assms(3-) in \<open>auto simp: list_all_iff Let_def obind_def getSizeInBits_def split: sum.splits\<close>)

lemmas lookup = getRegForInlineAsmConstraint_def getConstraintType_def register_failure_def

lemma class_vt_values [simp]:
  "class_vt MainLoRegs = VT_i8" "class_vt MainRegs = VT_i16" "class_vt IndexRegs = VT_i16" "class_vt StackPointerRegs = VT_i16"
  by (simp_all add: class_vt_def class_type_def to_evt_def)

lemma size_values [simp]: "getSizeInBits VT_i8 = 8" "getSizeInBits VT_i16 = 16"
  by (simp_all add: getSizeInBits_def)

lemma narrow_letters:
  assumes "c = CHR ''a'' \<or> c = CHR ''d''" "T \<in> set legal_types"
  shows "registers_as_expected c T (GetRegistersForValue regclasses isInput [c] T)"
  using assms(1) by (elim disjE; intro class_letters [where RC = MainLoRegs] assms(2)) (simp_all add: lookup)

lemma main_letters:
  assumes "c = CHR ''b'' \<or> c = CHR ''l'' \<or> c = CHR ''w''" "T \<in> set legal_types"
  shows "registers_as_expected c T (GetRegistersForValue regclasses isInput [c] T)"
  using assms(1) by (elim disjE; intro class_letters [where RC = MainRegs] assms(2)) (simp_all add: lookup)

lemma index_letter: "T \<in> set legal_types \<Longrightarrow> registers_as_expected CHR ''e'' T (GetRegistersForValue regclasses isInput ''e'' T)"
  by (intro class_letters [where RC = IndexRegs]) (simp_all add: lookup)

lemma stack_letter: "T \<in> set legal_types \<Longrightarrow> registers_as_expected CHR ''q'' T (GetRegistersForValue regclasses isInput ''q'' T)"
  by (intro class_letters [where RC = StackPointerRegs]) (simp_all add: lookup)

lemma any_letter:
  assumes "T \<in> set legal_types"
  shows "registers_as_expected CHR ''r'' T (GetRegistersForValue regclasses isInput ''r'' T)"
proof (cases "T = VT_i8 \<or> T = VT_i16")
  case True
  then have "getSizeInBits T \<le> 16" by auto
  with True show ?thesis by (intro class_letters [where RC = MainRegs] assms) (auto simp: lookup)
next
  case False
  then have "16 < getSizeInBits T" using assms by (auto simp: legal_types_def getSizeInBits_def)
  moreover have "GetRegistersForValue regclasses isInput ''r'' T = Inl (Assertion ''inline asm constraint too large'')"
    using False by (simp add: GetRegistersForValue_def getRegForInlineAsmConstraint_def asserting_def)
  ultimately show ?thesis by (simp add: registers_as_expected_def register_failure_def)
qed

text \<open>The letters of single registers; \<open>fail\<close> is what the other registers of the class run into.\<close>

lemma single_register:
  assumes "getRegForInlineAsmConstraint regclasses [c] T = Inr (r, Some RC)" "getConstraintType [c] = C_Register" "T \<in> set legal_types"
    and "r \<noteq> NoRegister" "class_vt RC = VT_i16" "c \<notin> set ''ad''"
    and "\<And>n. n \<in> {1, 2, 4} \<Longrightarrow> regs_from r RC n = (case fail n of None \<Rightarrow> Inr (rs n) | Some e \<Rightarrow> Inl e) \<and> length (rs n) = n"
    and "\<And>w. w \<in> {8, 16, 32, 64} \<Longrightarrow> register_failure c w = fail (getNumRegisters w)"
  shows "registers_as_expected c T (GetRegistersForValue regclasses isInput [c] T)"
proof (rule register_letters [OF assms(1,3,2,4-6)])
  let ?w = "getSizeInBits T"
  have "?w \<in> {8, 16, 32, 64} \<and> getNumRegisters ?w \<in> {1, 2, 4}" using assms(3) by (rule legal_registers) simp_all
  then show "case regs_from r RC (getNumRegisters ?w) of Inl e \<Rightarrow> register_failure c ?w = Some e
      | Inr rs \<Rightarrow> register_failure c ?w = None \<and> length rs = getNumRegisters ?w"
    using assms(7) [of "getNumRegisters ?w"] assms(8) [of ?w] by (auto split: option.splits)
qed

lemma numregs_values: "getNumRegisters 8 = Suc 0" "getNumRegisters 16 = Suc 0" "getNumRegisters 32 = 2" "getNumRegisters 64 = 4"
  by (simp_all add: getNumRegisters_def getRegisterType_def getStoreSize_def)

lemma temp_letter: "T \<in> set legal_types \<Longrightarrow> registers_as_expected CHR ''t'' T (GetRegistersForValue regclasses isInput ''t'' T)"
  by (rule single_register [where r = SNES_A and RC = MainRegs and rs = "\<lambda>n. take n [SNES_A, SNES_X, SNES_Y, SNES_Y]"
      and fail = "\<lambda>n. if 3 < n then Some (Assertion ''Ran out of registers to allocate!'') else None"])
    (auto simp: lookup regs_from_def class_members_def asserting_def numregs_values)

lemma x_letters:
  assumes "c = CHR ''x'' \<or> c = CHR ''X''" "T \<in> set legal_types"
  shows "registers_as_expected c T (GetRegistersForValue regclasses isInput [c] T)"
  using assms(1)
  by (elim disjE; intro single_register [where r = SNES_X and RC = IndexRegs and rs = "\<lambda>n. take n [SNES_X, SNES_Y, SNES_Y, SNES_Y]"
      and fail = "\<lambda>n. if 2 < n then Some (Assertion ''Ran out of registers to allocate!'') else None"] assms(2))
    (auto simp: lookup regs_from_def class_members_def asserting_def numregs_values)

lemma y_letters:
  assumes "c = CHR ''y'' \<or> c = CHR ''Y''" "T \<in> set legal_types"
  shows "registers_as_expected c T (GetRegistersForValue regclasses isInput [c] T)"
  using assms(1)
  by (elim disjE; intro single_register [where r = SNES_Y and RC = IndexRegs and rs = "\<lambda>n. replicate n SNES_Y"
      and fail = "\<lambda>n. if 1 < n then Some (Assertion ''Ran out of registers to allocate!'') else None"] assms(2))
    (auto simp: lookup regs_from_def class_members_def asserting_def numregs_values)

lemma z_letters:
  assumes "c = CHR ''z'' \<or> c = CHR ''Z''" "T \<in> set legal_types"
  shows "registers_as_expected c T (GetRegistersForValue regclasses isInput [c] T)"
  using assms(1)
  by (elim disjE; intro single_register [where r = SNES_A and RC = IndexRegs and rs = "\<lambda>n. replicate n SNES_A"
      and fail = "\<lambda>n. if 1 < n then Some (Undefined ''reads past the register class'') else None"] assms(2))
    (auto simp: lookup regs_from_def class_members_def asserting_def numregs_values)

text \<open>
  Property C29. For every letter that stands for registers and every value of 8 to 64 bits,
  \<open>GetRegistersForValue\<close> fails exactly as listed, or assigns registers of the kind that
  \<open>getConstraintType\<close> announces: physical ones for a register, new virtual ones for a class.
  Together they hold the value, except that \<open>a\<close> and \<open>d\<close> stand for 8-bit registers counted as
  16-bit ones, which lose the upper bits.
\<close>

theorem constraint_registers:
  assumes "c \<in> set ''abdleqrwtxXyYzZ''" "T \<in> set legal_types"
  shows "case GetRegistersForValue regclasses isInput [c] T of
      Inl e \<Rightarrow> register_failure c (getSizeInBits T) = Some e
    | Inr None \<Rightarrow> False
    | Inr (Some (rs, RegVT, ValueVT)) \<Rightarrow> register_failure c (getSizeInBits T) = None \<and> ValueVT = T
        \<and> (getSizeInBits T \<le> length rs * getSizeInBits RegVT \<longleftrightarrow> \<not> (c \<in> set ''ad'' \<and> 8 < getSizeInBits T))
        \<and> list_all (\<lambda>r. getConstraintType [c] = (case r of PhysReg _ \<Rightarrow> C_Register | VirtReg _ \<Rightarrow> C_RegisterClass)) rs"
proof -
  have "c = CHR ''a'' \<or> c = CHR ''b'' \<or> c = CHR ''d'' \<or> c = CHR ''l'' \<or> c = CHR ''e'' \<or> c = CHR ''q'' \<or> c = CHR ''r'' \<or> c = CHR ''w''
      \<or> c = CHR ''t'' \<or> c = CHR ''x'' \<or> c = CHR ''X'' \<or> c = CHR ''y'' \<or> c = CHR ''Y'' \<or> c = CHR ''z'' \<or> c = CHR ''Z''"
    using assms(1) by (simp only: list.set insert_iff empty_iff simp_thms)
  then have "registers_as_expected c T (GetRegistersForValue regclasses isInput [c] T)"
    using assms(2) by (elim disjE) (simp_all only: narrow_letters main_letters index_letter stack_letter any_letter temp_letter
        x_letters y_letters z_letters simp_thms)
  then show ?thesis by (simp add: registers_as_expected_def)
qed

lemma constraint_registers_witness:
  "GetRegistersForValue [] True ''x'' VT_i32 = Inr (Some ([PhysReg SNES_X, PhysReg SNES_Y], VT_i16, VT_i32))
   \<and> register_failure CHR ''x'' 32 = None"
  using constraint_registers [where c = "CHR ''x''" and T = VT_i32 and regclasses = "[]" and isInput = True]
  by (simp add: GetRegistersForValue_def getRegForInlineAsmConstraint_def obind_def Let_def class_vt_def class_type_def to_evt_def
    getSizeInBits_def getNumRegisters_def getRegisterType_def getStoreSize_def regs_from_def class_members_def register_failure_def asserting_def
    legal_types_def)

end
