(* ===== verification/Call_Passing.thy ===== *)
theory Call_Passing
  imports Calling_Conv
begin

text \<open>
  Calls from end to end: the chain of a lowered call is executed up to the call, and the
  values of the formal arguments of the called function are read in the state that it leaves.
  The address of a fixed frame object is the one that \<open>eliminateFrameIndex\<close> computes: one
  above its offset from the stack pointer of the caller at the call.
\<close>

section \<open>States of a call\<close>

record call_state =
  cs_machine :: machine
  cs_SP :: u16

definition mem_value :: "simple_vt \<Rightarrow> (u16 \<Rightarrow> u8) \<Rightarrow> u16 \<Rightarrow> int" where
  "mem_value T mem a = (case T of MVT_i8 \<Rightarrow> uint (mem a) | MVT_i16 \<Rightarrow> uint (join (mem (a + 1)) (mem a)))"

definition set_value :: "simple_vt \<Rightarrow> u16 \<Rightarrow> int \<Rightarrow> machine \<Rightarrow> machine" where
  "set_value T a v m = (case T of
     MVT_i8 \<Rightarrow> set_mem a (word_of_int v) m
   | MVT_i16 \<Rightarrow> set_mem (a + 1) (word_of_int (v div 256)) (set_mem a (word_of_int v) m))"

definition reg_value :: "simple_vt \<Rightarrow> machine \<Rightarrow> reg \<Rightarrow> int" where
  "reg_value T m r = (case T of MVT_i8 \<Rightarrow> uint (byte_reg m r) | MVT_i16 \<Rightarrow> uint (reg16 m r))"

definition set_reg :: "simple_vt \<Rightarrow> reg \<Rightarrow> int \<Rightarrow> machine \<Rightarrow> machine" where
  "set_reg T r v m = (case T of
     MVT_i8 \<Rightarrow> set_byte r (word_of_int v) m | MVT_i16 \<Rightarrow> set_reg16 r (word_of_int v) m)"

text \<open>Places relative to the stack pointer at the call.\<close>

definition read_place :: "call_state \<Rightarrow> place \<Rightarrow> int" where
  "read_place st p = (case snd p of
     RegLoc r \<Rightarrow> reg_value (fst p) (cs_machine st) r
   | MemLoc off \<Rightarrow> mem_value (fst p) (memory (cs_machine st)) (cs_SP st + of_nat (off + 1)))"

definition write_place :: "place \<Rightarrow> int \<Rightarrow> call_state \<Rightarrow> call_state" where
  "write_place p v st = st\<lparr>cs_machine := (case snd p of
     RegLoc r \<Rightarrow> set_reg (fst p) r v (cs_machine st)
   | MemLoc off \<Rightarrow> set_value (fst p) (cs_SP st + of_nat (off + 1)) v (cs_machine st))\<rparr>"

section \<open>Executing the chain of a call\<close>

definition simple_type :: "evt \<Rightarrow> simple_vt option" where
  "simple_type T = (if T = VT_i8 then Some MVT_i8 else if T = VT_i16 then Some MVT_i16 else None)"

text \<open>A store addresses the stack pointer plus a constant; other addresses do not occur.\<close>

definition sp_displacement :: "sdvalue \<Rightarrow> u16 option" where
  "sp_displacement p = (case p of
     SD_Node op T ops \<Rightarrow> if op = ISD_ADD
       then (case ops of [SD_Register r _, SD_Constant c _] \<Rightarrow> if r = SNES_SP then Some (ucast c) else None | _ \<Rightarrow> None)
       else None
   | _ \<Rightarrow> None)"

definition chain_step :: "(nat \<Rightarrow> int) \<Rightarrow> chain_node \<Rightarrow> call_state \<Rightarrow> call_state option" where
  "chain_step env n st = (case n of
     CALLSEQ_START b i \<Rightarrow> Some (st\<lparr>cs_SP := cs_SP st - of_nat b\<rparr>)
   | Chain_Store v p \<Rightarrow> Option.bind (simple_type (getValueType v)) (\<lambda>T.
       map_option (\<lambda>d. st\<lparr>cs_machine := set_value T (cs_SP st + d) (eval_sd env v) (cs_machine st)\<rparr>) (sp_displacement p))
   | CopyToReg r v \<Rightarrow> map_option (\<lambda>T. st\<lparr>cs_machine := set_reg T r (eval_sd env v) (cs_machine st)\<rparr>)
       (simple_type (getValueType v))
   | _ \<Rightarrow> None)"

fun to_call :: "(nat \<Rightarrow> int) \<Rightarrow> chain_node list \<Rightarrow> call_state \<Rightarrow> call_state option" where
  "to_call env [] st = None"
| "to_call env (Chain_Node op ops # ns) st = (if op = SNESISD_CALL then Some st else None)"
| "to_call env (n # ns) st = Option.bind (chain_step env n st) (to_call env ns)"

text \<open>The value of a formal argument in the state at the call.\<close>

definition incoming :: "frame_info \<Rightarrow> call_state \<Rightarrow> sdvalue \<Rightarrow> int option" where
  "incoming MFI st v = (case v of
     SD_Node op VT ops \<Rightarrow> (case ops of
         [SD_Register r _] \<Rightarrow> if op = ISD_CopyFromReg
           then map_option (\<lambda>T. reg_value T (cs_machine st) r) (simple_type VT) else None
       | [SD_FrameIndex i _] \<Rightarrow> if op = ISD_LOAD
           then (case getObject MFI i of Inl e \<Rightarrow> None | Inr obj \<Rightarrow>
             map_option (\<lambda>T. mem_value T (memory (cs_machine st)) (cs_SP st + word_of_int (SPOffset obj + 1))) (simple_type VT))
           else None
       | _ \<Rightarrow> None)
   | _ \<Rightarrow> None)"

text \<open>The variable arguments from the object that \<open>va_start\<close> stores the address of.\<close>

definition va_places :: "formal_arguments \<Rightarrow> nat list \<Rightarrow> place list" where
  "va_places fa extra = (case getObject (fa_frame fa) (VarArgsFrameIndex (fa_info fa)) of
     Inl e \<Rightarrow> [] | Inr obj \<Rightarrow> slots (nat (SPOffset obj)) (List.map piece_VT (pieces_of extra)))"

section \<open>Writing and reading places\<close>

named_theorems call_simps \<open>states of a call\<close>

lemma simple_type_simps [call_simps]:
  "simple_type (to_evt T) = Some T" "getSizeInBits (to_evt T) = 8 * getStoreSize T"
  by (cases T; simp add: simple_type_def to_evt_def getSizeInBits_def getStoreSize_def)+

lemma write_place_SP [call_simps]: "cs_SP (write_place p v st) = cs_SP st"
  by (simp add: write_place_def)

lemma of_nat_u16_inj: "a < 65536 \<Longrightarrow> b < 65536 \<Longrightarrow> (of_nat a :: u16) = of_nat b \<longleftrightarrow> a = b"
  by (simp add: word_of_nat_eq_iff take_bit_nat_eq_self)

lemma value_range:
  "simple_type (getValueType v) = Some T \<Longrightarrow> 0 \<le> eval_sd env v \<and> eval_sd env v < 2 ^ (8 * getStoreSize T)"
  by (cases v) (auto simp: getValueType_def simple_type_def getSizeInBits_def getStoreSize_def split: if_splits)

lemma word_halves: "0 \<le> v \<Longrightarrow> v < 65536 \<Longrightarrow> uint (join (word_of_int (v div 256)) (word_of_int v)) = v"
  by (simp add: uint_join uint_word_of_int)

lemma halves_of_word: "join (ucast (drop_bit 8 w)) (ucast w) = (w :: u16)"
  by (rule bit_word_eqI) (auto simp: bit_join bit_ucast_iff bit_drop_bit_eq)

lemma reg_lists [call_simps]:
  "set RegList8 = {SNES_AL, SNES_XL, SNES_YL}" "set RegList16 = {SNES_A, SNES_X, SNES_Y}"
  by (auto simp: RegList8_def RegList16_def)

lemma reg_value_set_reg:
  "fits n (T, RegLoc r) \<Longrightarrow> 0 \<le> v \<Longrightarrow> v < 2 ^ (8 * getStoreSize T) \<Longrightarrow> reg_value T (set_reg T r v m) r = v"
  by (cases T) (auto simp: reg_value_def set_reg_def call_simps set_byte_def set_reg16_def reg16_def
      getSubReg_lo_def getSubReg_hi_def getStoreSize_def uint_word_of_int halves_of_word)

lemma reg_value_set_apart:
  "fits n (T, RegLoc r) \<Longrightarrow> fits n (T', RegLoc r') \<Longrightarrow> apart (T, RegLoc r) (T', RegLoc r') \<Longrightarrow>
   reg_value T' (set_reg T r v m) r' = reg_value T' m r'"
  by (cases T; cases T') (auto simp: reg_value_def set_reg_def call_simps set_byte_def set_reg16_def reg16_def
      getSubReg_lo_def getSubReg_hi_def aliases_def)

lemma memory_set_reg [call_simps]: "memory (set_reg T r v m) = memory m"
  by (cases T) (simp_all add: set_reg_def set_byte_def set_reg16_def)

lemma reg_value_set_value [call_simps]: "reg_value T' (set_value T a v m) r = reg_value T' m r"
  by (cases T; cases T') (simp_all add: set_value_def set_mem_def reg_value_def reg16_def)

lemma read_write_same:
  assumes "fits n p" "0 \<le> v" "v < 2 ^ (8 * getStoreSize (fst p))"
  shows "read_place (write_place p v st) p = v"
proof (cases p rule: place_end.cases)
  case (1 T r)
  then show ?thesis using assms reg_value_set_reg [of n T r v] by (simp add: read_place_def write_place_def)
next
  case (2 T off)
  then show ?thesis using assms(2,3)
    by (cases T) (simp_all add: read_place_def write_place_def mem_value_def set_value_def set_mem_def
        getStoreSize_def uint_word_of_int word_halves)
qed

lemma mem_value_set_apart:
  assumes "o1 + getStoreSize T \<le> o2 \<or> o2 + getStoreSize T' \<le> o1"
    and "o1 + getStoreSize T \<le> 65536" "o2 + getStoreSize T' \<le> 65536"
  shows "mem_value T' (memory (set_value T (sp + of_nat o1) v m)) (sp + of_nat o2)
    = mem_value T' (memory m) (sp + of_nat o2)"
proof -
  have s: "sp + of_nat a + 1 = sp + (of_nat (Suc a) :: u16)" for a by simp
  show ?thesis
    using assms
    by (cases T; cases T') (simp_all only: mem_value_def set_value_def set_mem_def getStoreSize_def simple_vt.case
        s fun_upd_apply machine.simps, (auto simp: of_nat_u16_inj simp del: of_nat_Suc))
qed

lemma read_write_apart:
  assumes "fits n p" "fits n q" "n \<le> 65536" "apart p q"
  shows "read_place (write_place p v st) q = read_place st q"
proof -
  have sp: "cs_SP st + (1 + of_nat off) = (cs_SP st + 1) + of_nat off" for off by simp
  show ?thesis
  proof (cases "(p, q)" rule: apart.cases)
    case (1 T r T' r')
    then show ?thesis using assms reg_value_set_apart [of n T r T' r'] by (simp add: read_place_def write_place_def)
  next
    case (2 T o1 T' o2)
    then show ?thesis using assms mem_value_set_apart [of o1 T o2 T' "cs_SP st + 1"]
      by (auto simp add: read_place_def write_place_def sp simp del: add.assoc)
  qed (simp_all add: read_place_def write_place_def call_simps)
qed

definition write_all :: "(place \<times> int) list \<Rightarrow> call_state \<Rightarrow> call_state" where
  "write_all = fold (\<lambda>(p, v). write_place p v)"

text \<open>
  What the order of the stores of a call rests on: storage whose cells are read back as they
  were written, and of which writing one leaves those apart from it alone.
\<close>

locale storage =
  fixes rd :: "'s \<Rightarrow> 'p \<Rightarrow> 'v" and wr :: "'p \<Rightarrow> 'v \<Rightarrow> 's \<Rightarrow> 's"
    and cell :: "'p \<Rightarrow> bool" and holds :: "'p \<Rightarrow> 'v \<Rightarrow> bool" and sep :: "'p \<Rightarrow> 'p \<Rightarrow> bool"
  assumes read_same: "cell p \<Longrightarrow> holds p v \<Longrightarrow> rd (wr p v s) p = v"
    and read_sep: "cell p \<Longrightarrow> cell q \<Longrightarrow> sep p q \<Longrightarrow> rd (wr p v s) q = rd s q"
    and sep_sym: "sep p q \<Longrightarrow> sep q p"
begin

lemma read_after_writes:
  "list_all cell (map fst xs) \<Longrightarrow> cell q \<Longrightarrow> list_all (\<lambda>p. sep p q) (map fst xs) \<Longrightarrow>
   rd (fold (\<lambda>(p, v). wr p v) xs s) q = rd s q"
  by (induction xs arbitrary: s) (auto simp: read_sep)

lemma read_back:
  "list_all cell (map fst xs) \<Longrightarrow> sorted_wrt sep (map fst xs) \<Longrightarrow> \<forall>(p, v) \<in> set xs. holds p v \<Longrightarrow>
   map (rd (fold (\<lambda>(p, v). wr p v) xs s)) (map fst xs) = map snd xs"
proof (induction xs arbitrary: s)
  case Nil
  then show ?case by simp
next
  case (Cons x xs)
  obtain p v where x: "x = (p, v)" by (cases x)
  have "list_all (\<lambda>q. sep q p) (map fst xs)" using Cons.prems(2) sep_sym by (auto simp: x list_all_iff)
  then have "rd (fold (\<lambda>(p, v). wr p v) xs (wr p v s)) p = v"
    using Cons.prems read_after_writes [of xs p "wr p v s"] read_same [of p v s] by (simp add: x)
  with Cons show ?case by (simp add: x)
qed

end

interpretation argument_storage: storage read_place write_place "\<lambda>p. n \<le> 65536 \<and> fits n p"
  "\<lambda>p v. 0 \<le> v \<and> v < 2 ^ (8 * getStoreSize (fst p))" apart for n
  by unfold_locales (auto simp: apart_sym intro: read_write_same read_write_apart)

section \<open>The chain of a lowered call\<close>

definition place_reg :: "place \<Rightarrow> reg" where
  "place_reg p = (case snd p of RegLoc r \<Rightarrow> r | MemLoc off \<Rightarrow> NoRegister)"

definition place_store :: "place \<Rightarrow> sdvalue \<Rightarrow> chain_node" where
  "place_store p v = Chain_Store v (SD_Node ISD_ADD VT_i16 [SD_Register SNES_SP VT_i16,
     SD_Constant (of_nat ((case snd p of RegLoc r \<Rightarrow> 0 | MemLoc off \<Rightarrow> off) + 1)) VT_i16])"

lemma shape_fields:
  assumes "loc_shape VA = place_loc p"
  shows "Loc VA = snd p" "HTP VA = Full" "LocVT VA = fst p" "ValVT VA = fst p"
  using assms by (simp_all add: loc_shape_def place_loc_def)

lemma regs_to_pass_places:
  "map loc_shape L = map place_loc (R @ M) \<Longrightarrow> list_all in_reg R \<Longrightarrow> list_all (\<lambda>p. \<not> in_reg p) M \<Longrightarrow>
   length Args = length L \<Longrightarrow>
   regs_to_pass L Args = Inr (map (\<lambda>(p, v). (place_reg p, v)) (zip R Args))"
proof (induction R arbitrary: L Args)
  case Nil
  show ?case
  proof (cases L)
    case (Cons VA L')
    with Nil.prems obtain p M' v Args' where L: "M = p # M'" "loc_shape VA = place_loc p" "Args = v # Args'"
      by (cases M; cases Args) auto
    with Nil.prems Cons shape_fields [OF L(2)] show ?thesis
      by (auto simp: outgoing_value_def in_reg_def Let_def split: location.splits)
  qed simp
next
  case (Cons p R)
  then obtain VA L' v Args' where L: "L = VA # L'" "Args = v # Args'" "loc_shape VA = place_loc p"
    "map loc_shape L' = map place_loc (R @ M)" "length Args' = length L'"
    by (cases L; cases Args) auto
  with Cons shape_fields [OF L(3)] show ?case
    by (auto simp: outgoing_value_def in_reg_def place_reg_def Let_def split: location.splits)
qed

lemma stack_stores_places:
  "map loc_shape L = map place_loc M \<Longrightarrow> list_all (\<lambda>p. \<not> in_reg p) M \<Longrightarrow> length Args = length L \<Longrightarrow>
   stack_stores L Args = Inr (rev (map (\<lambda>(p, v). place_store p v) (zip M Args)))"
proof (induction M arbitrary: L Args)
  case Nil
  then show ?case by simp
next
  case (Cons p M)
  then obtain VA L' v Args' where L: "L = VA # L'" "Args = v # Args'" "loc_shape VA = place_loc p"
    "map loc_shape L' = map place_loc M" "length Args' = length L'"
    by (cases L; cases Args) auto
  with Cons shape_fields [OF L(3)] show ?case
    by (auto simp: stack_store_def place_store_def in_reg_def split: location.splits)
qed

definition prefers :: "(nat \<Rightarrow> int) \<Rightarrow> (place \<times> sdvalue) list \<Rightarrow> (place \<times> int) list" where
  "prefers env = map (\<lambda>(p, v). (p, eval_sd env v))"

lemma ucast_of_nat_u16: "(ucast (of_nat n :: u64) :: u16) = of_nat n"
  by (simp add: unsigned_of_nat word_of_nat_eq_iff)

lemma to_call_stores:
  "list_all (\<lambda>(p, v). \<not> in_reg p \<and> simple_type (getValueType v) = Some (fst p)) xs \<Longrightarrow>
   to_call env (map (\<lambda>(p, v). place_store p v) xs @ ns) st = to_call env ns (write_all (prefers env xs) st)"
proof (induction xs arbitrary: st)
  case Nil
  then show ?case by (simp add: write_all_def prefers_def)
next
  case (Cons x xs)
  obtain p v where x: "x = (p, v)" by (cases x)
  have "chain_step env (place_store p v) st = Some (write_place p (eval_sd env v) st)"
    using Cons.prems ucast_of_nat_u16 [of "case snd p of RegLoc r \<Rightarrow> 0 | MemLoc off \<Rightarrow> off + 1"]
    by (auto simp: x place_store_def chain_step_def sp_displacement_def write_place_def in_reg_def
        split: location.splits)
  with Cons show ?case by (simp add: x place_store_def write_all_def prefers_def)
qed

lemma to_call_copies:
  "list_all (\<lambda>(p, v). in_reg p \<and> simple_type (getValueType v) = Some (fst p)) xs \<Longrightarrow>
   to_call env (map (\<lambda>(r, v). CopyToReg r v) (map (\<lambda>(p, v). (place_reg p, v)) xs) @ ns) st
     = to_call env ns (write_all (prefers env xs) st)"
proof (induction xs arbitrary: st)
  case Nil
  then show ?case by (simp add: write_all_def prefers_def)
next
  case (Cons x xs)
  obtain p v where x: "x = (p, v)" by (cases x)
  have "chain_step env (CopyToReg (place_reg p) v) st = Some (write_place p (eval_sd env v) st)"
    using Cons.prems by (auto simp: x place_reg_def chain_step_def write_place_def in_reg_def split: location.splits)
  with Cons show ?case by (simp add: x write_all_def prefers_def)
qed

section \<open>The formal arguments\<close>

definition with_fixed :: "frame_object list \<Rightarrow> frame_info \<Rightarrow> frame_info" where
  "with_fixed objs MFI = MFI\<lparr>FrameObjects := objs @ FrameObjects MFI, NumFixedObjects := length objs + NumFixedObjects MFI\<rparr>"

lemma with_fixed_simps [call_simps]:
  "with_fixed [] MFI = MFI" "with_fixed xs (with_fixed ys MFI) = with_fixed (xs @ ys) MFI"
  by (simp_all add: with_fixed_def)

lemma CreateFixedObject_simps [call_simps]:
  "n \<noteq> 0 \<Longrightarrow> CreateFixedObject n off MFI
     = Inr (- int (Suc (NumFixedObjects MFI)), with_fixed [\<lparr>SPOffset = off, ObjectSize = n\<rparr>] MFI)"
  by (simp add: CreateFixedObject_def with_fixed_def)

text \<open>Creating more objects does not change what an index names.\<close>

lemma getObject_created:
  "ObjectSize obj \<noteq> 2 ^ 64 - 1 \<Longrightarrow>
   getObject (with_fixed xs (with_fixed [obj] MFI)) (- int (Suc (NumFixedObjects MFI))) = Inr obj"
  by (simp add: getObject_def with_fixed_def Let_def)

lemma incoming_created:
  assumes "simple_type VT = Some T" "getStoreSize T = n"
  shows "incoming (with_fixed xs (with_fixed [\<lparr>SPOffset = int off, ObjectSize = n\<rparr>] MFI)) st
      (SD_Node ISD_LOAD VT [SD_FrameIndex (- int (Suc (NumFixedObjects MFI))) VT_i16])
    = Some (read_place st (T, MemLoc off))"
proof -
  have "ObjectSize \<lparr>SPOffset = int off, ObjectSize = n\<rparr> \<noteq> 2 ^ 64 - 1"
    using assms(2) by (cases T) (auto simp: getStoreSize_def)
  from getObject_created [OF this, of xs MFI] assms(1) show ?thesis
    by (simp add: incoming_def read_place_def add.commute)
qed

lemma formal_values_places:
  "map loc_shape L = map place_loc P \<Longrightarrow>
   \<exists>vs live objs. formal_values L MFI = Inr (vs, live, with_fixed objs MFI)
     \<and> (\<forall>xs. map (incoming (with_fixed (xs @ objs) MFI) st) vs = map (\<lambda>p. Some (read_place st p)) P)"
proof (induction L arbitrary: P MFI)
  case Nil
  then show ?case by (auto simp: call_simps intro!: exI [of _ "[]"])
next
  case (Cons VA L)
  then obtain p P' where P: "P = p # P'" "loc_shape VA = place_loc p" "map loc_shape L = map place_loc P'"
    by (cases P) auto
  note f = shape_fields [OF P(2)]
  show ?case
  proof (cases "snd p")
    case (RegLoc r)
    obtain vs live objs where IH: "formal_values L MFI = Inr (vs, live, with_fixed objs MFI)"
      "\<forall>xs. map (incoming (with_fixed (xs @ objs) MFI) st) vs = map (\<lambda>p. Some (read_place st p)) P'"
      using Cons.IH [OF P(3), of MFI] by blast
    have "incoming F st (copy_from_reg r (fst p)) = Some (read_place st p)" for F
      by (simp add: incoming_def copy_from_reg_def read_place_def RegLoc call_simps)
    with IH f RegLoc show ?thesis
      by (intro exI [of _ "copy_from_reg r (fst p) # vs"] exI [of _ "r # live"] exI [of _ objs])
        (simp add: P(1) incoming_value_def Let_def)
  next
    case (MemLoc off)
    let ?o = "\<lparr>SPOffset = int off, ObjectSize = getStoreSize (fst p)\<rparr>"
    obtain vs live objs where IH: "formal_values L (with_fixed [?o] MFI) = Inr (vs, live, with_fixed (objs @ [?o]) MFI)"
      "\<forall>xs. map (incoming (with_fixed (xs @ objs @ [?o]) MFI) st) vs = map (\<lambda>p. Some (read_place st p)) P'"
      using Cons.IH [OF P(3), of "with_fixed [?o] MFI"] by (auto simp: call_simps)
    have "incoming (with_fixed (xs @ objs @ [?o]) MFI) st
        (SD_Node ISD_LOAD (to_evt (fst p)) [SD_FrameIndex (- int (Suc (NumFixedObjects MFI))) VT_i16])
      = Some (read_place st p)" for xs
      using incoming_created [of "to_evt (fst p)" "fst p" _ "xs @ objs" off MFI st] MemLoc
      by (simp add: call_simps) (metis prod.collapse)
    with IH f MemLoc show ?thesis
      by (intro exI [of _ "SD_Node ISD_LOAD (to_evt (fst p)) [SD_FrameIndex (- int (Suc (NumFixedObjects MFI))) VT_i16] # vs"]
          exI [of _ live] exI [of _ "objs @ [?o]"])
        (simp add: P(1) call_simps)
  qed
qed

section \<open>Calls\<close>

lemma LowerCallResult_one:
  assumes "length Ins \<le> 1"
  shows "\<exists>copies vs. LowerCallResult CallConv Ins = Inr (copies, vs)"
proof (cases Ins)
  case Nil
  then show ?thesis by (simp add: LowerCallResult_def initial_cc_state_def)
next
  case (Cons T Ts)
  with assms have "Ins = [T]" by simp
  then show ?thesis
    by (cases T) (simp_all add: LowerCallResult_def CCAssignFnForReturn_def RetCC_SNES_def CCAssignToReg_def
        AllocateReg_def isAllocated_def initial_cc_state_def addLoc_def MarkAllocated_def getReg_loc_def result_copy_def)
qed

text \<open>The order in which a call fills the places does not matter.\<close>

lemma write_all_places:
  assumes "sorted_wrt apart (R @ M)" "list_all (fits n) (R @ M)" "n \<le> 65536"
    and "map getValueType vals = map (\<lambda>p. to_evt (fst p)) (R @ M)"
  shows "map (read_place (write_all (prefers env (rev (zip M (drop (length R) vals)) @ zip R vals)) st)) (R @ M)
    = map (eval_sd env) vals"
proof -
  let ?X = "rev (zip M (drop (length R) vals)) @ zip R vals"
  let ?st = "write_all (prefers env ?X) st"
  have len: "length vals = length R + length M" using arg_cong [OF assms(4), of length] by simp
  have sp: "set ?X = set (zip (R @ M) vals)"
    using zip_append1 [of R "[]" vals] by (simp add: zip_append1 Un_commute)
  have fX: "map fst (prefers env ?X) = rev M @ R"
    using len by (simp add: prefers_def comp_def case_prod_beta rev_map [symmetric] map_fst_zip_take)
  have "\<forall>i < length vals. getValueType (vals ! i) = to_evt (fst ((R @ M) ! i))"
    using assms(4) len by (metis length_append length_map nth_map)
  then have ty: "simple_type (getValueType v) = Some (fst p)" if "(p, v) \<in> set ?X" for p v
    using that len by (auto simp only: sp in_set_zip call_simps) (auto simp: call_simps)
  have "sorted_wrt apart (rev M @ R)"
    using assms(1) unfolding sorted_wrt_append sorted_wrt_rev
    by (metis (no_types, lifting) apart_sym set_rev sorted_wrt_mono_rel)
  moreover have "list_all (fits n) (rev M @ R)" using assms(2) by (auto simp: list_all_iff)
  moreover have "\<forall>(p, v) \<in> set (prefers env ?X). 0 \<le> v \<and> v < 2 ^ (8 * getStoreSize (fst p))"
  proof -
    have "0 \<le> eval_sd env v \<and> eval_sd env v < 2 ^ (8 * getStoreSize (fst p))" if "(p, v) \<in> set ?X" for p v
      using value_range [OF ty [OF that]] .
    then show ?thesis by (force simp: prefers_def)
  qed
  ultimately have "map (read_place ?st) (map fst (prefers env ?X)) = map snd (prefers env ?X)"
    using argument_storage.read_back [of n "prefers env ?X" st] assms(3) unfolding fX write_all_def by (simp add: list_all_iff)
  then have "\<forall>(p, v) \<in> set ?X. read_place ?st p = eval_sd env v"
    by (auto simp: prefers_def case_prod_beta)
  then have rd: "\<forall>(p, v) \<in> set (zip (R @ M) vals). read_place ?st p = eval_sd env v"
    by (simp only: sp)
  have "read_place ?st ((R @ M) ! i) = eval_sd env (vals ! i)" if "i < length (R @ M)" for i
  proof -
    have "((R @ M) ! i, vals ! i) \<in> set (zip (R @ M) vals)"
      using that len by (subst in_set_zip) auto
    with rd show ?thesis by blast
  qed
  with len show ?thesis
    by (intro nth_equalityI) (simp_all del: map_append)
qed

lemma list_all_zip:
  "(\<And>i. i < length xs \<Longrightarrow> i < length ys \<Longrightarrow> P (xs ! i) (ys ! i)) \<Longrightarrow> list_all (\<lambda>(p, v). P p v) (zip xs ys)"
  by (simp add: list_all_length)

lemma call_fills_places:
  assumes "\<forall>w \<in> set ws. 0 < w" "ci_Outs CLI = pieces_of ws" "arg_bytes (ci_IsVarArg CLI) ws \<le> 65536"
    and "map getValueType (ci_OutVals CLI) = map (to_evt \<circ> piece_VT) (ci_Outs CLI)"
    and "target_callee (ci_Callee CLI) = Inr Callee" "length (ci_Ins CLI) \<le> 1"
  shows "\<exists>lc st. LowerCall CLI = Some (Inr lc) \<and> to_call env (lc_chain lc) s = Some st
    \<and> map (read_place st) (arg_places (ci_IsVarArg CLI) ws) = map (eval_sd env) (ci_OutVals CLI)"
proof -
  let ?vals = "ci_OutVals CLI"
  obtain S where S: "analyzeArguments [] (pieces_of ws) (ci_CallConv CLI) True (ci_IsVarArg CLI) = Some (Inr S)"
    "map loc_shape (Locs S) = map place_loc (arg_places (ci_IsVarArg CLI) ws)"
    "StackOffset S = arg_bytes (ci_IsVarArg CLI) ws"
    using analyze_places [OF assms(1), of "[]" "ci_CallConv CLI" "ci_IsVarArg CLI"] by blast
  obtain R M where P: "arg_places (ci_IsVarArg CLI) ws = R @ M" "list_all in_reg R" "list_all (\<lambda>p. \<not> in_reg p) M"
    using arg_places_regs_first [of "ci_IsVarArg CLI" ws] by (auto simp: list_all_iff)
  have vt: "map getValueType ?vals = map (\<lambda>p. to_evt (fst p)) (R @ M)"
    using arg_cong [OF arg_places_types [of "ci_IsVarArg CLI" ws], of "map to_evt"] assms(4)
    by (simp add: assms(2) P(1) comp_def)
  have lv: "length ?vals = length R + length M" using arg_cong [OF vt, of length] by simp
  have ll: "length (Locs S) = length R + length M" using arg_cong [OF S(2), of length] by (simp add: P(1))
  define regs where "regs = map (\<lambda>(p, v). (place_reg p, v)) (zip R ?vals)"
  have r: "regs_to_pass (Locs S) ?vals = Inr regs"
    using regs_to_pass_places [OF S(2) [unfolded P(1)] P(2,3)] lv ll by (simp add: regs_def)
  have lr: "length regs = length R" using lv by (simp add: regs_def)
  have m: "map loc_shape (drop (length R) (Locs S)) = map place_loc M"
    using arg_cong [OF S(2), of "drop (length R)"] by (simp add: P(1) drop_map)
  have st: "stack_stores (drop (length R) (Locs S)) (drop (length R) ?vals)
      = Inr (rev (map (\<lambda>(p, v). place_store p v) (zip M (drop (length R) ?vals))))"
    using stack_stores_places [OF m P(3)] lv ll by simp
  obtain copies ivs where res: "LowerCallResult (ci_CallConv CLI) (ci_Ins CLI) = Inr (copies, ivs)"
    using LowerCallResult_one [OF assms(6)] by blast
  obtain lc ops where lc: "LowerCall CLI = Some (Inr lc)"
    "lc_chain lc = [CALLSEQ_START (StackOffset S) 0]
       @ map (\<lambda>(p, v). place_store p v) (rev (zip M (drop (length R) ?vals)))
       @ map (\<lambda>(r, v). CopyToReg r v) regs @ [Chain_Node SNESISD_CALL ops, CALLSEQ_END (StackOffset S) 0] @ copies"
    by (simp add: LowerCall_def assms(2,5) S(1) r lr st res Let_def rev_map)
  let ?s = "s\<lparr>cs_SP := cs_SP s - of_nat (StackOffset S)\<rparr>"
  let ?X = "rev (zip M (drop (length R) ?vals)) @ zip R ?vals"
  have ti: "simple_type (getValueType (?vals ! i)) = Some (fst ((R @ M) ! i))" if "i < length ?vals" for i
    using that arg_cong [OF vt, of "\<lambda>xs. xs ! i"] lv by (auto simp: call_simps nth_append)
  have "list_all (\<lambda>(p, v). \<not> in_reg p \<and> simple_type (getValueType v) = Some (fst p)) (rev (zip M (drop (length R) ?vals)))"
  proof -
    have "simple_type (getValueType (?vals ! (length R + i))) = Some (fst (M ! i))" if "i < length M" for i
      using ti [of "length R + i"] that lv by (simp add: nth_append)
    with P(3) lv show ?thesis
      by (simp only: list_all_rev) (intro list_all_zip, simp add: list_all_length)
  qed
  moreover have "list_all (\<lambda>(p, v). in_reg p \<and> simple_type (getValueType v) = Some (fst p)) (zip R ?vals)"
  proof -
    have "simple_type (getValueType (?vals ! i)) = Some (fst (R ! i))" if "i < length R" for i
      using ti [of i] that lv by (simp add: nth_append)
    with P(2) lv show ?thesis by (intro list_all_zip) (simp add: list_all_length)
  qed
  ultimately have "to_call env (lc_chain lc) s = Some (write_all (prefers env ?X) ?s)"
    by (simp add: lc(2) chain_step_def to_call_stores to_call_copies regs_def del: map_map)
      (simp add: write_all_def prefers_def)
  moreover have "map (read_place (write_all (prefers env ?X) ?s)) (R @ M) = map (eval_sd env) ?vals"
    using arg_places_apart [of "ci_IsVarArg CLI" ws] assms(3) vt
    by (intro write_all_places [of _ _ "arg_bytes (ci_IsVarArg CLI) ws"]) (auto simp: P(1) list_all_iff)
  ultimately show ?thesis using lc(1) P(1) by auto
qed

section \<open>Calls and called functions\<close>

lemma formal_arguments_read:
  assumes "\<forall>w \<in> set ws. 0 < w"
  shows "\<exists>fa. LowerFormalArguments CallConv isVarArg ws (pieces_of ws) MFI FI = Some (Inr fa)
    \<and> map (incoming (fa_frame fa) st) (fa_InVals fa) = map (\<lambda>p. Some (read_place st p)) (arg_places isVarArg ws)
    \<and> (isVarArg \<longrightarrow> va_places fa extra = slots (2 * length (pieces_of ws)) (map piece_VT (pieces_of extra)))"
proof -
  obtain S where S: "analyzeArguments ws (pieces_of ws) CallConv False isVarArg = Some (Inr S)"
    "map loc_shape (Locs S) = map place_loc (arg_places isVarArg ws)" "StackOffset S = arg_bytes isVarArg ws"
    using analyze_places [OF assms] by blast
  obtain vs live objs where fv: "formal_values (Locs S) MFI = Inr (vs, live, with_fixed objs MFI)"
    "\<forall>xs. map (incoming (with_fixed (xs @ objs) MFI) st) vs = map (\<lambda>p. Some (read_place st p)) (arg_places isVarArg ws)"
    using formal_values_places [OF S(2), of MFI st] by blast
  show ?thesis
  proof (cases isVarArg)
    case True
    let ?o = "\<lparr>SPOffset = int (StackOffset S), ObjectSize = 2\<rparr>"
    let ?i = "- 1 - int (length objs + NumFixedObjects MFI)"
    let ?fa = "\<lparr>fa_InVals = vs, fa_LiveIns = live, fa_frame = with_fixed (?o # objs) MFI,
      fa_info = FI\<lparr>VarArgsFrameIndex := ?i\<rparr>\<rparr>"
    have c: "CreateFixedObject 2 (int (StackOffset S)) (with_fixed objs MFI) = Inr (?i, with_fixed (?o # objs) MFI)"
      by (simp add: CreateFixedObject_def with_fixed_def)
    have "LowerFormalArguments CallConv isVarArg ws (pieces_of ws) MFI FI = Some (Inr ?fa)"
      using True S(1) by (simp add: LowerFormalArguments_def fv(1) c)
    moreover have "map (incoming (fa_frame ?fa) st) (fa_InVals ?fa) = map (\<lambda>p. Some (read_place st p)) (arg_places isVarArg ws)"
      using fv(2) [rule_format, of "[?o]"] by simp
    moreover have "getObject (with_fixed (?o # objs) MFI) ?i = Inr ?o"
      by (simp add: getObject_def with_fixed_def)
    then have "va_places ?fa extra = slots (2 * length (pieces_of ws)) (map piece_VT (pieces_of extra))"
      using True S(3) nat_int [of "2 * length (pieces_of ws)"] by (simp add: va_places_def arg_bytes_def del: nat_int)
    ultimately show ?thesis by blast
  next
    case False
    then have "LowerFormalArguments CallConv isVarArg ws (pieces_of ws) MFI FI = Some (Inr
        \<lparr>fa_InVals = vs, fa_LiveIns = live, fa_frame = with_fixed objs MFI, fa_info = FI\<rparr>)"
      using S(1) by (simp add: LowerFormalArguments_def fv(1))
    with False fv(2) [rule_format, of "[]"] show ?thesis by auto
  qed
qed

lemma slots_append: "slots off (Ts @ Us) = slots off Ts @ slots (off + 2 * length Ts) Us"
  by (induction Ts arbitrary: off) (auto simp: algebra_simps)

text \<open>
  Property C9. A lowered call, executed up to the call, leaves every argument where the
  lowered function reads it: the values of the formal arguments are the values of the
  arguments of the call, in order, and in a variadic function the further arguments lie in
  order from the object whose address \<open>va_start\<close> stores.
\<close>

theorem call_passes_arguments:
  assumes "\<forall>w \<in> set (ws @ extra). 0 < w" "ci_IsVarArg CLI \<or> extra = []"
    and "ci_Outs CLI = pieces_of (ws @ extra)" "arg_bytes (ci_IsVarArg CLI) (ws @ extra) \<le> 65536"
    and "map getValueType (ci_OutVals CLI) = map (to_evt \<circ> piece_VT) (ci_Outs CLI)"
    and "target_callee (ci_Callee CLI) = Inr Callee" "length (ci_Ins CLI) \<le> 1"
  shows "\<exists>lc st fa. LowerCall CLI = Some (Inr lc) \<and> to_call env (lc_chain lc) s = Some st
    \<and> LowerFormalArguments (ci_CallConv CLI) (ci_IsVarArg CLI) ws (pieces_of ws) MFI FI = Some (Inr fa)
    \<and> map (incoming (fa_frame fa) st) (fa_InVals fa)
        @ (if ci_IsVarArg CLI then map (\<lambda>p. Some (read_place st p)) (va_places fa extra) else [])
      = map (\<lambda>v. Some (eval_sd env v)) (ci_OutVals CLI)"
proof -
  have w: "\<forall>w \<in> set ws. 0 < w" using assms(1) by simp
  obtain lc st where c: "LowerCall CLI = Some (Inr lc)" "to_call env (lc_chain lc) s = Some st"
    "map (read_place st) (arg_places (ci_IsVarArg CLI) (ws @ extra)) = map (eval_sd env) (ci_OutVals CLI)"
    using call_fills_places [OF assms(1,3,4,5,6,7), of env s] by blast
  obtain fa where f: "LowerFormalArguments (ci_CallConv CLI) (ci_IsVarArg CLI) ws (pieces_of ws) MFI FI = Some (Inr fa)"
    "map (incoming (fa_frame fa) st) (fa_InVals fa) = map (\<lambda>p. Some (read_place st p)) (arg_places (ci_IsVarArg CLI) ws)"
    "ci_IsVarArg CLI \<longrightarrow> va_places fa extra = slots (2 * length (pieces_of ws)) (map piece_VT (pieces_of extra))"
    using formal_arguments_read [OF w] by blast
  have "arg_places (ci_IsVarArg CLI) (ws @ extra)
      = arg_places (ci_IsVarArg CLI) ws @ (if ci_IsVarArg CLI then va_places fa extra else [])"
    using assms(2) f(3) by (auto simp: arg_places_def pieces_of_def slots_append)
  then have "map (\<lambda>v. Some (eval_sd env v)) (ci_OutVals CLI) = map (\<lambda>p. Some (read_place st p)) (arg_places (ci_IsVarArg CLI) ws)
      @ map (\<lambda>p. Some (read_place st p)) (if ci_IsVarArg CLI then va_places fa extra else [])"
    using arg_cong [OF c(3), of "map Some"] by (simp add: comp_def)
  with c(1,2) f(1,2) show ?thesis by (intro exI conjI) (assumption | simp split: if_splits)+
qed

lemma call_passes_arguments_witness:
  "\<exists>lc st fa. LowerCall \<lparr>ci_Callee = SD_ExternalSymbol ''f'', ci_CallConv = 0, ci_IsVarArg = False, ci_IsTailCall = False,
      ci_Outs = pieces_of [8, 32, 16], ci_OutVals = [SD_Value 0 VT_i8, SD_Value 1 VT_i16, SD_Value 2 VT_i16, SD_Constant 513 VT_i16],
      ci_Ins = [MVT_i16]\<rparr> = Some (Inr lc)
    \<and> to_call (\<lambda>k. int k + 300) (lc_chain lc) \<lparr>cs_machine = \<lparr>byte_reg = \<lambda>_. 0,
        status = \<lparr>C_flag = False, Z_flag = False, N_flag = False, V_flag = False\<rparr>, memory = \<lambda>_. 0, port = \<lambda>_. 0\<rparr>, cs_SP = 0x1ff0\<rparr> = Some st
    \<and> LowerFormalArguments 0 False [8, 32, 16] (pieces_of [8, 32, 16])
        \<lparr>NumFixedObjects = 0, FrameObjects = [], StackSize = 0, HasVarSizedObjects = False\<rparr> initial_function_info = Some (Inr fa)
    \<and> map (incoming (fa_frame fa) st) (fa_InVals fa) = [Some 44, Some 301, Some 302, Some 513]"
  (is "\<exists>lc st fa. LowerCall ?C = _ \<and> to_call ?env _ ?s = _ \<and> LowerFormalArguments _ _ ?ws _ ?MFI ?FI = _ \<and> _")
proof -
  define C where "C = ?C"
  have c: "ci_CallConv C = 0" "ci_IsVarArg C = False" by (simp_all add: C_def)
  have h: "\<forall>w \<in> set (?ws @ []). 0 < w" "ci_IsVarArg C \<or> [] = []" "ci_Outs C = pieces_of (?ws @ [])" "length (ci_Ins C) \<le> 1"
    "target_callee (ci_Callee C) = Inr (SD_TargetExternalSymbol ''f'')"
    by (simp_all add: C_def target_callee_def)
  have "arg_bytes False (?ws @ []) = 2" by code_simp
  then have b: "arg_bytes (ci_IsVarArg C) (?ws @ []) \<le> 65536" by (simp add: c)
  have t: "map getValueType (ci_OutVals C) = map (to_evt \<circ> piece_VT) (ci_Outs C)"
    by (simp add: C_def pieces_of_def split_argument_def getRegisterType_def getNumRegisters_def getStoreSize_def
        Let_def to_evt_def getValueType_def upt_rec)
  have v: "map (\<lambda>v. Some (eval_sd ?env v)) (ci_OutVals C) = [Some 44, Some 301, Some 302, Some 513]"
    by (simp add: C_def getSizeInBits_def)
  have "\<exists>lc st fa. LowerCall C = Some (Inr lc) \<and> to_call ?env (lc_chain lc) ?s = Some st
    \<and> LowerFormalArguments 0 False ?ws (pieces_of ?ws) ?MFI ?FI = Some (Inr fa)
    \<and> map (incoming (fa_frame fa) st) (fa_InVals fa) = [Some 44, Some 301, Some 302, Some 513]"
    using call_passes_arguments [OF h(1-3) b t h(5,4), of ?env ?s ?MFI ?FI]
    by (simp only: c v if_False append_Nil2)
  then show ?thesis by (simp only: C_def)
qed

end
