(* ===== verification/Call_Returns.thy ===== *)
theory Call_Returns
  imports Call_Passing
begin

text \<open>
  Returned values: the registers of returns and of call results, and what becomes of a
  function whose result does not fit. \<open>LowerArguments\<close> models the part of
  \<open>SelectionDAGISel::LowerArguments\<close> that calls the target, for parameters of integer types.
\<close>

section \<open>Results that cannot be returned\<close>

definition sret_piece :: arg_piece where
  "sret_piece = \<lparr>piece_VT = getRegisterType 16, PartOffset = 0\<rparr>"

text \<open>
  A function whose result cannot be returned in registers gets the address of the result as
  a hidden piece in front of its parameters.
\<close>

definition LowerArguments ::
  "nat \<Rightarrow> bool \<Rightarrow> simple_vt list \<Rightarrow> nat list \<Rightarrow> frame_info \<Rightarrow> function_info \<Rightarrow> formal_arguments outcome option" where
  "LowerArguments CallConv isVarArg rets widths MFI FI =
     (let Ins = (if CanLowerReturn CallConv rets then [] else [sret_piece]) @ pieces_of widths
      in map_option (\<lambda>r. obind r (\<lambda>fa.
           asserting (length (fa_InVals fa) = length Ins)
             ''LowerFormalArguments didn't emit the correct number of values!'' (Inr fa)))
         (LowerFormalArguments CallConv isVarArg widths Ins MFI FI))"

section \<open>Registers of results\<close>

definition ret_reg :: "simple_vt \<Rightarrow> reg" where
  "ret_reg T = (case T of MVT_i8 \<Rightarrow> SNES_AL | MVT_i16 \<Rightarrow> SNES_A)"

lemmas ret_defs = CCAssignFnForReturn_def RetCC_SNES_def CCAssignToReg_def AllocateReg_def
  isAllocated_def initial_cc_state_def addLoc_def MarkAllocated_def getReg_loc_def aliases_def

lemma ret_init: "Locs initial_cc_state = []"
  by (simp add: initial_cc_state_def)

lemma ret_one:
  "analyze_values (CCAssignFnForReturn CallConv) 0 [T] initial_cc_state
     = Inr (addLoc (getReg_loc 0 T (ret_reg T) T Full) (MarkAllocated (ret_reg T) initial_cc_state))"
  by (cases T) (simp_all add: ret_defs ret_reg_def)

lemma ret_two:
  "analyze_values (CCAssignFnForReturn CallConv) 0 (T # T' # Ts) initial_cc_state = Inl (Unreachable '''')"
  "\<not> CheckReturn (CCAssignFnForReturn CallConv) 0 (T # T' # Ts) initial_cc_state"
  by (cases T; cases T'; simp add: ret_defs)+

lemma CanLowerReturn_iff: "CanLowerReturn CallConv Ts \<longleftrightarrow> length Ts \<le> 1"
proof (cases Ts)
  case (Cons T Us)
  then show ?thesis using ret_two(2) [of CallConv T]
    by (cases Us; cases T) (auto simp: CanLowerReturn_def ret_defs)
qed (simp add: CanLowerReturn_def)

text \<open>
  Property C27. A result of one piece is returned in AL or A and a call reads it from there;
  results of more pieces can neither be returned nor read: the check that the code generator
  makes beforehand fails, and both lowerings stop.
\<close>

theorem return_registers:
  "CanLowerReturn CallConv Ts = (length Ts \<le> 1)
   \<and> LowerReturn CallConv naked [T] [v] = Inr (CopyToReg (ret_reg T) v
       # (if naked then [] else [Chain_Node SNESISD_RET_FLAG [SD_Register (ret_reg T) (to_evt T), SD_Glue]]))
   \<and> LowerCallResult CallConv [T] = Inr ([CopyFromReg (ret_reg T) T], [copy_from_reg (ret_reg T) T])
   \<and> LowerReturn CallConv naked (T # T' # Ts) vs = Inl (Unreachable '''')
   \<and> LowerCallResult CallConv (T # T' # Ts) = Inl (Unreachable '''')"
  by (simp add: CanLowerReturn_iff LowerReturn_def LowerCallResult_def ret_one ret_two cc_simps
      ret_init getReg_loc_def result_copy_def result_value_def del: analyze_values.simps)

section \<open>Arguments of functions with a hidden piece\<close>

lemma assign_regs_length:
  "length (Locs (assign_regs Size n T S)) = length (Locs S) + Size
   \<and> (\<forall>V \<in> set (Locs (assign_regs Size n T S)). V \<in> set (Locs S) \<or> HTP V = Full)"
proof (induction Size arbitrary: n S)
  case 0
  then show ?case by simp
next
  case (Suc Size)
  obtain r S' where a: "AllocateReg (if T = MVT_i16 then RegList16 else RegList8) S = (r, S')" by fastforce
  then have "Locs S' = Locs S" by (auto simp: AllocateReg_def cc_simps split: option.splits)
  with Suc.IH [of "Suc n" "addLoc (getReg_loc n T r T Full) S'"] show ?case
    by (auto simp: a cc_simps getReg_loc_def)
qed

lemma reverse_from_length:
  "pos + Size = length (Locs S) \<Longrightarrow> length (Locs (reverse_from pos Size S)) = length (Locs S)
   \<and> set (Locs (reverse_from pos Size S)) = set (Locs S)"
  by (simp add: reverse_from_def) (metis append_take_drop_id set_append)

lemma standard_loop_length:
  "pos + sum_list Args \<le> length Ts \<Longrightarrow> pos = length (Locs S) \<Longrightarrow> \<forall>V \<in> set (Locs S). HTP V = Full \<Longrightarrow>
   \<exists>S'. standard_loop Ts RegsLeft n on_stack pos Args S = Inr S' \<and> length (Locs S') = pos + sum_list Args
     \<and> (\<forall>V \<in> set (Locs S'). HTP V = Full)"
proof (induction Args arbitrary: RegsLeft n on_stack pos S)
  case Nil
  then show ?case by simp
next
  case (Cons Size Args)
  let ?R = "reverse_from pos Size (assign_regs Size n (Ts ! pos) S)" and ?M = "assign_stack Size n (Ts ! pos) S"
  have R: "length (Locs ?R) = pos + Size" "\<forall>V \<in> set (Locs ?R). HTP V = Full"
    using assign_regs_length [of Size n "Ts ! pos" S] reverse_from_length [of pos Size "assign_regs Size n (Ts ! pos) S"]
      Cons.prems by auto
  have M: "length (Locs ?M) = pos + Size" "\<forall>V \<in> set (Locs ?M). HTP V = Full"
    using assign_stack_places [of Size n "Ts ! pos" S] Cons.prems by (auto simp: getMem_loc_def)
  show ?case
    using Cons.IH [of "pos + Size" ?R "RegsLeft - Size" "n + Size" on_stack]
      Cons.IH [of "pos + Size" ?M RegsLeft "n + Size" True] Cons.IH [of pos S RegsLeft n on_stack] R M Cons.prems
    by (auto simp: add.assoc)
qed

lemma formal_values_length:
  "\<forall>V \<in> set L. HTP V = Full \<Longrightarrow> \<exists>vs live MFI'. formal_values L MFI = Inr (vs, live, MFI') \<and> length vs = length L"
proof (induction L arbitrary: MFI)
  case Nil
  then show ?case by simp
next
  case (Cons VA L)
  show ?case
  proof (cases "Loc VA")
    case (RegLoc r)
    with Cons.IH [of MFI] Cons.prems show ?thesis by (auto simp: incoming_value_def Let_def)
  next
    case (MemLoc off)
    with Cons.IH [of "with_fixed [\<lparr>SPOffset = int off, ObjectSize = getStoreSize (LocVT VA)\<rparr>] MFI"] Cons.prems
    show ?thesis by (auto simp: call_simps)
  qed
qed

lemma LowerFormalArguments_length:
  "analyzeArguments ws Ins CallConv False isVarArg = Some (Inr S) \<Longrightarrow> formal_values (Locs S) MFI = Inr (vs, live, MFI') \<Longrightarrow>
   \<exists>fa. LowerFormalArguments CallConv isVarArg ws Ins MFI FI = Some (Inr fa) \<and> length (fa_InVals fa) = length vs"
  by (cases isVarArg) (auto simp: LowerFormalArguments_def call_simps)

lemma slots_length: "length (slots off Ts) = length Ts"
  by (induction Ts arbitrary: off) auto

lemma pieces_length: "length (pieces_of ws) = sum_list (map getNumRegisters ws)"
  by (induction ws) (auto simp: pieces_of_def split_argument_def)

text \<open>
  Property C28. The arguments of a function are lowered to one value for each piece exactly
  when the result can be returned in registers or the function is variadic; otherwise the
  hidden piece gets no value and the code generator stops at its assertion.
\<close>

theorem hidden_piece_unhandled:
  assumes "\<forall>w \<in> set ws. 0 < w"
  shows "case LowerArguments CallConv isVarArg rets ws MFI FI of
      Some (Inr fa) \<Rightarrow> (isVarArg \<or> length rets \<le> 1)
        \<and> length (fa_InVals fa) = (if length rets \<le> 1 then 0 else 1) + sum_list (map getNumRegisters ws)
    | Some (Inl e) \<Rightarrow> \<not> isVarArg \<and> 1 < length rets
        \<and> e = Assertion ''LowerFormalArguments didn't emit the correct number of values!''
    | None \<Rightarrow> False"
proof -
  let ?Ins = "(if CanLowerReturn CallConv rets then [] else [sret_piece]) @ pieces_of ws"
  let ?n = "sum_list (map getNumRegisters ws)"
  have len: "length ?Ins = (if length rets \<le> 1 then 0 else 1) + ?n"
    by (simp add: CanLowerReturn_iff pieces_length)
  define k where "k = (if isVarArg then length ?Ins else ?n)"
  obtain S where S: "analyzeArguments ws ?Ins CallConv False isVarArg = Some (Inr S)"
    "length (Locs S) = k" "\<forall>V \<in> set (Locs S). HTP V = Full"
  proof (cases isVarArg)
    case True
    obtain S where S: "analyze_values ArgCC_SNES_Vararg 0 (map piece_VT ?Ins) initial_cc_state = Inr S"
      "map loc_shape (Locs S) = map place_loc (slots 0 (map piece_VT ?Ins))"
      using vararg_values_slots [of 0 "map piece_VT ?Ins" initial_cc_state] by (auto simp: initial_cc_state_def)
    have "length (Locs S) = length ?Ins"
      using arg_cong [OF S(2), of length] by (simp add: slots_length)
    moreover have "HTP V = Full" if "V \<in> set (Locs S)" for V
      using arg_cong [OF S(2), of set] that by (auto simp: loc_shape_def place_loc_def image_iff set_eq_iff) blast
    ultimately show ?thesis
      using True S(1) that [of S] by (simp add: analyzeArguments_def analyzeStandardArguments_def k_def)
  next
    case False
    have "?n \<le> length (map piece_VT ?Ins)" using len by simp
    then obtain S where "standard_loop (map piece_VT ?Ins) (length RegList8) 0 False 0 (map getNumRegisters ws) initial_cc_state = Inr S"
      "length (Locs S) = ?n" "\<forall>V \<in> set (Locs S). HTP V = Full"
      using standard_loop_length [of 0 "map getNumRegisters ws" "map piece_VT ?Ins" initial_cc_state "length RegList8" 0 False]
      by (auto simp: initial_cc_state_def)
    with False show ?thesis
      using that [of S] by (simp add: analyzeArguments_def analyzeStandardArguments_def parseFunctionArgs_all [OF assms] k_def)
  qed
  obtain vs live MFI' where fv: "formal_values (Locs S) MFI = Inr (vs, live, MFI')" "length vs = k"
    using formal_values_length [OF S(3), of MFI] S(2) by auto
  obtain fa where fa: "LowerFormalArguments CallConv isVarArg ws ?Ins MFI FI = Some (Inr fa)" "length (fa_InVals fa) = k"
    using LowerFormalArguments_length [OF S(1) fv(1), of FI] fv(2) by auto
  have L: "LowerArguments CallConv isVarArg rets ws MFI FI
      = Some (asserting (k = length ?Ins) ''LowerFormalArguments didn't emit the correct number of values!'' (Inr fa))"
    by (simp only: LowerArguments_def Let_def fa option.map obind_Inr)
  show ?thesis
    unfolding L using len fa(2) by (auto simp: k_def)
qed

lemma hidden_piece_unhandled_witness:
  "LowerArguments 0 False (map piece_VT (pieces_of [32])) [16] \<lparr>NumFixedObjects = 0, FrameObjects = [], StackSize = 0, HasVarSizedObjects = False\<rparr>
     initial_function_info = Some (Inl (Assertion ''LowerFormalArguments didn't emit the correct number of values!''))"
proof -
  have "\<forall>w \<in> set [16 :: nat]. 0 < w" "length (map piece_VT (pieces_of [32])) = 2"
    by (simp_all add: pieces_length getNumRegisters_def getRegisterType_def getStoreSize_def)
  with hidden_piece_unhandled [where ws = "[16]" and CallConv = 0 and isVarArg = False and rets = "map piece_VT (pieces_of [32])"
      and MFI = "\<lparr>NumFixedObjects = 0, FrameObjects = [], StackSize = 0, HasVarSizedObjects = False\<rparr>"
      and FI = initial_function_info]
  show ?thesis by (auto split: option.splits sum.splits)
qed

end
