(* ===== verification/ISel_Select.thy ===== *)
theory ISel_Select
  imports ISel_Lower Inline_Asm Call_Returns
begin

text \<open>
  Instruction selection (\<open>SNESISelDAGToDAG.cpp\<close>): the address pattern of loads and stores
  with a displacement, indexed loads, loads from program memory, memory operands of inline
  assembly, and the nodes that are selected by hand (frame indices, stores of arguments,
  indirect calls and branches, multiplications). A selection is the list of results of the
  old node that are replaced, each with its new value; \<open>None\<close> leaves the node to the
  generated matcher, which is a parameter.
\<close>

named_theorems select_simps \<open>evaluation of the selection functions\<close>

section \<open>Nodes of the DAG\<close>

fun operands :: "sdvalue \<Rightarrow> sdvalue list" where
  "operands (SD_Node op VT vs) = vs"
| "operands (SD_Machine opc VTs vs) = vs"
| "operands (SD_Result v n) = operands v"
| "operands v = []"

definition sd_getOperand :: "sdvalue \<Rightarrow> nat \<Rightarrow> sdvalue outcome" where
  "sd_getOperand v i = asserting (i < length (operands v)) ''Invalid child # of SDNode!'' (Inr (operands v ! i))"

fun has_opcode :: "isd_op \<Rightarrow> sdvalue \<Rightarrow> bool" where
  "has_opcode op (SD_Node op' VT vs) \<longleftrightarrow> op = op'"
| "has_opcode op (SD_Result v n) \<longleftrightarrow> has_opcode op v"
| "has_opcode op v \<longleftrightarrow> False"

text \<open>\<open>dyn_cast<ConstantSDNode>\<close> and \<open>dyn_cast<FrameIndexSDNode>\<close>: both accept the target nodes.\<close>

definition dyn_cast_constant :: "sdvalue \<Rightarrow> (u64 \<times> evt) option" where
  "dyn_cast_constant v = (case v of
     SD_Constant c VT \<Rightarrow> Some (c, VT) | SD_TargetConstant c VT \<Rightarrow> Some (c, VT) | _ \<Rightarrow> None)"

definition as_frame_index :: "sdvalue \<Rightarrow> int option" where
  "as_frame_index v = (case v of
     SD_FrameIndex i _ \<Rightarrow> Some i | SD_TargetFrameIndex i _ \<Rightarrow> Some i | _ \<Rightarrow> None)"

definition getSimpleVT :: "evt \<Rightarrow> evt outcome" where
  "getSimpleVT VT = (case VT of
     VT_integer n \<Rightarrow> Inl (Assertion ''Expected a SimpleValueType!'') | _ \<Rightarrow> Inr VT)"

text \<open>
  \<open>SelectionDAG::getCopyToReg\<close> and \<open>getCopyFromReg\<close>; the register is given as a node.
  The incoming glue is the last operand, if there is one.
\<close>

definition getCopyToReg :: "sdvalue \<Rightarrow> (evt \<Rightarrow> sdvalue) \<Rightarrow> sdvalue \<Rightarrow> sdvalue" where
  "getCopyToReg Chain Reg v = SD_Node ISD_CopyToReg VT_Other [Chain, Reg (getValueType v), v]"

definition getCopyFromReg :: "sdvalue \<Rightarrow> (evt \<Rightarrow> sdvalue) \<Rightarrow> evt \<Rightarrow> sdvalue option \<Rightarrow> sdvalue" where
  "getCopyFromReg Chain Reg VT Glue = SD_Node ISD_CopyFromReg VT
     ([Chain, Reg VT] @ (case Glue of None \<Rightarrow> [] | Some g \<Rightarrow> [g]))"

definition getEntryNode :: sdvalue where
  "getEntryNode = SD_Node ISD_EntryToken VT_Other []"

text \<open>
  \<open>SelectionDAG::isBaseWithConstantOffset\<close>; \<open>masked x c\<close> is the answer of
  \<open>MaskedValueIsZero\<close>, the analysis of known bits.
\<close>

definition isBaseWithConstantOffset :: "(sdvalue \<Rightarrow> u64 \<Rightarrow> bool) \<Rightarrow> sdvalue \<Rightarrow> bool outcome" where
  "isBaseWithConstantOffset masked Op =
     (if \<not> has_opcode ISD_ADD Op \<and> \<not> has_opcode ISD_OR Op then Inr False
      else obind (sd_getOperand Op 1) (\<lambda>rhs. case dyn_cast_constant rhs of
        None \<Rightarrow> Inr False
      | Some (c, VT) \<Rightarrow> obind (sd_getOperand Op 0) (\<lambda>lhs.
          Inr (\<not> (has_opcode ISD_OR Op \<and> \<not> masked lhs (getZExtValue c VT))))))"

section \<open>Addresses with a displacement\<close>

text \<open>The memory type of the node \<open>Op\<close> is \<open>None\<close> when it is not a memory node.\<close>

definition SelectAddr ::
  "(sdvalue \<Rightarrow> u64 \<Rightarrow> bool) \<Rightarrow> evt option \<Rightarrow> sdvalue \<Rightarrow> (sdvalue \<times> sdvalue) option outcome" where
  "SelectAddr masked OpVT N = (case as_frame_index N of
     Some FI \<Rightarrow> obind (getTargetConstant 0 VT_i8) (\<lambda>Disp. Inr (Some (SD_TargetFrameIndex FI VT_i16, Disp)))
   | None \<Rightarrow>
       obind (if has_opcode ISD_ADD N \<or> has_opcode ISD_SUB N then Inr True
              else isBaseWithConstantOffset masked N) (\<lambda>simple.
       if \<not> simple then Inr None
       else obind (sd_getOperand N 1) (\<lambda>rhs. case dyn_cast_constant rhs of
         None \<Rightarrow> Inr None
       | Some (c, CVT) \<Rightarrow>
           (let RHSC = (ucast (getZExtValue c CVT) :: u32);
                RHSC = (if has_opcode ISD_SUB N then - RHSC else RHSC)
            in obind (sd_getOperand N 0) (\<lambda>lhs. case lhs of
                 SD_FrameIndex FI _ \<Rightarrow>
                   obind (getTargetConstant (scast RHSC) VT_i16) (\<lambda>Disp. Inr (Some (SD_TargetFrameIndex FI VT_i16, Disp)))
               | _ \<Rightarrow> (case OpVT of
                   None \<Rightarrow> Inl (Assertion ''cast<Ty>() argument of incompatible type!'')
                 | Some MemVT \<Rightarrow> obind (getSimpleVT MemVT) (\<lambda>VT.
                     if isUInt 6 (scast RHSC :: u64) \<and> (VT = VT_i8 \<or> VT = VT_i16)
                     then obind (getTargetConstant (scast RHSC) VT_i8) (\<lambda>Disp. Inr (Some (lhs, Disp)))
                     else Inr None)))))))"

section \<open>Indexed loads\<close>

record load_sdnode =
  ld_MemoryVT :: evt
  ld_NonExtLoad :: bool
  ld_AddressingMode :: indexed_mode
  ld_BasePtr :: sdvalue
  ld_Offset :: sdvalue
  ld_Chain :: sdvalue
  ld_ProgramMemory :: bool

text \<open>A replaced result of the old node and its new value.\<close>

type_synonym replacement = "nat \<times> sdvalue"

text \<open>\<open>ReplaceUses\<close> of a node: each of its results by the result of the same number.\<close>

definition replace_node :: "nat \<Rightarrow> sdvalue \<Rightarrow> replacement list" where
  "replace_node n Res = List.map (\<lambda>i. (i, if i = 0 then Res else SD_Result Res i)) [0..<n]"

definition cast_offset :: "sdvalue \<Rightarrow> u32 outcome" where
  "cast_offset v = (case dyn_cast_constant v of
     None \<Rightarrow> Inl (Assertion ''cast<Ty>() argument of incompatible type!'')
   | Some (c, VT) \<Rightarrow> Inr (ucast (getSExtValue c VT)))"

definition selectIndexedLoad :: "load_sdnode \<Rightarrow> replacement list option outcome" where
  "selectIndexedLoad LD = obind (getSimpleVT (ld_MemoryVT LD)) (\<lambda>VT.
     let AM = ld_AddressingMode LD in
     if \<not> ld_NonExtLoad LD \<or> (AM \<noteq> POST_INC \<and> AM \<noteq> PRE_DEC) then Inr None
     else let isPre = (AM = PRE_DEC) in
       obind (cast_offset (ld_Offset LD)) (\<lambda>Offs.
       let Opcode = (case VT of
             VT_i8 \<Rightarrow> if (\<not> isPre \<and> Offs \<noteq> 1) \<or> (isPre \<and> Offs \<noteq> - 1) then None
                      else Some (Mem (if isPre then LDRdPtrPd else LDRdPtrPi))
           | VT_i16 \<Rightarrow> if (\<not> isPre \<and> Offs \<noteq> 2) \<or> (isPre \<and> Offs \<noteq> - 2) then None
                      else Some (Wide (if isPre then LDWRdPtrPd else LDWRdPtrPi))
           | _ \<Rightarrow> None)
       in case Opcode of None \<Rightarrow> Inr None
          | Some opc \<Rightarrow> Inr (Some (replace_node 3
              (SD_Machine opc [VT, VT_i16, VT_Other] [ld_BasePtr LD, ld_Chain LD])))))"

definition selectIndexedProgMemLoad :: "load_sdnode \<Rightarrow> evt \<Rightarrow> opcode option outcome" where
  "selectIndexedProgMemLoad LD VT =
     (if \<not> ld_NonExtLoad LD \<or> ld_AddressingMode LD \<noteq> POST_INC then Inr None
      else obind (cast_offset (ld_Offset LD)) (\<lambda>Offs. Inr (case VT of
        VT_i8 \<Rightarrow> if Offs \<noteq> 1 then None else Some (Mem LPMRdZPi)
      | VT_i16 \<Rightarrow> if Offs \<noteq> 2 then None else Some (Wide LPMWRdZPi)
      | _ \<Rightarrow> None)))"

definition select_LOAD :: "load_sdnode \<Rightarrow> replacement list option outcome" where
  "select_LOAD LD =
     (if \<not> ld_ProgramMemory LD then selectIndexedLoad LD
      else obind (getSimpleVT (ld_MemoryVT LD)) (\<lambda>VT.
        let Chain = getCopyToReg (ld_Chain LD) (SD_Register SNES_A) (ld_BasePtr LD);
            Ptr = getCopyFromReg Chain (SD_Register SNES_A) VT_i16 (Some (SD_Result Chain 1));
            RegZ = SD_Register SNES_A VT_i16
        in obind (selectIndexedProgMemLoad LD VT) (\<lambda>LPMOpc.
           obind (case LPMOpc of
               Some opc \<Rightarrow> (let Res = SD_Machine opc [VT, VT_i16, VT_Other] [Ptr, RegZ]
                            in Inr ([(1, SD_Result Res 1)], Res))
             | None \<Rightarrow> (case VT of
                 VT_i8 \<Rightarrow> Inr ([], SD_Machine (Mem LPMRdZ) [VT_i8, VT_Other] [Ptr, RegZ])
               | VT_i16 \<Rightarrow> (let Res = SD_Machine (Wide LPMWRdZ) [VT_i16, VT_Other] [Ptr, RegZ]
                            in Inr ([(1, SD_Result Res 1)], Res))
               | _ \<Rightarrow> Inl (Unreachable ''Unsupported VT!''))) (\<lambda>(early, ResNode).
           Inr (Some (early @ [(0, ResNode), (1, SD_Result ResNode 1)]))))))"


section \<open>Memory operands of inline assembly\<close>

text \<open>
  \<open>main k\<close> tells whether the virtual register \<open>k\<close> has the class \<open>MainRegs\<close>, and \<open>fresh\<close>
  is the next virtual register. \<open>MachineRegisterInfo::getRegClass\<close> only knows virtual
  registers. The result is the operands and whether the selection failed.
\<close>

definition getRegClass_isMain :: "(nat \<Rightarrow> bool) \<Rightarrow> sdvalue \<Rightarrow> bool outcome" where
  "getRegClass_isMain main v = (case v of
     SD_VirtualRegister k _ \<Rightarrow> Inr (main k)
   | _ \<Rightarrow> Inl (Assertion ''Not a virtual register''))"

definition is_register_node :: "sdvalue \<Rightarrow> bool" where
  "is_register_node v = (case v of SD_Register _ _ \<Rightarrow> True | SD_VirtualRegister _ _ \<Rightarrow> True | _ \<Rightarrow> False)"

text \<open>The virtual registers, and the physical ones of the class.\<close>

definition pointer_capable :: "sdvalue \<Rightarrow> bool" where
  "pointer_capable v = (case v of
     SD_VirtualRegister _ _ \<Rightarrow> True | SD_Register r _ \<Rightarrow> class_contains MainRegs r | _ \<Rightarrow> False)"

definition through_register :: "nat \<Rightarrow> sdvalue \<Rightarrow> sdvalue" where
  "through_register VReg v =
     getCopyFromReg (getCopyToReg v (SD_VirtualRegister VReg) v) (SD_VirtualRegister VReg) VT_i16 None"

definition reg_imm_operands ::
  "(nat \<Rightarrow> bool) \<Rightarrow> nat \<Rightarrow> sdvalue \<Rightarrow> sdvalue \<Rightarrow> sdvalue list option outcome" where
  "reg_imm_operands main fresh CopyFromRegOp ImmOp = (case dyn_cast_constant ImmOp of
     None \<Rightarrow> Inl (Undefined ''getAPIntValue of a null ConstantSDNode'')
   | Some (c, CVT) \<Rightarrow>
       obind (if has_opcode ISD_CopyFromReg CopyFromRegOp
              then obind (sd_getOperand CopyFromRegOp 1) (\<lambda>Reg.
                asserting (is_register_node Reg) ''cast<Ty>() argument of incompatible type!''
                  (Inr (if getZExtValue c CVT < 64 \<and> pointer_capable Reg then Some Reg else None)))
              else Inr None) (\<lambda>CanHandle. case CanHandle of
         None \<Rightarrow> Inr None
       | Some Reg \<Rightarrow>
           obind (getRegClass_isMain main Reg) (\<lambda>isMain.
           let Base = (if \<not> isMain then through_register fresh CopyFromRegOp else CopyFromRegOp) in
           obind (if CVT \<noteq> VT_i8 then getTargetConstant (getZExtValue c CVT) VT_i8 else Inr ImmOp) (\<lambda>Disp.
           Inr (Some [Base, Disp])))))"

definition SelectInlineAsmMemoryOperand ::
  "(sdvalue \<Rightarrow> u64 \<Rightarrow> bool) \<Rightarrow> (nat \<Rightarrow> bool) \<Rightarrow> nat \<Rightarrow> sdvalue \<Rightarrow> mem_constraint \<Rightarrow> (sdvalue list \<times> bool) outcome" where
  "SelectInlineAsmMemoryOperand masked main fresh Op ConstraintCode =
     asserting (ConstraintCode = Constraint_m \<or> ConstraintCode = Constraint_Q) ''Unexpected asm memory constraint''
     (obind (if is_register_node Op then getRegClass_isMain main Op else Inr False) (\<lambda>pointer.
      if pointer then Inr ([Op], False)
      else case Op of
        SD_FrameIndex i T \<Rightarrow> obind (SelectAddr masked None Op) (\<lambda>r. Inr (case r of
            Some (Base, Disp) \<Rightarrow> ([Base, Disp], False) | None \<Rightarrow> ([], True)))
      | _ \<Rightarrow>
          obind (if has_opcode ISD_ADD Op \<or> has_opcode ISD_SUB Op
                 then obind (sd_getOperand Op 0) (\<lambda>lhs. obind (sd_getOperand Op 1) (reg_imm_operands main fresh lhs))
                 else Inr None) (\<lambda>ops.
          Inr (case ops of Some vs \<Rightarrow> (vs, False) | None \<Rightarrow> ([through_register fresh Op], False)))))"

section \<open>Nodes selected by hand\<close>

record store_sdnode =
  sn_Value :: sdvalue
  sn_BasePtr :: sdvalue
  sn_Chain :: sdvalue

text \<open>\<open>SelectNodeTo\<close> turns the node itself into the machine node.\<close>

definition select_FrameIndex :: "int \<Rightarrow> replacement list option outcome" where
  "select_FrameIndex FI = obind (getTargetConstant 0 VT_i16) (\<lambda>zero.
     Inr (Some (replace_node 1 (SD_Machine (Misc FRMIDX) [VT_i16] [SD_TargetFrameIndex FI VT_i16, zero]))))"

definition select_STORE :: "store_sdnode \<Rightarrow> replacement list option outcome" where
  "select_STORE ST =
     (let BasePtr = sn_BasePtr ST in
      if as_frame_index BasePtr \<noteq> None \<or> dyn_cast_constant BasePtr \<noteq> None \<or> has_opcode ISD_UNDEF BasePtr then Inr None
      else obind (sd_getOperand BasePtr 0) (\<lambda>RN.
        if \<not> (case RN of SD_Register r _ \<Rightarrow> r = SNES_SP | _ \<Rightarrow> False) then Inr None
        else obind (sd_getOperand BasePtr 1) (\<lambda>rhs. case dyn_cast_constant rhs of
          None \<Rightarrow> Inl (Assertion ''cast<Ty>() argument of incompatible type!'')
        | Some (c, CVT) \<Rightarrow>
            (let CST = (ucast (getZExtValue c CVT) :: u32) in
             obind (getTargetConstant (scast CST) VT_i16) (\<lambda>Offset.
             let Opc = (if getValueType (sn_Value ST) = VT_i16 then Misc STDWSPQRr else Misc STDSPQRr);
                 ResNode = SD_Machine Opc [VT_Other] [RN, Offset, sn_Value ST, sn_Chain ST]
             in Inr (Some [(0, ResNode)]))))))"

text \<open>
  The operands of a call node are its chain, the callee, the argument registers, the
  register mask and maybe a glue.
\<close>

definition select_CALL :: "sdvalue list \<Rightarrow> replacement list option outcome" where
  "select_CALL Ops =
     asserting (2 \<le> length Ops) ''Invalid child # of SDNode!''
     (let Chain = Ops ! 0; Callee = Ops ! 1; LastOpNum = length Ops - 1 in
      case Callee of
        SD_TargetGlobalAddress _ _ \<Rightarrow> Inr None
      | SD_TargetExternalSymbol _ \<Rightarrow> Inr None
      | _ \<Rightarrow>
         (let LastOpNum = (if getValueType (Ops ! LastOpNum) = VT_Glue then LastOpNum - 1 else LastOpNum) in
          asserting (1 \<le> LastOpNum) ''Invalid child # of SDNode!''
          (let Chain = getCopyToReg Chain (SD_Register SNES_A) Callee;
               ResNode = SD_Machine (Misc ICALL) [VT_Other, VT_Glue]
                 ([SD_Register SNES_A VT_i16] @ drop 2 (take (LastOpNum + 1) Ops) @ [Chain, SD_Result Chain 1])
           in Inr (Some [(0, ResNode), (1, SD_Result ResNode 1)]))))"

definition select_BRIND :: "sdvalue list \<Rightarrow> replacement list option outcome" where
  "select_BRIND Ops =
     asserting (2 \<le> length Ops) ''Invalid child # of SDNode!''
     (let Chain = getCopyToReg (Ops ! 0) (SD_Register SNES_A) (Ops ! 1)
      in Inr (Some [(0, SD_Machine (Br IJMP) [VT_Other] [Chain])]))"

text \<open>\<open>uses0\<close> and \<open>uses1\<close> tell which halves of the product are used.\<close>

definition selectMultiplication ::
  "isd_op \<Rightarrow> evt \<Rightarrow> bool \<Rightarrow> bool \<Rightarrow> sdvalue list \<Rightarrow> replacement list option outcome" where
  "selectMultiplication op VT uses0 uses1 Ops = obind (getSimpleVT VT) (\<lambda>Type.
     asserting (Type = VT_i8) ''unexpected value type''
     (asserting (2 \<le> length Ops) ''Invalid child # of SDNode!''
       (let MachineOp = (if op = ISD_SMUL_LOHI then Alu MULSRdRr else Alu MULRdRr);
            Mul = SD_Machine MachineOp [VT_Glue] [Ops ! 0, Ops ! 1];
            Lo = getCopyFromReg getEntryNode (SD_Register SNES_A) Type (Some Mul);
            (InChain, InGlue) = (if uses0 then (SD_Result Lo 1, SD_Result Lo 2) else (getEntryNode, Mul));
            Hi = getCopyFromReg InChain (SD_Register SNES_A) Type (Some InGlue)
        in Inr (Some ((if uses0 then [(0, Lo)] else []) @ (if uses1 then [(1, Hi)] else []))))))"

section \<open>Dispatch\<close>

text \<open>The nodes of a DAG as the selection sees them; \<open>DN_Node\<close> has the uses of its first two results.\<close>

datatype dag_node =
    DN_FrameIndex int
  | DN_Load load_sdnode
  | DN_Store store_sdnode
  | DN_Node isd_op evt bool bool "sdvalue list"
  | DN_Machine opcode

definition trySelect :: "dag_node \<Rightarrow> replacement list option outcome" where
  "trySelect N = (case N of
     DN_FrameIndex FI \<Rightarrow> select_FrameIndex FI
   | DN_Store ST \<Rightarrow> select_STORE ST
   | DN_Load LD \<Rightarrow> select_LOAD LD
   | DN_Node op VT uses0 uses1 Ops \<Rightarrow>
       if op = ISD_BRIND then select_BRIND Ops
       else if op = ISD_UMUL_LOHI \<or> op = ISD_SMUL_LOHI then selectMultiplication op VT uses0 uses1 Ops
       else if op = SNESISD_CALL then select_CALL Ops
       else Inr None
   | DN_Machine opc \<Rightarrow> Inr None)"

text \<open>\<open>SelectCode\<close> is the generated matcher. A machine node is left as it is.\<close>

definition Select :: "(dag_node \<Rightarrow> replacement list outcome) \<Rightarrow> dag_node \<Rightarrow> replacement list outcome" where
  "Select SelectCode N = (case N of
     DN_Machine opc \<Rightarrow> Inr []
   | _ \<Rightarrow> obind (trySelect N) (\<lambda>r. case r of Some rs \<Rightarrow> Inr rs | None \<Rightarrow> SelectCode N))"


section \<open>Values of addresses\<close>

text \<open>
  The value of an address when the frame object \<open>i\<close> lies at \<open>fa i\<close>, the virtual register \<open>k\<close>
  holds \<open>vr k\<close> and the value \<open>k\<close> computed elsewhere is \<open>env k\<close>.
\<close>

fun eval_addr :: "(int \<Rightarrow> int) \<Rightarrow> (nat \<Rightarrow> int) \<Rightarrow> (nat \<Rightarrow> int) \<Rightarrow> sdvalue \<Rightarrow> int" where
  "eval_addr fa vr env (SD_Node op VT vs) =
     (let xs = List.map (eval_addr fa vr env) vs in
      (if op = ISD_CopyFromReg then (if 1 < length xs then xs ! 1 else 0) else node_value op (getSizeInBits VT) xs)
      mod 2 ^ getSizeInBits VT)"
| "eval_addr fa vr env (SD_FrameIndex i VT) = fa i mod 2 ^ getSizeInBits VT"
| "eval_addr fa vr env (SD_TargetFrameIndex i VT) = fa i mod 2 ^ getSizeInBits VT"
| "eval_addr fa vr env (SD_VirtualRegister k VT) = vr k mod 2 ^ getSizeInBits VT"
| "eval_addr fa vr env v = eval_sd env v"

text \<open>The constant of an offset as a 32-bit and a 64-bit integer.\<close>

lemma zext_offset:
  defines "R c \<equiv> (ucast (getZExtValue c VT_i16) :: u32)"
  shows "sint (R c) = uint c mod 65536" "sint (- R c) = - (uint c mod 65536)"
proof -
  have u: "uint (R c) = uint c mod 65536"
  proof -
    have "uint (R c) = uint (take_bit 16 c) mod 2 ^ 32"
      by (simp add: R_def getZExtValue_def getSizeInBits_def unsigned_ucast_eq take_bit_eq_mod)
    moreover have "uint (take_bit 16 c) = uint c mod 2 ^ 16" by (rule uint_take_mod)
    moreover have "0 \<le> uint c mod 2 ^ 16" "uint c mod 2 ^ 16 < 2 ^ 32" using pos_mod_bound [of "2 ^ 16" "uint c"] by auto
    ultimately show ?thesis by simp
  qed
  have b: "0 \<le> uint c mod 65536" "uint c mod 65536 < 65536" by simp_all
  then show s: "sint (R c) = uint c mod 65536"
    using u by (simp add: sint_uint signed_take_bit_eq_if_positive bit_iff_odd take_bit_eq_mod)
  have "sint (- R c) = signed_take_bit 31 (- (uint c mod 65536))"
  proof -
    have "sint (- R c) = signed_take_bit 31 (take_bit 32 (- uint (R c)))"
      by (simp add: sint_uint uint_word_ariths take_bit_eq_mod)
    then show ?thesis by (simp add: signed_take_bit_take_bit u)
  qed
  also have "\<dots> = - (uint c mod 65536)"
    using b by (intro signed_take_bit_int_eq_self) simp_all
  finally show "sint (- R c) = - (uint c mod 65536)" .
qed

lemma wide_offset: "uint (scast (r :: u32) :: u64) = sint r mod 2 ^ 64"
proof -
  have "scast r = (word_of_int (sint r) :: u64)" by (rule scast_eq)
  then have "uint (scast r :: u64) = uint (word_of_int (sint r) :: u64)" by (rule arg_cong)
  also have "\<dots> = sint r mod 2 ^ 64" by (simp only: uint_word_of_int) simp
  finally show ?thesis .
qed

lemma getTargetConstant_fits:
  assumes "- (2 ^ n) \<le> sint (r :: u32)" "sint r < 2 ^ n" "n = getSizeInBits VT" "n < 64"
  shows "getTargetConstant (scast r) VT = Inr (SD_TargetConstant (take_bit n (scast r)) VT)"
proof -
  have "sint (scast r :: u64) = sint r"
    using sint_ge [of r] sint_lt [of r] by (simp add: signed_scast_eq signed_take_bit_int_eq_self)
  then have "sint (signed_drop_bit n (scast r :: u64)) = sint r div 2 ^ n"
    by (simp add: sint_signed_drop_bit_eq drop_bit_eq_div)
  moreover have "sint r div 2 ^ n = 0 \<or> sint r div 2 ^ n = - 1"
  proof (cases "0 \<le> sint r")
    case True
    with assms(2) show ?thesis by (simp add: div_pos_pos_trivial)
  next
    case False
    then have "(sint r + 2 ^ n) div 2 ^ n = 0" using assms(1) by (intro div_pos_pos_trivial) simp_all
    then show ?thesis by (simp add: div_add_self2)
  qed
  ultimately have "signed_drop_bit n (scast r :: u64) = 0 \<or> signed_drop_bit n (scast r :: u64) = - 1"
    by (metis signed_eq_0_iff sint_n1 signed_word_eqI)
  then show ?thesis using assms(3,4) by (auto simp: getTargetConstant_def)
qed

lemma target_offset_value:
  assumes "n = getSizeInBits VT" "n < 64"
  shows "eval_sd env (SD_TargetConstant (take_bit n (scast (r :: u32))) VT) = sint r mod 2 ^ n"
proof -
  have "sint r mod 2 ^ 64 mod 2 ^ n = sint r mod 2 ^ n"
    using assms(2) by (intro mod_mod_cancel le_imp_power_dvd) simp
  then show ?thesis using wide_offset [of r] assms by (simp only: eval_sd.simps uint_take_mod mod_mod_trivial)
qed


lemma constant_views [select_simps]:
  "dyn_cast_constant (SD_Constant c T) = Some (c, T)" "as_frame_index (SD_FrameIndex i T) = Some i"
  "as_frame_index (SD_Node op T vs) = None" "dyn_cast_constant (SD_Node op T vs) = None"
  "sd_getOperand (SD_Node op T [x, y]) 0 = Inr x" "sd_getOperand (SD_Node op T [x, y]) (Suc 0) = Inr y"
  by (simp_all add: dyn_cast_constant_def as_frame_index_def sd_getOperand_def)

lemma zext16: "getZExtValue c VT_i16 = take_bit 16 c"
  by (simp add: getZExtValue_def getSizeInBits_def)

lemma or_is_sum: "Bit_Operations.and x y = 0 \<Longrightarrow> Bit_Operations.or x y = x + y" for x y :: int
  by (rule disjunctive_add_eq_or [symmetric])

section \<open>The address pattern\<close>

text \<open>The signed offset that a node adds to its first operand.\<close>

definition signed_offset :: "isd_op \<Rightarrow> u64 \<Rightarrow> int" where
  "signed_offset op c = (if op = ISD_SUB then - (uint c mod 65536) else uint c mod 65536)"

definition is_frame_object :: "sdvalue \<Rightarrow> bool" where
  "is_frame_object v = (case v of SD_FrameIndex i T \<Rightarrow> T = VT_i16 | _ \<Rightarrow> False)"

text \<open>The offset of \<open>SelectAddr\<close> as a word.\<close>

definition addr_word :: "isd_op \<Rightarrow> u64 \<Rightarrow> u32" where
  "addr_word op c = (if op = ISD_SUB then - ucast (getZExtValue c VT_i16) else ucast (getZExtValue c VT_i16))"

lemma sint_addr_word: "sint (addr_word op c) = signed_offset op c"
  by (simp add: addr_word_def signed_offset_def zext_offset)

lemma offset_range: "- 65536 < signed_offset op c" "signed_offset op c < 65536"
  by (simp_all add: signed_offset_def) (smt (verit) pos_mod_bound pos_mod_sign)+

lemma offset_fits: "isUInt 6 (scast (addr_word op c) :: u64) \<longleftrightarrow> 0 \<le> signed_offset op c \<and> signed_offset op c < 64"
proof -
  have "uint (scast (addr_word op c) :: u64) = signed_offset op c mod 2 ^ 64"
    by (simp only: wide_offset sint_addr_word)
  moreover have "signed_offset op c mod 2 ^ 64 < 64 \<longleftrightarrow> 0 \<le> signed_offset op c \<and> signed_offset op c < 64"
  proof (cases "0 \<le> signed_offset op c")
    case True
    then show ?thesis using offset_range [of op c] by simp
  next
    case False
    then have "signed_offset op c mod 2 ^ 64 = signed_offset op c + 2 ^ 64"
      using offset_range [of op c] mod_pos_pos_trivial [of "signed_offset op c + 2 ^ 64" "2 ^ 64"] by simp
    with False offset_range [of op c] show ?thesis by simp
  qed
  ultimately show ?thesis by (simp add: isUInt_iff)
qed

lemma SelectAddr_cases:
  assumes N: "N = SD_Node op VT_i16 [x, SD_Constant c VT_i16]" and op: "op \<in> {ISD_ADD, ISD_SUB, ISD_OR}"
    and T: "T \<in> {VT_i8, VT_i16}"
    and W16: "W16 = SD_TargetConstant (take_bit 16 (scast (addr_word op c))) VT_i16"
    and W8: "W8 = SD_TargetConstant (take_bit 8 (scast (addr_word op c))) VT_i8"
  shows "SelectAddr masked (Some T) N = Inr
    (if op = ISD_OR \<and> \<not> masked x (take_bit 16 c) then None
     else case x of SD_FrameIndex FI FT \<Rightarrow> Some (SD_TargetFrameIndex FI VT_i16, W16)
          | _ \<Rightarrow> if 0 \<le> signed_offset op c \<and> signed_offset op c < 64 then Some (x, W8) else None)"
proof -
  have t16: "getTargetConstant (scast (addr_word op c)) VT_i16 = Inr W16"
    using offset_range [of op c] by (simp add: W16 getTargetConstant_fits sint_addr_word getSizeInBits_def)
  have t8: "getTargetConstant (scast (addr_word op c)) VT_i8 = Inr W8" if "0 \<le> signed_offset op c" "signed_offset op c < 64"
    using that by (simp add: W8 getTargetConstant_fits sint_addr_word getSizeInBits_def)
  have s: "getSimpleVT T = Inr T" using T by (auto simp: getSimpleVT_def)
  note defs = SelectAddr_def isBaseWithConstantOffset_def select_simps N s Let_def addr_word_def zext16
  consider "op = ISD_ADD" | "op = ISD_SUB" | "op = ISD_OR" using op by auto
  then show ?thesis
  proof cases
    case 1
    show ?thesis using t16 t8 offset_fits [of op c] T by (cases x) (simp_all add: defs 1)
  next
    case 2
    show ?thesis using t16 t8 offset_fits [of op c] T by (cases x) (simp_all add: defs 2)
  next
    case 3
    show ?thesis using t16 t8 offset_fits [of op c] T by (cases x) (simp_all add: defs 3)
  qed
qed


lemma eval_addr_node:
  assumes N: "N = SD_Node op VT_i16 [x, SD_Constant c VT_i16]" and op: "op \<in> {ISD_ADD, ISD_SUB, ISD_OR}"
    and zero: "op = ISD_OR \<Longrightarrow> Bit_Operations.and (eval_addr fa vr env x) (uint c mod 65536) = 0"
  shows "eval_addr fa vr env N = (eval_addr fa vr env x + signed_offset op c) mod 65536"
  using op zero by (auto simp: N signed_offset_def node_value_def getSizeInBits_def or_is_sum)



section \<open>Memory operands of inline assembly\<close>

text \<open>A copy through a fresh register has the value that is copied.\<close>

definition copied :: "sdvalue \<Rightarrow> sdvalue" where
  "copied v = (case v of
     SD_Node f VT [SD_Node t T [c, SD_VirtualRegister k T1, x], SD_VirtualRegister k' T2] \<Rightarrow>
       if f = ISD_CopyFromReg \<and> t = ISD_CopyToReg \<and> k = k' then x else v
   | _ \<Rightarrow> v)"

definition operand_address :: "(int \<Rightarrow> int) \<Rightarrow> (nat \<Rightarrow> int) \<Rightarrow> (nat \<Rightarrow> int) \<Rightarrow> sdvalue list \<Rightarrow> int" where
  "operand_address fa vr env ops = (case ops of
     [b] \<Rightarrow> eval_addr fa vr env (copied b)
   | [b, d] \<Rightarrow> (eval_addr fa vr env (copied b) + eval_sd env d) mod 65536
   | _ \<Rightarrow> 0)"

lemma copied_through [select_simps]: "copied (through_register k v) = v"
  by (simp add: copied_def through_register_def getCopyFromReg_def getCopyToReg_def)

text \<open>A pointer held in a virtual register.\<close>

definition pointer_in :: "nat \<Rightarrow> sdvalue" where
  "pointer_in k = getCopyFromReg getEntryNode (SD_VirtualRegister k) VT_i16 None"

lemma pointer_in_simps [select_simps]:
  "copied (pointer_in k) = pointer_in k" "has_opcode ISD_CopyFromReg (pointer_in k)"
  "sd_getOperand (pointer_in k) (Suc 0) = Inr (SD_VirtualRegister k VT_i16)"
  by (simp_all add: copied_def pointer_in_def getCopyFromReg_def getEntryNode_def sd_getOperand_def)

lemma zext_small: "take_bit 16 c < (64 :: u64) \<longleftrightarrow> uint c mod 65536 < 64"
  using uint_take_mod [of 16 c] by (simp add: word_less_def)

lemma small_constant:
  assumes "uint (c :: u64) mod 65536 < 64"
  shows "getTargetConstant (take_bit 16 c) VT_i8 = Inr (SD_TargetConstant (take_bit 8 c) VT_i8)"
    "eval_sd env (SD_TargetConstant (take_bit 8 c) VT_i8) = uint c mod 65536"
proof -
  let ?r = "addr_word ISD_ADD c"
  have r: "sint ?r = uint c mod 65536" by (simp add: sint_addr_word signed_offset_def)
  have u: "uint (take_bit 16 c) = uint c mod 65536" using uint_take_mod [of 16 c] by simp
  have "uint (scast ?r :: u64) = uint (take_bit 16 c)"
    using assms by (simp only: wide_offset r u) (simp add: mod_pos_pos_trivial)
  then have w: "(scast ?r :: u64) = take_bit 16 c" by (simp only: word_uint_eq_iff)
  have t: "take_bit 8 (scast ?r :: u64) = take_bit 8 c" by (simp add: w)
  have e: "8 = getSizeInBits VT_i8" by (simp add: getSizeInBits_def)
  show "getTargetConstant (take_bit 16 c) VT_i8 = Inr (SD_TargetConstant (take_bit 8 c) VT_i8)"
    using getTargetConstant_fits [of 8 ?r, OF _ _ e] assms by (simp add: r w)
  show "eval_sd env (SD_TargetConstant (take_bit 8 c) VT_i8) = uint c mod 65536"
    using target_offset_value [OF e, of env ?r] assms by (simp only: t r) simp
qed


text \<open>
  Property C32. Memory operands of inline assembly. An offset below 64 is always added to the pointer, also
  where the node subtracts it; a larger one is computed before, through a fresh register. A
  second operand that is no constant dereferences a null pointer.
\<close>

theorem inline_asm_memory_operand:
  assumes "op \<in> {ISD_ADD, ISD_SUB}" "C \<in> {Constraint_m, Constraint_Q}" "dyn_cast_constant y = None"
  shows "(\<exists>ops. SelectInlineAsmMemoryOperand masked main fresh
        (SD_Node op VT_i16 [pointer_in k, SD_Constant c VT_i16]) C = Inr (ops, False)
      \<and> operand_address fa vr env ops = eval_addr fa vr env
          (SD_Node (if uint c mod 65536 < 64 then ISD_ADD else op) VT_i16 [pointer_in k, SD_Constant c VT_i16]))
    \<and> SelectInlineAsmMemoryOperand masked main fresh (SD_Node op VT_i16 [pointer_in k, y]) C
        = Inl (Undefined ''getAPIntValue of a null ConstantSDNode'')"
proof -
  note defs = SelectInlineAsmMemoryOperand_def is_register_node_def reg_imm_operands_def zext16 zext_small
    pointer_capable_def getRegClass_isMain_def operand_address_def
  have ops: "sd_getOperand (SD_Node op VT_i16 [a, b]) 1 = Inr b" for a b by (simp add: sd_getOperand_def)
  have one: "sd_getOperand (pointer_in k) 1 = Inr (SD_VirtualRegister k VT_i16)" by (simp add: select_simps)
  have base: "copied (if \<not> main k then through_register fresh (pointer_in k) else pointer_in k) = pointer_in k"
    by (simp add: select_simps)
  show ?thesis
  proof (cases "uint c mod 65536 < 64")
    case True
    then show ?thesis using assms base
      by (auto simp: defs ops one select_simps small_constant node_value_def getSizeInBits_def mod_simps
          simp del: eval_sd.simps(3))
  next
    case False
    then show ?thesis using assms
      by (auto simp: defs ops one select_simps)
  qed
qed

lemma inline_asm_memory_operand_witness:
  "\<exists>ops. SelectInlineAsmMemoryOperand (\<lambda>_ _. False) (\<lambda>_. True) 7
       (SD_Node ISD_SUB VT_i16 [pointer_in 3, SD_Constant 5 VT_i16]) Constraint_m = Inr (ops, False)
     \<and> operand_address (\<lambda>_. 0) (\<lambda>_. 1000) (\<lambda>_. 0) ops = 1005
     \<and> eval_addr (\<lambda>_. 0) (\<lambda>_. 1000) (\<lambda>_. 0) (SD_Node ISD_SUB VT_i16 [pointer_in 3, SD_Constant 5 VT_i16]) = 995"
  using inline_asm_memory_operand [of ISD_SUB Constraint_m "SD_Value 0 VT_i16" "\<lambda>_ _. False" "\<lambda>_. True" 7 3 5 "\<lambda>_. 0" "\<lambda>_. 1000" "\<lambda>_. 0"]
  by (simp add: dyn_cast_constant_def node_value_def getSizeInBits_def pointer_in_def getCopyFromReg_def getEntryNode_def Let_def)


section \<open>Stores of arguments\<close>

text \<open>What a selected store of an argument does: it stores at a displacement from the stack pointer.\<close>

definition run_store :: "(nat \<Rightarrow> int) \<Rightarrow> sdvalue \<Rightarrow> call_state \<Rightarrow> call_state option" where
  "run_store env v st = (case v of
     SD_Machine opc VTs [SD_Register r RT, SD_TargetConstant k KT, x, c] \<Rightarrow>
       if r = SNES_SP \<and> opc \<in> {Misc STDSPQRr, Misc STDWSPQRr}
       then Some (st\<lparr>cs_machine := set_value (if opc = Misc STDWSPQRr then MVT_i16 else MVT_i8)
              (cs_SP st + ucast k) (eval_sd env x) (cs_machine st)\<rparr>)
       else None
   | _ \<Rightarrow> None)"

lemma target_displacement:
  assumes "n < 65536"
  shows "getTargetConstant (scast (ucast (getZExtValue (of_nat n) VT_i16) :: u32)) VT_i16 = Inr (SD_TargetConstant (of_nat n) VT_i16)"
proof -
  let ?r = "addr_word ISD_ADD (of_nat n)"
  have r: "sint ?r = int n" using assms by (simp add: sint_addr_word signed_offset_def uint_nat unat_of_nat)
  have e: "16 = getSizeInBits VT_i16" by (simp add: getSizeInBits_def)
  have "uint (scast ?r :: u64) = int n" using assms by (simp only: wide_offset r) (simp add: mod_pos_pos_trivial)
  then have w: "(scast ?r :: u64) = of_nat n" by (metis of_int_of_nat_eq word_of_int_uint)
  have t: "take_bit 16 (of_nat n :: u64) = of_nat n"
    using assms by (simp only: take_bit_of_nat) (simp add: take_bit_nat_eq_self)
  have "ucast (getZExtValue (of_nat n) VT_i16) = ?r" by (simp add: addr_word_def)
  then show ?thesis
    using getTargetConstant_fits [of 16 ?r, OF _ _ e] assms by (simp add: r w t)
qed

text \<open>
  Property C11. Every store of an argument that a lowered call makes is selected as a store relative to
  the stack pointer, of the width of the argument and at the offset the call gave it, so the
  selected node stores what the node of the call stores.
\<close>

theorem argument_store_selected:
  assumes "stack_store VA v = Inr (Chain_Store v p)" "\<And>off. Loc VA = MemLoc off \<Longrightarrow> off < 65535"
    and "getValueType v \<in> {VT_i8, VT_i16}"
  shows "\<exists>n. Select sc (DN_Store \<lparr>sn_Value = v, sn_BasePtr = p, sn_Chain = ch\<rparr>) = Inr [(0, n)]
    \<and> run_store env n st = chain_step env (Chain_Store v p) st \<and> run_store env n st \<noteq> None"
proof -
  obtain off where off: "Loc VA = MemLoc off" "off + 1 < 65536"
    and p: "p = SD_Node ISD_ADD VT_i16 [SD_Register SNES_SP VT_i16, SD_Constant (of_nat (off + 1)) VT_i16]"
    using assms(1,2) by (auto simp: stack_store_def split: location.splits)
  note td = target_displacement [OF off(2)]
  show ?thesis using assms(3) td
    by (auto simp: Select_def trySelect_def select_STORE_def p select_simps run_store_def chain_step_def
        sp_displacement_def simple_type_def Let_def ucast_of_nat_u16 simp del: of_nat_Suc of_nat_add)
qed

lemma argument_store_selected_witness:
  "\<forall>sc. \<exists>n. Select sc (DN_Store \<lparr>sn_Value = SD_Value 4 VT_i16, sn_BasePtr =
        SD_Node ISD_ADD VT_i16 [SD_Register SNES_SP VT_i16, SD_Constant 3 VT_i16], sn_Chain = getEntryNode\<rparr>) = Inr [(0, n)]"
  using argument_store_selected [of "getMem_loc 0 MVT_i16 2 MVT_i16 Full" "SD_Value 4 VT_i16"
    "SD_Node ISD_ADD VT_i16 [SD_Register SNES_SP VT_i16, SD_Constant 3 VT_i16]" _ getEntryNode]
  by (simp add: stack_store_def getMem_loc_def getValueType_def) blast

section \<open>Indirect calls\<close>

text \<open>The copies to registers along a chain, executed from its start.\<close>

fun run_chain :: "(nat \<Rightarrow> int) \<Rightarrow> sdvalue \<Rightarrow> call_state \<Rightarrow> call_state option" where
  "run_chain env (SD_Node op VT vs) st = (case vs of
     [ch, SD_Register r RT, v] \<Rightarrow> if op = ISD_CopyToReg
       then Option.bind (run_chain env ch st) (chain_step env (CopyToReg r v)) else None
   | _ \<Rightarrow> None)"
| "run_chain env (SD_Value k VT) st = Some st"
| "run_chain env v st = None"

text \<open>The chain that an indirect call waits for: the operand before the glue.\<close>

definition call_chain :: "sdvalue \<Rightarrow> sdvalue" where
  "call_chain n = last (butlast (operands n))"

lemma LowerCall_operands:
  assumes "LowerCall CLI = Some (Inr lc)"
  shows "\<exists>Callee args tail. target_callee (ci_Callee CLI) = Inr Callee
    \<and> Chain_Node SNESISD_CALL (Callee # args @ [SD_RegisterMask (getCallPreservedMask (ci_CallConv CLI))] @ tail)
        \<in> set (lc_chain lc) \<and> tail \<in> {[], [SD_Glue]}"
  using assms by (fastforce simp: LowerCall_def outcome_inv Let_def split: sum.splits)

lemma select_computed_call:
  assumes "tail \<in> {[], [SD_Glue]}"
  shows "\<exists>n. select_CALL (ch # SD_Value k VT_i16 # args @ [SD_RegisterMask m] @ tail) = Inr (Some [(0, n), (1, SD_Result n 1)])
    \<and> call_chain n = getCopyToReg ch (SD_Register SNES_A) (SD_Value k VT_i16)"
proof -
  have e: "call_chain (SD_Machine opc VTs (xs @ [c, g])) = c" for opc VTs xs c g
    by (simp add: call_chain_def butlast_append)
  note end1 = e [where xs = "_ # _", simplified] and end2 = e [where xs = "_ # _ @ [_]", simplified]
  show ?thesis using assms
    by (auto simp: select_CALL_def Let_def getValueType_def nth_append end1 end2)
qed

text \<open>
  Property C13. An indirect call destroys its first argument. When that argument is a word, the lowered
  call copies it to \<open>A\<close>; the selected call then copies its callee to \<open>A\<close>, so that at the
  call the first argument is the address of the callee.
\<close>

theorem indirect_call_argument:
  assumes "\<forall>w \<in> set ws. 0 < w" "ci_Outs CLI = pieces_of (16 # ws)" "\<not> ci_IsVarArg CLI"
    and "arg_bytes False (16 # ws) \<le> 65536"
    and "map getValueType (ci_OutVals CLI) = map (to_evt \<circ> piece_VT) (ci_Outs CLI)"
    and "ci_Callee CLI = SD_Value k VT_i16" "length (ci_Ins CLI) \<le> 1"
  shows "\<exists>lc Ops st n st'. LowerCall CLI = Some (Inr lc) \<and> Chain_Node SNESISD_CALL Ops \<in> set (lc_chain lc)
    \<and> to_call env (lc_chain lc) s = Some st
    \<and> read_place st (arg_places False (16 # ws) ! 0) = eval_sd env (ci_OutVals CLI ! 0)
    \<and> Select sc (DN_Node SNESISD_CALL VT_Other True True (SD_Value c VT_Other # Ops)) = Inr [(0, n), (1, SD_Result n 1)]
    \<and> run_chain env (call_chain n) st = Some st'
    \<and> read_place st' (arg_places False (16 # ws) ! 0) = eval_sd env (SD_Value k VT_i16)"
proof -
  have a: "arg_places False (16 # ws) \<noteq> []" "arg_places False (16 # ws) ! 0 = (MVT_i16, RegLoc SNES_A)"
    by (simp_all add: arg_places_def getNumRegisters_def getRegisterType_def getStoreSize_def arg_reg_def RegList16_def Let_def)
  have t: "target_callee (ci_Callee CLI) = Inr (SD_Value k VT_i16)" by (simp add: assms(6) target_callee_def)
  obtain lc st where c: "LowerCall CLI = Some (Inr lc)" "to_call env (lc_chain lc) s = Some st"
    "map (read_place st) (arg_places False (16 # ws)) = map (eval_sd env) (ci_OutVals CLI)"
    using call_fills_places [of "16 # ws" CLI "SD_Value k VT_i16" env s] assms t by auto
  have first: "read_place st (arg_places False (16 # ws) ! 0) = eval_sd env (ci_OutVals CLI ! 0)"
    using arg_cong [OF c(3), of "\<lambda>xs. xs ! 0"] arg_cong [OF c(3), of length] a(1)
    by (metis length_greater_0_conv length_map nth_map)
  obtain args tail where o: "Chain_Node SNESISD_CALL
      (SD_Value k VT_i16 # args @ [SD_RegisterMask (getCallPreservedMask (ci_CallConv CLI))] @ tail) \<in> set (lc_chain lc)"
    "tail \<in> {[], [SD_Glue]}"
    using LowerCall_operands [OF c(1)] t by auto
  obtain n where n: "select_CALL (SD_Value c VT_Other # SD_Value k VT_i16 # args
      @ [SD_RegisterMask (getCallPreservedMask (ci_CallConv CLI))] @ tail) = Inr (Some [(0, n), (1, SD_Result n 1)])"
    "call_chain n = getCopyToReg (SD_Value c VT_Other) (SD_Register SNES_A) (SD_Value k VT_i16)"
    using select_computed_call [OF o(2)] by blast
  let ?st = "write_place (MVT_i16, RegLoc SNES_A) (eval_sd env (SD_Value k VT_i16)) st"
  have "run_chain env (call_chain n) st = Some ?st"
    by (simp add: n(2) getCopyToReg_def chain_step_def getValueType_def simple_type_def write_place_def)
  moreover have "read_place ?st (MVT_i16, RegLoc SNES_A) = eval_sd env (SD_Value k VT_i16)"
    by (rule read_write_same [of 0]) (simp_all add: call_simps getSizeInBits_def getStoreSize_def)
  ultimately show ?thesis using c(1,2) first o(1) n(1) a(2)
    by (intro exI conjI) (assumption | simp add: Select_def trySelect_def)+
qed


lemma indirect_call_argument_witness:
  "\<exists>Ops st n st'. to_call (\<lambda>k. int k + 44) (lc_chain (the (map_option projr (LowerCall
        \<lparr>ci_Callee = SD_Value 1 VT_i16, ci_CallConv = 0, ci_IsVarArg = False, ci_IsTailCall = False,
         ci_Outs = pieces_of [16], ci_OutVals = [SD_Value 0 VT_i16], ci_Ins = []\<rparr>))))
      \<lparr>cs_machine = \<lparr>byte_reg = \<lambda>_. 0,
        status = \<lparr>C_flag = False, Z_flag = False, N_flag = False, V_flag = False\<rparr>, memory = \<lambda>_. 0, port = \<lambda>_. 0\<rparr>, cs_SP = 0x1ff0\<rparr> = Some st
    \<and> read_place st (MVT_i16, RegLoc SNES_A) = 44
    \<and> Select (\<lambda>_. Inr []) (DN_Node SNESISD_CALL VT_Other True True (SD_Value 9 VT_Other # Ops)) = Inr [(0, n), (1, SD_Result n 1)]
    \<and> run_chain (\<lambda>k. int k + 44) (call_chain n) st = Some st' \<and> read_place st' (MVT_i16, RegLoc SNES_A) = 45"
  (is "\<exists>Ops st n st'. to_call ?env (lc_chain (the (map_option projr (LowerCall ?C)))) ?s = Some st \<and> _")
proof -
  define C where "C = ?C"
  have h: "ci_Outs C = pieces_of [16]" "\<not> ci_IsVarArg C" "ci_Callee C = SD_Value 1 VT_i16" "length (ci_Ins C) \<le> 1"
    "ci_OutVals C = [SD_Value 0 VT_i16]" by (simp_all add: C_def)
  have "arg_bytes False [16] = 0" by code_simp
  then have b: "arg_bytes False [16] \<le> 65536" by simp
  have a: "arg_places False [16] ! 0 = (MVT_i16, RegLoc SNES_A)" by code_simp
  have "map (to_evt \<circ> piece_VT) (pieces_of [16]) = [VT_i16]" by code_simp
  then have p: "map getValueType (ci_OutVals C) = map (to_evt \<circ> piece_VT) (ci_Outs C)"
    by (simp add: h getValueType_def)
  have v: "eval_sd ?env (SD_Value 0 VT_i16) = 44" "eval_sd ?env (SD_Value 1 VT_i16) = 45"
    by (simp_all add: getSizeInBits_def)
  have e: "\<forall>w \<in> set []. 0 < (w :: nat)" by simp
  obtain lc Ops st n st' where q: "LowerCall C = Some (Inr lc)" "to_call ?env (lc_chain lc) ?s = Some st"
    "read_place st (MVT_i16, RegLoc SNES_A) = 44"
    "Select (\<lambda>_. Inr []) (DN_Node SNESISD_CALL VT_Other True True (SD_Value 9 VT_Other # Ops)) = Inr [(0, n), (1, SD_Result n 1)]"
    "run_chain ?env (call_chain n) st = Some st'" "read_place st' (MVT_i16, RegLoc SNES_A) = 45"
    using indirect_call_argument [OF e h(1,2) b p h(3,4), of ?env ?s "\<lambda>_. Inr []" 9, unfolded a h(5) v nth_Cons_0]
    by (elim exE conjE)
  then show ?thesis unfolding C_def [symmetric] by (intro exI conjI) (assumption | simp)+
qed

section \<open>Multiplications\<close>

text \<open>The value that a copy from a register reads.\<close>

definition read_copy :: "machine \<Rightarrow> sdvalue \<Rightarrow> int option" where
  "read_copy m v = (case v of
     SD_Node op T vs \<Rightarrow> (case vs of
         _ # SD_Register r RT # _ \<Rightarrow> if op = ISD_CopyFromReg then map_option (\<lambda>T. reg_value T m r) (simple_type T) else None
       | _ \<Rightarrow> None)
   | _ \<Rightarrow> None)"

text \<open>
  Both halves of a product are read from \<open>A\<close>: whatever the multiplication leaves in the
  registers, the two results are equal, so one of them is wrong unless the halves of the
  product agree.
\<close>

theorem multiplication_halves:
  assumes "op \<in> {ISD_UMUL_LOHI, ISD_SMUL_LOHI}" "2 \<le> length Ops"
  shows "\<exists>lo hi. Select sc (DN_Node op VT_i8 True True Ops) = Inr [(0, lo), (1, hi)]
    \<and> getValueType lo = VT_i8 \<and> getValueType hi = VT_i8
    \<and> read_copy m lo \<noteq> None \<and> read_copy m hi = read_copy m lo"
  using assms
  by (auto simp: Select_def trySelect_def selectMultiplication_def getSimpleVT_def Let_def getCopyFromReg_def
      read_copy_def getValueType_def simple_type_def)

lemma multiplication_halves_witness:
  "\<forall>sc m. \<exists>lo hi. Select sc (DN_Node ISD_UMUL_LOHI VT_i8 True True [SD_Value 0 VT_i8, SD_Value 1 VT_i8]) = Inr [(0, lo), (1, hi)]
     \<and> read_copy m hi = read_copy m lo"
  using multiplication_halves [of ISD_UMUL_LOHI "[SD_Value 0 VT_i8, SD_Value 1 VT_i8]"] by fastforce

section \<open>Indexed loads\<close>

lemma indexed_parts_result:
  assumes "indexed_parts VT wide narrow AM Op = Inr (Some (Base, Offset, AM'))"
    and "(wide, narrow) \<in> {(2, 1), (- 2, - 1)}"
  shows "AM' = AM \<and> (VT = VT_i8 \<and> Inr Offset = getConstant (scast narrow) VT_i8
    \<or> VT = VT_i16 \<and> Inr Offset = getConstant (scast wide) VT_i8)"
proof -
  obtain r where r: "indexed_step VT wide narrow Op = Some (Base, r)" "getConstant (scast r) VT_i8 = Inr Offset" "AM' = AM"
    and VT: "VT = VT_i8 \<or> VT = VT_i16"
    using assms(1) by (auto simp: indexed_parts_def outcome_inv split: option.splits if_splits)
  have "(VT = VT_i16 \<longrightarrow> r = wide) \<and> (VT = VT_i8 \<longrightarrow> r = narrow)"
    using r(1) by (auto simp: indexed_step_def Let_def split: sdvalue.splits list.splits if_splits)
  with r(2,3) VT show ?thesis by auto
qed


lemma cast_step_offsets:
  "cast_offset (SD_Constant 1 VT_i8) = Inr 1" "cast_offset (SD_Constant 2 VT_i8) = Inr 2"
  "cast_offset (SD_Constant 255 VT_i8) = Inr (- 1)" "cast_offset (SD_Constant 254 VT_i8) = Inr (- 2)"
  by code_simp+

lemma load_parts:
  assumes "mn_is_load n"
    and "getPreIndexedAddressParts (Some n) = Inr (Some (Base, Offset, AM))
      \<or> getPostIndexedAddressParts (Some n) Op = Inr (Some (Base, Offset, AM))"
  shows "mn_NonExtLoad n \<and> (AM = POST_INC \<and>
        (mn_MemoryVT n = VT_i8 \<and> Offset = SD_Constant 1 VT_i8 \<or> mn_MemoryVT n = VT_i16 \<and> Offset = SD_Constant 2 VT_i8)
      \<or> AM = PRE_DEC \<and> \<not> mn_ProgramMemory n \<and>
        (mn_MemoryVT n = VT_i8 \<and> Offset = SD_Constant 255 VT_i8 \<or> mn_MemoryVT n = VT_i16 \<and> Offset = SD_Constant 254 VT_i8))"
  using assms indexed_parts_result [of "mn_MemoryVT n" "- 2" "- 1" PRE_DEC "mn_BasePtr n" Base Offset AM]
    indexed_parts_result [of "mn_MemoryVT n" 2 1 POST_INC Op Base Offset AM]
  by (auto simp: getPreIndexedAddressParts_def getPostIndexedAddressParts_def step_offsets split: if_splits)

text \<open>
  Property C25. Every load that the combiner makes indexed is selected as the indexed instruction of its
  width and mode. In data memory all three results are replaced; in program memory the chain,
  result 2, is not, and the pointer, result 1, is replaced twice.
\<close>

theorem indexed_loads_selected:
  assumes "mn_is_load n"
    and "getPreIndexedAddressParts (Some n) = Inr (Some (Base, Offset, AM))
      \<or> getPostIndexedAddressParts (Some n) Op = Inr (Some (Base, Offset, AM))"
  shows "\<exists>opc ops res. Select sc (DN_Load \<lparr>ld_MemoryVT = mn_MemoryVT n, ld_NonExtLoad = mn_NonExtLoad n,
        ld_AddressingMode = AM, ld_BasePtr = Base, ld_Offset = Offset, ld_Chain = ch,
        ld_ProgramMemory = mn_ProgramMemory n\<rparr>) = Inr res
    \<and> map fst res = (if mn_ProgramMemory n then [1, 0, 1] else [0, 1, 2])
    \<and> (0, SD_Machine opc [mn_MemoryVT n, VT_i16, VT_Other] ops) \<in> set res
    \<and> opc = (if mn_ProgramMemory n then (if mn_MemoryVT n = VT_i8 then Mem LPMRdZPi else Wide LPMWRdZPi)
             else if AM = PRE_DEC then (if mn_MemoryVT n = VT_i8 then Mem LDRdPtrPd else Wide LDWRdPtrPd)
             else (if mn_MemoryVT n = VT_i8 then Mem LDRdPtrPi else Wide LDWRdPtrPi))"
proof -
  have three: "[0..<3] = [0, Suc 0, 2]" by (simp add: upt_rec numeral_3_eq_3 numeral_2_eq_2)
  show ?thesis using load_parts [OF assms]
    by (auto simp: Select_def trySelect_def select_LOAD_def selectIndexedLoad_def selectIndexedProgMemLoad_def
        cast_step_offsets getSimpleVT_def replace_node_def three Let_def)
qed

lemma indexed_loads_selected_witness:
  "\<forall>sc. \<exists>opc ops res. Select sc (DN_Load \<lparr>ld_MemoryVT = VT_i16, ld_NonExtLoad = True, ld_AddressingMode = POST_INC,
        ld_BasePtr = SD_Value 0 VT_i16, ld_Offset = SD_Constant 2 VT_i8, ld_Chain = getEntryNode, ld_ProgramMemory = True\<rparr>) = Inr res
     \<and> map fst res = [1, 0, 1] \<and> (0, SD_Machine (Wide LPMWRdZPi) [VT_i16, VT_i16, VT_Other] ops) \<in> set res"
proof -
  let ?n = "\<lparr>mn_is_load = True, mn_MemoryVT = VT_i16, mn_NonExtLoad = True, mn_BasePtr = SD_Value 0 VT_i16, mn_ProgramMemory = True\<rparr>"
  have "getPostIndexedAddressParts (Some ?n) (SD_Node ISD_ADD VT_i16 [SD_Value 0 VT_i16, SD_Constant 2 VT_i16])
      = Inr (Some (SD_Value 0 VT_i16, SD_Constant 2 VT_i8, POST_INC))"
    by code_simp
  then show ?thesis
    using indexed_loads_selected [of ?n "SD_Value 0 VT_i16" "SD_Constant 2 VT_i8" POST_INC
        "SD_Node ISD_ADD VT_i16 [SD_Value 0 VT_i16, SD_Constant 2 VT_i16]" _ getEntryNode] by simp
qed

section \<open>Indirect branches and frame indices\<close>

text \<open>An indirect branch leaves its target in \<open>A\<close>, where \<open>IJMP\<close> reads it.\<close>

lemma indirect_branch_target:
  "\<exists>ch. Select sc (DN_Node ISD_BRIND VT_Other u v [SD_Value c VT_Other, SD_Value k VT_i16])
       = Inr [(0, SD_Machine (Br IJMP) [VT_Other] [ch])]
     \<and> map_option (\<lambda>st. read_place st (MVT_i16, RegLoc SNES_A)) (run_chain env ch st) = Some (eval_sd env (SD_Value k VT_i16))"
proof -
  let ?p = "(MVT_i16, RegLoc SNES_A)"
  have "read_place (write_place ?p (eval_sd env (SD_Value k VT_i16)) st) ?p = eval_sd env (SD_Value k VT_i16)"
    by (rule read_write_same [of 0]) (simp_all add: call_simps getSizeInBits_def getStoreSize_def)
  then show ?thesis
    by (simp add: Select_def trySelect_def select_BRIND_def getCopyToReg_def chain_step_def getValueType_def
        simple_type_def write_place_def)
qed

end
