(* ===== verification/Stack_Arguments.thy ===== *)
theory Stack_Arguments
  imports ISel_Select Frame_Lowering Expand_Refinement
begin

text \<open>
  A word argument on the stack from the call to memory: \<open>LowerCall\<close> stores it, the selection
  makes the store a pseudo instruction relative to the stack pointer, the elimination of the
  call frame turns that into a store through a pointer register, and the expansion of pseudo
  instructions into two byte stores. The register that holds the value is chosen by the
  register allocator and is a parameter.
\<close>

text \<open>The instruction of a selected store whose source is in the register \<open>r\<close>.\<close>

definition store_instr :: "reg \<Rightarrow> sdvalue \<Rightarrow> instr option" where
  "store_instr r n = (case n of
     SD_Machine opc VTs ops \<Rightarrow> (case ops of
         [SD_Register b BT, SD_TargetConstant k KT, v, ch] \<Rightarrow> Some (BuildMI opc [use b, MO_Immediate k, use r])
       | _ \<Rightarrow> None)
   | _ \<Rightarrow> None)"

lemma ucast_of_nat_u32: "(ucast (of_nat n :: u64) :: u32) = of_nat n"
  by (simp add: unsigned_of_nat word_of_nat_eq_iff)

lemma high_half: "word_of_int (uint (w :: u16) div 256) = (ucast (drop_bit 8 w) :: u8)"
proof -
  have "uint (drop_bit 8 w) = uint w div 256" by (simp add: drop_bit_eq_div uint_div)
  then show ?thesis using ucast_eq [of "drop_bit 8 w"] by metis
qed

text \<open>The expansion only looks at the explicit operands.\<close>

lemma displaced_store_steps:
  assumes "Operands MI = use p # MO_Immediate k # use r # implicit" "splitReg r = Inr (rl, rh)" "(ucast k :: u32) \<le> 63"
  shows "expands_to (expand_wide avail STDWPtrQRr MI)
     [(Mem STDPtrQRr, [use p, imm32 (ucast k), use rl]), (Mem STDPtrQRr, [use p, imm32 (ucast k + 1), use rh])]"
proof -
  have "expand_wide avail STDWPtrQRr MI = Inr
    [BuildMI (Mem STDPtrQRr) [use p, imm32 (ucast k), use_kill rl False],
     BuildMI (Mem STDPtrQRr) [use_kill p False, imm32 (ucast k + 1), use_kill rh False]]"
    using assms by (simp add: expand_wide_def operand_steps expand_STDWPtrQRr_def use_def)
  then show ?thesis by (simp add: meaning_BuildMI build_simps imm32_def)
qed

text \<open>Running the two byte stores.\<close>

lemma run_displaced_stores:
  assumes rr: "splitReg r = Inr (rl, rh)" and k: "(ucast (k :: u64) :: u32) \<le> 62"
    and i: "meaning i = (Mem STDPtrQRr, [use SNES_A, imm32 (ucast k), use rl])"
    and j: "meaning j = (Mem STDPtrQRr, [use SNES_A, imm32 (ucast k + 1), use rh])"
  shows "\<exists>s'. run alu [i, j] s = Some s' \<and> memory s' = (memory s)(reg16 s SNES_A + ucast k := ucast (reg16 s r),
     reg16 s SNES_A + ucast k + 1 := ucast (drop_bit 8 (reg16 s r)))"
proof -
  note sub = splitReg_sub [OF rr] and six = six_bits_imm32 [OF k]
  let ?s1 = "set_mem (reg16 s SNES_A + ucast k) (byte_reg s rl) s"
  have one: "exec alu i s = Some ?s1"
    using exec_access(8) [OF i [unfolded imm32_def]] sub six by (simp add: imm32_address)
  have two: "exec alu j ?s1 = Some (set_mem (reg16 s SNES_A + ucast k + 1) (byte_reg s rh) ?s1)"
    using exec_access(8) [OF j [unfolded imm32_def], where s = ?s1] sub six
    by (simp add: imm32_address set_mem_def reg16_def add.assoc)
  from one two show ?thesis using sub by (simp add: reg16_def halves_join)
qed

text \<open>The memory after the slot at \<open>off\<close> is written with the word \<open>x\<close>, for the stack pointer \<open>sp\<close>.\<close>

definition slot_written :: "nat \<Rightarrow> u16 \<Rightarrow> u16 \<Rightarrow> machine \<Rightarrow> u16 \<Rightarrow> u8" where
  "slot_written off sp x s = memory (cs_machine (write_place (MVT_i16, MemLoc off) (uint x)
     \<lparr>cs_machine = s, cs_SP = sp\<rparr>))"

lemma slot_written_eq:
  "slot_written off sp x s = (memory s)(sp + of_nat (off + 1) := ucast x,
     sp + of_nat (off + 1) + 1 := ucast (drop_bit 8 x))"
  by (simp add: slot_written_def write_place_def set_value_def set_mem_def add.assoc high_half
    del: of_nat_Suc of_nat_add)

text \<open>A slot written for another stack pointer is another memory, for some machine.\<close>

lemma two_bytes_at:
  fixes x y :: u16
  assumes "(\<lambda>_. v)(x := l, x + 1 := h) = (\<lambda>_. v)(y := l, y + 1 := h)" "v \<noteq> l" "v \<noteq> h"
  shows "x = y"
proof (rule ccontr)
  assume n: "x \<noteq> y"
  have "x = y + 1" using fun_cong [OF assms(1), of x] assms(2,3) n by (simp split: if_splits)
  moreover have "y = x + 1" using fun_cong [OF assms(1), of y] assms(2,3) n by (simp split: if_splits)
  ultimately have "x + 2 = x" by simp
  then show False by simp
qed

lemma another_byte: "\<exists>v. v \<noteq> l \<and> v \<noteq> (h :: u8)"
proof -
  have "l + 1 \<noteq> l \<and> l + 2 \<noteq> l \<and> l + 1 \<noteq> l + 2" by simp
  then show ?thesis by metis
qed

lemma slot_address_unique:
  assumes "\<forall>s. reg16 s SNES_A = a \<longrightarrow> slot_written off a (reg16 s r) s = slot_written off sp (reg16 s r) s"
  shows "sp = a"
proof -
  define s0 where "s0 = set_reg16 SNES_A a sample_machine"
  obtain v where v: "v \<noteq> ucast (reg16 s0 r)" "v \<noteq> (ucast (drop_bit 8 (reg16 s0 r)) :: u8)"
    using another_byte by blast
  define s where "s = s0\<lparr>memory := (\<lambda>_. v)\<rparr>"
  have r: "reg16 s q = reg16 s0 q" for q by (simp add: s_def reg16_def)
  have "reg16 s0 SNES_A = a"
    by (simp add: s0_def reg16_def set_reg16_simps getSubReg_lo_def getSubReg_hi_def join_halves)
  with assms have "slot_written off a (reg16 s0 r) s = slot_written off sp (reg16 s0 r) s" by (metis r)
  moreover have "memory s = (\<lambda>_. v)" by (simp add: s_def)
  ultimately have "a + of_nat (off + 1) = sp + of_nat (off + 1)"
    unfolding slot_written_eq by (intro two_bytes_at [OF _ v]) simp
  then show ?thesis by simp
qed

text \<open>
  Property C12. The store of a word argument in a reserved call frame, in a slot whose bytes
  have displacements within the field: selection makes it a store relative to the stack
  pointer, the elimination of the call frame a store relative to \<open>A\<close>, and the expansion two
  byte stores. They write the word, low byte first, at the offset of its slot from \<open>A\<close>. The
  called function reads the slots from the stack pointer: for a given value of \<open>A\<close> the
  argument arrives in every state, in a machine with the stack pointer \<open>sp\<close>, if and only if
  \<open>sp\<close> is that value, which no step of the code establishes.
\<close>

theorem stack_argument_lands:
  assumes "stack_store VA v = Inr (Chain_Store v p)" "Loc VA = MemLoc off" "off < 62"
    and "getValueType v = VT_i16" "class_contains MainRegs r"
  shows "\<exists>n MI MI' is. Select sc (DN_Store \<lparr>sn_Value = v, sn_BasePtr = p, sn_Chain = ch\<rparr>) = Inr [(0, n)]
    \<and> store_instr r n = Some MI \<and> is_stack_store MI
    \<and> fixStackStores False [MI] = Inr [MI'] \<and> Opcode MI' = Wide STDWPtrQRr \<and> expand_wide avail STDWPtrQRr MI' = Inr is
    \<and> (\<forall>s. \<exists>s'. run alu is s = Some s' \<and> memory s' = slot_written off (reg16 s SNES_A) (reg16 s r) s)
    \<and> (\<forall>a sp. (\<forall>s s'. reg16 s SNES_A = a \<and> run alu is s = Some s' \<longrightarrow> memory s' = slot_written off sp (reg16 s r) s)
         \<longleftrightarrow> sp = a)"
proof -
  let ?k = "of_nat (off + 1) :: u64"
  let ?n = "SD_Machine (Misc STDWSPQRr) [VT_Other] [SD_Register SNES_SP VT_i16, SD_TargetConstant ?k VT_i16, v, ch]"
  have p: "p = SD_Node ISD_ADD VT_i16 [SD_Register SNES_SP VT_i16, SD_Constant (of_nat (off + 1)) VT_i16]"
    using assms(1,2) by (auto simp: stack_store_def)
  have b: "off + 1 < 65536" using assms(3) by simp
  have sel: "Select sc (DN_Store \<lparr>sn_Value = v, sn_BasePtr = p, sn_Chain = ch\<rparr>) = Inr [(0, ?n)]"
    using target_displacement [OF b] assms(4)
    by (simp add: Select_def trySelect_def select_STORE_def p select_simps del: of_nat_Suc of_nat_add)
  let ?MI = "BuildMI (Misc STDWSPQRr) [use SNES_SP, MO_Immediate ?k, use r]"
  let ?MI' = "?MI\<lparr>Opcode := Wide STDWPtrQRr, Operands := use SNES_A # tl (Operands ?MI)\<rparr>"
  have fixed: "fixStackStores False [?MI] = Inr [?MI']"
    by (simp add: fix_store_def setReg_def getReg_def Machine_IR.getOperand_def as_reg_def BuildMI_def use_def
        is_stack_store_def isCall_def)
  obtain rl rh where rr: "splitReg r = Inr (rl, rh)" using splitReg_ok [OF assms(5)] by blast
  have k: "(ucast ?k :: u32) \<le> 62"
  proof -
    have "(ucast ?k :: u32) = of_nat (off + 1)" by (rule ucast_of_nat_u32)
    moreover have "unat (of_nat (off + 1) :: u32) \<le> 62" using assms(3) unfolding unat_of_nat by simp
    ultimately show ?thesis by (simp only: word_le_nat_alt) simp
  qed
  have ex: "expands_to (expand_wide avail STDWPtrQRr ?MI')
     [(Mem STDPtrQRr, [use SNES_A, imm32 (ucast ?k), use rl]), (Mem STDPtrQRr, [use SNES_A, imm32 (ucast ?k + 1), use rh])]"
    by (rule displaced_store_steps [OF _ rr six_bits_imm32(3) [OF k]]) (simp add: BuildMI_def)
  obtain i j where ij: "expand_wide avail STDWPtrQRr ?MI' = Inr [i, j]"
    "meaning i = (Mem STDPtrQRr, [use SNES_A, imm32 (ucast ?k), use rl])"
    "meaning j = (Mem STDPtrQRr, [use SNES_A, imm32 (ucast ?k + 1), use rh])"
    using ex by (auto simp: expands_to_def map_eq_Cons_conv)
  have r: "\<exists>s'. run alu [i, j] s = Some s' \<and> memory s' = slot_written off (reg16 s SNES_A) (reg16 s r) s" for s
    using run_displaced_stores [OF rr k ij(2,3)]
    by (simp add: slot_written_eq ucast_of_nat_u16 del: of_nat_Suc of_nat_add)
  then have run: "\<forall>s. \<exists>s'. run alu [i, j] s = Some s' \<and> memory s' = slot_written off (reg16 s SNES_A) (reg16 s r) s" by blast
  have iff: "(\<forall>s s'. reg16 s SNES_A = a \<and> run alu [i, j] s = Some s' \<longrightarrow> memory s' = slot_written off sp (reg16 s r) s)
      \<longleftrightarrow> sp = a" for a sp
  proof
    assume h: "\<forall>s s'. reg16 s SNES_A = a \<and> run alu [i, j] s = Some s' \<longrightarrow> memory s' = slot_written off sp (reg16 s r) s"
    show "sp = a" using h r by (intro slot_address_unique [of a off r]) metis
  next
    assume "sp = a"
    then show "\<forall>s s'. reg16 s SNES_A = a \<and> run alu [i, j] s = Some s' \<longrightarrow> memory s' = slot_written off sp (reg16 s r) s"
      using r by (metis option.inject)
  qed
  have "store_instr r ?n = Some ?MI" "is_stack_store ?MI" "Opcode ?MI' = Wide STDWPtrQRr"
    by (simp_all add: store_instr_def is_stack_store_def)
  with sel fixed ij(1) run iff show ?thesis by blast
qed

lemma stack_argument_lands_witness:
  "\<exists>n MI MI' is s'. Select (\<lambda>_. Inr []) (DN_Store \<lparr>sn_Value = SD_Value 4 VT_i16, sn_BasePtr =
        SD_Node ISD_ADD VT_i16 [SD_Register SNES_SP VT_i16, SD_Constant 3 VT_i16], sn_Chain = getEntryNode\<rparr>) = Inr [(0, n)]
    \<and> store_instr SNES_X n = Some MI \<and> fixStackStores False [MI] = Inr [MI']
    \<and> expand_wide (\<lambda>_ _. False) STDWPtrQRr MI' = Inr is \<and> run reference_alu is sample_machine = Some s'
    \<and> memory s' = slot_written 2 0x12ff 0x0102 sample_machine"
proof -
  have "stack_store (getMem_loc 0 MVT_i16 2 MVT_i16 Full) (SD_Value 4 VT_i16)
      = Inr (Chain_Store (SD_Value 4 VT_i16) (SD_Node ISD_ADD VT_i16 [SD_Register SNES_SP VT_i16, SD_Constant 3 VT_i16]))"
    by (simp add: stack_store_def getMem_loc_def)
  note lands = stack_argument_lands [OF this, where off = 2 and r = SNES_X and avail = "\<lambda>_ _. False" and alu = reference_alu
      and sc = "\<lambda>_. Inr []" and ch = getEntryNode]
  have h: "Loc (getMem_loc 0 MVT_i16 2 MVT_i16 Full) = MemLoc 2" "2 < (62 :: nat)" "getValueType (SD_Value 4 VT_i16) = VT_i16"
    "class_contains MainRegs SNES_X" by (simp_all add: getMem_loc_def getValueType_def)
  note ex = spec [of _ sample_machine]
  show ?thesis using lands [OF h] by (elim exE conjE) (drule ex, elim exE conjE, intro exI conjI, assumption+, simp)
qed

end
