(* ===== verification/Asm_Parser.thy ===== *)
theory Asm_Parser
  imports Asm_Lexer
begin

text \<open>
  The assembly parser \<open>AsmParser/SNESAsmParser.cpp\<close> over tokens, with the expression parser of
  \<open>MCParser/AsmParser.cpp\<close> that it calls. A parser changes a state; it succeeds, or reports
  failure (\<open>return true\<close>), or stops at an assertion, or its bound on nested and repeated calls
  is used up. Symbols and their variants, and what TableGen generates, are parameters.
\<close>

section \<open>Parser states\<close>

datatype snes_operand =
    k_Token string
  | k_Register reg
  | k_Immediate mcexpr
  | k_Memri reg mcexpr

record asm_state =
  toks :: "token list"
  parsed :: "snes_operand list"
  diags :: "string list"
  temps :: nat

type_synonym 'a parser = "asm_state \<Rightarrow> ('a option \<times> asm_state) outcome option"

definition preturn :: "'a \<Rightarrow> 'a parser" where
  "preturn x s = Some (Inr (Some x, s))"

definition pfail :: "'a parser" where
  "pfail s = Some (Inr (None, s))"

definition pstop :: "code_error \<Rightarrow> 'a parser" where
  "pstop e s = Some (Inl e)"

text \<open>Sequencing, and the choice by whether a parser failed.\<close>

definition pbind :: "'a parser \<Rightarrow> ('a \<Rightarrow> 'b parser) \<Rightarrow> 'b parser" where
  "pbind m f s = (case m s of
     None \<Rightarrow> None | Some (Inl e) \<Rightarrow> Some (Inl e)
   | Some (Inr (None, s')) \<Rightarrow> Some (Inr (None, s'))
   | Some (Inr (Some x, s')) \<Rightarrow> f x s')"

definition ptry :: "'a parser \<Rightarrow> ('a option \<Rightarrow> 'b parser) \<Rightarrow> 'b parser" where
  "ptry m f s = (case m s of
     None \<Rightarrow> None | Some (Inl e) \<Rightarrow> Some (Inl e) | Some (Inr (r, s')) \<Rightarrow> f r s')"

definition end_token :: token where
  "end_token = plain_token Tok_EndOfStatement []"

text \<open>After the last token the lexer answers the end of the file.\<close>

definition eof_token :: token where
  "eof_token = plain_token Tok_Eof []"

definition tok_at :: "nat \<Rightarrow> asm_state \<Rightarrow> token" where
  "tok_at i s = (if i < length (toks s) then toks s ! i else eof_token)"

definition kind_at :: "nat \<Rightarrow> asm_state \<Rightarrow> token_kind" where
  "kind_at i s = tk_kind (tok_at i s)"

text \<open>\<open>Lex\<close> drops the current token, \<open>Error\<close> and \<open>TokError\<close> record a diagnostic and fail.\<close>

definition Lex :: "unit parser" where
  "Lex s = preturn () (s\<lparr>toks := tl (toks s)\<rparr>)"

definition Error :: "string \<Rightarrow> 'a parser" where
  "Error msg s = pfail (s\<lparr>diags := diags s @ [msg]\<rparr>)"

definition push_operand :: "snes_operand \<Rightarrow> unit parser" where
  "push_operand op s = preturn () (s\<lparr>parsed := parsed s @ [op]\<rparr>)"

section \<open>Expressions\<close>

text \<open>
  The parameters: the kinds of variants by name, the values of symbols that are constants, the
  symbols of labels, the bits of floating point numbers, and whether the first two of the
  given tokens touch in the text.
\<close>

record parse_env =
  touching :: "token list \<Rightarrow> bool"
  variant_kind :: "string \<Rightarrow> symref_kind option"
  variable_value :: "string \<Rightarrow> u64 option"
  dir_label :: "u64 \<Rightarrow> bool \<Rightarrow> mcsymbol"
  label_defined :: "u64 \<Rightarrow> bool"
  temp_symbol :: "nat \<Rightarrow> mcsymbol"
  real_bits :: "string \<Rightarrow> u64"

definition getGNUBinOpPrecedence :: "token_kind \<Rightarrow> nat \<times> mc_binop" where
  "getGNUBinOpPrecedence K = (case K of
     Tok_AmpAmp \<Rightarrow> (2, LAnd) | Tok_PipePipe \<Rightarrow> (1, LOr)
   | Tok_EqualEqual \<Rightarrow> (3, EQ) | Tok_ExclaimEqual \<Rightarrow> (3, NE) | Tok_LessGreater \<Rightarrow> (3, NE) | Tok_Less \<Rightarrow> (3, LT)
   | Tok_LessEqual \<Rightarrow> (3, LTE) | Tok_Greater \<Rightarrow> (3, GT) | Tok_GreaterEqual \<Rightarrow> (3, GTE)
   | Tok_Plus \<Rightarrow> (4, Add) | Tok_Minus \<Rightarrow> (4, Sub)
   | Tok_Pipe \<Rightarrow> (5, Or) | Tok_Caret \<Rightarrow> (5, Xor) | Tok_Amp \<Rightarrow> (5, And)
   | Tok_Star \<Rightarrow> (6, Mul) | Tok_Slash \<Rightarrow> (6, Div) | Tok_Percent \<Rightarrow> (6, Mod) | Tok_LessLess \<Rightarrow> (6, Shl)
   | Tok_GreaterGreater \<Rightarrow> (6, LShr)
   | _ \<Rightarrow> (0, Add))"

text \<open>An identifier cut at its first \<open>@\<close>.\<close>

definition split_at :: "string \<Rightarrow> string \<times> string" where
  "split_at s = (takeWhile (\<lambda>c. c \<noteq> CHR ''@'') s, tl (dropWhile (\<lambda>c. c \<noteq> CHR ''@'') s))"

text \<open>\<open>parseIdentifier\<close> joins a dollar or at sign with the identifier that it touches.\<close>

definition getIdentifier :: "token \<Rightarrow> string" where
  "getIdentifier t = (if tk_kind t = Tok_Identifier then tk_string t else butlast (tl (tk_string t)))"

definition parseIdentifier :: "parse_env \<Rightarrow> string parser" where
  "parseIdentifier env s =
     (if kind_at 0 s \<in> {Tok_Dollar, Tok_At}
      then (if kind_at 1 s \<noteq> Tok_Identifier \<or> \<not> touching env (toks s) then pfail s
            else pbind Lex (\<lambda>_. pbind Lex (\<lambda>_. preturn (tk_string (tok_at 0 s) @ tk_string (tok_at 1 s)))) s)
      else if kind_at 0 s \<noteq> Tok_Identifier \<and> kind_at 0 s \<noteq> Tok_String then pfail s
      else pbind Lex (\<lambda>_. preturn (getIdentifier (tok_at 0 s))) s)"

text \<open>The variant after the \<open>@\<close>, which follows a string as a token of its own.\<close>

definition symbol_variant :: "parse_env \<Rightarrow> token_kind \<Rightarrow> string \<Rightarrow> (string \<times> string) parser" where
  "symbol_variant env FirstTokenKind Identifier s =
     (if FirstTokenKind \<noteq> Tok_String then preturn (split_at Identifier) s
      else if kind_at 0 s \<noteq> Tok_At then preturn ([], []) s
      else pbind Lex (\<lambda>_. ptry (parseIdentifier env) (\<lambda>r. case r of
             None \<Rightarrow> Error ''expected symbol variant after @''
           | Some VName \<Rightarrow> preturn (Identifier, VName))) s)"

definition create_symbol_ref :: "parse_env \<Rightarrow> string \<Rightarrow> symref_kind \<Rightarrow> mcexpr parser" where
  "create_symbol_ref env SymbolName Variant =
     (if SymbolName = [] then pstop (Assertion ''Normal symbols cannot be unnamed!'')
      else case variable_value env SymbolName of
        Some c \<Rightarrow> if Variant \<noteq> VK_None then Error ''unexpected modifier on variable reference''
                  else preturn (MCConstantExpr c)
      | None \<Rightarrow> preturn (MCSymbolRefExpr \<lparr>sym_name = SymbolName, sym_temporary = False\<rparr> Variant))"

definition symbol_reference :: "parse_env \<Rightarrow> token_kind \<Rightarrow> string \<Rightarrow> mcexpr parser" where
  "symbol_reference env FirstTokenKind Identifier =
     pbind (symbol_variant env FirstTokenKind Identifier) (\<lambda>(base, variant).
       if Identifier = [] then pfail
       else if variant = [] then create_symbol_ref env Identifier VK_None
       else case variant_kind env variant of
         None \<Rightarrow> Error (''invalid variant '' @ variant)
       | Some v \<Rightarrow> create_symbol_ref env base v)"

text \<open>A primary expression that starts with a name, a string, a dollar or an at sign.\<close>

definition parse_symbol_expr :: "parse_env \<Rightarrow> mcexpr parser" where
  "parse_symbol_expr env s =
     ptry (parseIdentifier env) (\<lambda>r. case r of
         Some Identifier \<Rightarrow> symbol_reference env (kind_at 0 s) Identifier
       | None \<Rightarrow> if kind_at 0 s = Tok_Dollar then Error ''invalid token in expression'' else pfail) s"

text \<open>The directional label that may follow a number.\<close>

definition number_or_label :: "parse_env \<Rightarrow> u64 \<Rightarrow> mcexpr parser" where
  "number_or_label env v s =
     (if kind_at 0 s \<noteq> Tok_Identifier then preturn (MCConstantExpr v) s
      else let (base, variant) = split_at (tk_string (tok_at 0 s));
               label = (\<lambda>kind. pbind (if base = ''b'' \<and> \<not> label_defined env v
                     then Error ''directional label undefined'' else Lex)
                 (\<lambda>_. preturn (MCSymbolRefExpr (dir_label env v (base = ''b'')) kind)))
           in if base = tk_string (tok_at 0 s)
              then (if base \<in> {''f'', ''b''} then label VK_None s else preturn (MCConstantExpr v) s)
              else case variant_kind env variant of
                None \<Rightarrow> Error (''invalid variant '' @ variant) s
              | Some kind \<Rightarrow> if base \<in> {''f'', ''b''} then label kind s else preturn (MCConstantExpr v) s)"

text \<open>
  \<open>applyModifierToExpr\<close>: the expression with the variant on its symbols, if it has any, and the
  diagnostics.
\<close>

fun applyModifierToExpr :: "symref_kind \<Rightarrow> mcexpr \<Rightarrow> mcexpr option \<times> string list" where
  "applyModifierToExpr v (SNESMCExpr k e n) = (None, [])"
| "applyModifierToExpr v (MCConstantExpr c) = (None, [])"
| "applyModifierToExpr v (MCSymbolRefExpr smb k) =
     (if k \<noteq> VK_None then (Some (MCSymbolRefExpr smb k), [''invalid variant on expression (already modified)''])
      else (Some (MCSymbolRefExpr smb v), []))"
| "applyModifierToExpr v (MCUnaryExpr op e) =
     (let (r, ds) = applyModifierToExpr v e in (map_option (MCUnaryExpr op) r, ds))"
| "applyModifierToExpr v (MCBinaryExpr op l r) =
     (let (l', ds) = applyModifierToExpr v l; (r', es) = applyModifierToExpr v r
      in (if l' = None \<and> r' = None then None
          else Some (MCBinaryExpr op (case l' of None \<Rightarrow> l | Some x \<Rightarrow> x) (case r' of None \<Rightarrow> r | Some x \<Rightarrow> x)),
          ds @ es))"

definition variant_suffix :: "parse_env \<Rightarrow> mcexpr \<Rightarrow> mcexpr parser" where
  "variant_suffix env Res s =
     (if kind_at 0 s \<noteq> Tok_At then preturn Res s
      else pbind Lex (\<lambda>_ s. if kind_at 0 s \<noteq> Tok_Identifier
        then Error ''unexpected symbol modifier following @'' s
        else case variant_kind env (tk_string (tok_at 0 s)) of
          None \<Rightarrow> Error (''invalid variant '' @ tk_string (tok_at 0 s)) s
        | Some v \<Rightarrow> (let (r, ds) = applyModifierToExpr v Res; s = s\<lparr>diags := diags s @ ds\<rparr>
            in case r of None \<Rightarrow> Error ''invalid modifier (no symbols present)'' s
               | Some Res' \<Rightarrow> pbind Lex (\<lambda>_. preturn Res') s)) s)"

text \<open>Constant folding at the end of an expression.\<close>

definition fold_constant :: "mcexpr \<Rightarrow> mcexpr parser" where
  "fold_constant Res = (case evaluateAsRelocatable Res of
     Inl e \<Rightarrow> pstop e
   | Inr (Some V) \<Rightarrow> if isAbsolute V then preturn (MCConstantExpr (mcvalue.getConstant V)) else preturn Res
   | Inr None \<Rightarrow> preturn Res)"

definition unary_operator :: "token_kind \<Rightarrow> mc_unop option" where
  "unary_operator K = (case K of Tok_Exclaim \<Rightarrow> Some LNot | Tok_Minus \<Rightarrow> Some Minus | Tok_Plus \<Rightarrow> Some Plus
     | Tok_Tilde \<Rightarrow> Some BNot | _ \<Rightarrow> None)"

text \<open>The bound counts the calls; it is used up when it reaches zero.\<close>

fun parsePrimaryExpr :: "nat \<Rightarrow> parse_env \<Rightarrow> mcexpr parser"
  and parseBinOpRHS :: "nat \<Rightarrow> parse_env \<Rightarrow> nat \<Rightarrow> mcexpr \<Rightarrow> mcexpr parser"
  and parseExpression :: "nat \<Rightarrow> parse_env \<Rightarrow> mcexpr parser" where
  "parsePrimaryExpr 0 env s = None"
| "parsePrimaryExpr (Suc n) env s =
     (let K = kind_at 0 s; T = tok_at 0 s in
      if unary_operator K \<noteq> None
      then pbind Lex (\<lambda>_. pbind (parsePrimaryExpr n env)
             (\<lambda>Res. preturn (MCUnaryExpr (the (unary_operator K)) Res))) s
      else if K \<in> {Tok_Identifier, Tok_String, Tok_Dollar, Tok_At} then parse_symbol_expr env s
      else if K = Tok_BigNum then Error ''literal value out of range for directive'' s
      else if K = Tok_Integer then pbind Lex (\<lambda>_. number_or_label env (tk_int T)) s
      else if K = Tok_Real then pbind Lex (\<lambda>_. preturn (MCConstantExpr (real_bits env (tk_string T)))) s
      else if K = Tok_Dot
      then pbind Lex (\<lambda>_ s. preturn (MCSymbolRefExpr (temp_symbol env (temps s)) VK_None) (s\<lparr>temps := Suc (temps s)\<rparr>)) s
      else if K = Tok_LParen
      then pbind Lex (\<lambda>_. pbind (parseExpression n env) (\<lambda>Res s.
             if kind_at 0 s \<noteq> Tok_RParen then Error ''expected ) in parentheses expression'' s
             else pbind Lex (\<lambda>_. preturn Res) s)) s
      else if K = Tok_LBrac then Error ''brackets expression not supported on this target'' s
      else Error ''unknown token in expression'' s)"
| "parseBinOpRHS 0 env prec Res s = None"
| "parseBinOpRHS (Suc n) env prec Res s =
     (let (TokPrec, Kind) = getGNUBinOpPrecedence (kind_at 0 s) in
      if TokPrec < prec then preturn Res s
      else pbind Lex (\<lambda>_. pbind (parsePrimaryExpr n env) (\<lambda>RHS. pbind
        (\<lambda>s. if TokPrec < fst (getGNUBinOpPrecedence (kind_at 0 s))
             then parseBinOpRHS n env (TokPrec + 1) RHS s else preturn RHS s)
        (\<lambda>RHS. parseBinOpRHS n env prec (MCBinaryExpr Kind Res RHS)))) s)"
| "parseExpression 0 env s = None"
| "parseExpression (Suc n) env s =
     pbind (parsePrimaryExpr n env) (\<lambda>Res. pbind (parseBinOpRHS n env 1 Res) (\<lambda>Res.
     pbind (variant_suffix env Res) fold_constant)) s"

section \<open>Registers\<close>

text \<open>
  \<open>MatchRegisterName\<close> compares with the names of \<open>SNESRegisterInfo.td\<close>; there are no
  alternative names.
\<close>

definition MatchRegisterName :: "string \<Rightarrow> reg" where
  "MatchRegisterName nm = (case find (\<lambda>r. reg_name r = nm) all_regs of Some r \<Rightarrow> r | None \<Rightarrow> NoRegister)"

definition MatchRegisterAltName :: "string \<Rightarrow> reg" where
  "MatchRegisterAltName nm = NoRegister"

definition parseRegisterName_with :: "(string \<Rightarrow> reg) \<Rightarrow> asm_state \<Rightarrow> reg" where
  "parseRegisterName_with matchFn s =
     (let nm = tk_string (tok_at 0 s);
          RegNum = matchFn nm;
          RegNum = (if RegNum = NoRegister then matchFn (lower nm) else RegNum)
      in if RegNum = NoRegister then matchFn (upper nm) else RegNum)"

definition parseRegisterName :: "asm_state \<Rightarrow> reg" where
  "parseRegisterName s =
     (let RegNum = parseRegisterName_with MatchRegisterName s
      in if RegNum = NoRegister then parseRegisterName_with MatchRegisterAltName s else RegNum)"

text \<open>The register of \<open>MainRegs\<close> whose low half is the register.\<close>

definition toDREG :: "reg \<Rightarrow> reg" where
  "toDREG Reg = (case find (\<lambda>r. getSubReg_lo r = Reg) (class_members MainRegs) of
     Some r \<Rightarrow> r | None \<Rightarrow> NoRegister)"

definition parseRegister :: "reg parser" where
  "parseRegister s =
     (if kind_at 0 s \<noteq> Tok_Identifier then preturn NoRegister s
      else if kind_at 1 s = Tok_Colon
      then pbind Lex (\<lambda>_. pbind Lex (\<lambda>_ s.
             preturn (if kind_at 0 s = Tok_Identifier then toDREG (parseRegisterName s) else NoRegister) s)) s
      else preturn (parseRegisterName s) s)"

definition tryParseRegisterOperand :: "unit parser" where
  "tryParseRegisterOperand =
     pbind parseRegister (\<lambda>RegNo. if RegNo = NoRegister then pfail
       else pbind (push_operand (k_Register RegNo)) (\<lambda>_. Lex))"

section \<open>Operands\<close>

text \<open>
  The first lines of \<open>tryParseRelocExpression\<close>: when the two tokens after the current one are
  a name and a parenthesis, the current one must be a sign.
\<close>

definition sign_of_modifier :: "bool parser" where
  "sign_of_modifier s =
     (if 2 < length (toks s) \<and> kind_at 1 s = Tok_Identifier \<and> kind_at 2 s = Tok_LParen
      then (if kind_at 0 s = Tok_Minus then pbind Lex (\<lambda>_. preturn True) s
            else if kind_at 0 s = Tok_Plus then pbind Lex (\<lambda>_. preturn False) s
            else pstop (Assertion ''CurTok == AsmToken::Plus'') s)
      else preturn False s)"

definition tryParseRelocExpression :: "nat \<Rightarrow> parse_env \<Rightarrow> unit parser" where
  "tryParseRelocExpression n env =
     pbind sign_of_modifier (\<lambda>isNegated s.
       if kind_at 0 s \<noteq> Tok_Identifier \<or> kind_at 1 s \<noteq> Tok_LParen then pfail s
       else let ModifierKind = getKindByName (tk_string (tok_at 0 s))
            in if ModifierKind = VK_SNES_None then Error ''unknown modifier'' s
               else pbind Lex (\<lambda>_. pbind Lex (\<lambda>_. pbind (parseExpression n env) (\<lambda>InnerExpression s.
                 if kind_at 0 s \<noteq> Tok_RParen then pstop (Assertion ''Parser.getTok().getKind() == AsmToken::RParen'') s
                 else pbind Lex (\<lambda>_. push_operand (k_Immediate (SNESMCExpr ModifierKind InnerExpression isNegated))) s))) s)"

definition tryParseExpression :: "nat \<Rightarrow> parse_env \<Rightarrow> unit parser" where
  "tryParseExpression n env =
     ptry (tryParseRelocExpression n env) (\<lambda>r. if r \<noteq> None then preturn () else (\<lambda>s.
       if kind_at 0 s \<in> {Tok_Plus, Tok_Minus} \<and> kind_at 1 s = Tok_Identifier then pfail s
       else pbind (parseExpression n env) (\<lambda>Expression. push_operand (k_Immediate Expression)) s))"

definition sign_as_token :: "unit parser" where
  "sign_as_token s = pbind (push_operand (k_Token (tk_string (tok_at 0 s)))) (\<lambda>_. Lex) s"

definition parseOperand :: "nat \<Rightarrow> parse_env \<Rightarrow> unit parser" where
  "parseOperand n env s = (let K = kind_at 0 s in
     if K = Tok_Identifier
     then ptry tryParseRegisterOperand (\<lambda>r. if r \<noteq> None then preturn () else tryParseExpression n env) s
     else if K \<in> {Tok_LParen, Tok_Integer, Tok_Dot} then tryParseExpression n env s
     else if K \<in> {Tok_Plus, Tok_Minus}
     then (if kind_at 1 s \<in> {Tok_Integer, Tok_BigNum, Tok_Identifier, Tok_Real}
           then ptry (tryParseExpression n env) (\<lambda>r. if r \<noteq> None then preturn () else sign_as_token) s
           else sign_as_token s)
     else Error ''unexpected token in operand'' s)"

definition parseMemriOperand :: "nat \<Rightarrow> parse_env \<Rightarrow> unit parser" where
  "parseMemriOperand n env =
     pbind parseRegister (\<lambda>RegNo. if RegNo = NoRegister then pfail
       else pbind Lex (\<lambda>_. pbind (parseExpression n env) (\<lambda>Expression. push_operand (k_Memri RegNo Expression))))"

definition ParseRegister :: "reg parser" where
  "ParseRegister = pbind parseRegister (\<lambda>RegNo. if RegNo = NoRegister then pfail else preturn RegNo)"

section \<open>Instructions\<close>

definition eatComma :: "unit parser" where
  "eatComma s = (if kind_at 0 s = Tok_Comma then Lex s else preturn () s)"

text \<open>All tokens up to the end of the statement, which is eaten too.\<close>

definition eatToEndOfStatement :: "unit parser" where
  "eatToEndOfStatement s =
     preturn () (s\<lparr>toks := tl (dropWhile (\<lambda>t. tk_kind t \<noteq> Tok_EndOfStatement) (toks s))\<rparr>)"

text \<open>
  The operand loop. The generated \<open>MatchOperandParserImpl\<close> is \<open>parseMemriOperand\<close> for the
  operands that the parameter \<open>custom\<close> names and no match for the others.
\<close>

fun operand_loop :: "nat \<Rightarrow> nat \<Rightarrow> parse_env \<Rightarrow> (snes_operand list \<Rightarrow> string \<Rightarrow> bool) \<Rightarrow> string \<Rightarrow> bool \<Rightarrow> unit parser" where
  "operand_loop 0 n env custom Mnemonic first s = None"
| "operand_loop (Suc k) n env custom Mnemonic first s =
     (if kind_at 0 s = Tok_EndOfStatement then Lex s
      else pbind (if first then preturn () else eatComma) (\<lambda>_ s.
        if custom (parsed s) Mnemonic
        then ptry (parseMemriOperand n env) (\<lambda>r. if r \<noteq> None then operand_loop k n env custom Mnemonic False
               else pbind eatToEndOfStatement (\<lambda>_. Error ''failed to parse register and immediate pair'')) s
        else ptry (parseOperand n env) (\<lambda>r. if r \<noteq> None then operand_loop k n env custom Mnemonic False
               else pbind eatToEndOfStatement (\<lambda>_. Error ''unexpected token in argument list'')) s) s)"

definition ParseInstruction ::
  "nat \<Rightarrow> nat \<Rightarrow> parse_env \<Rightarrow> (snes_operand list \<Rightarrow> string \<Rightarrow> bool) \<Rightarrow> string \<Rightarrow> unit parser" where
  "ParseInstruction k n env custom Mnemonic =
     pbind (push_operand (k_Token Mnemonic)) (\<lambda>_. operand_loop k n env custom Mnemonic True)"

definition ParseDirective :: "token \<Rightarrow> unit parser" where
  "ParseDirective DirectiveID = pfail"

section \<open>Matching\<close>

definition addExpr :: "mcexpr \<Rightarrow> mcoperand" where
  "addExpr Expr = (case Expr of MCConstantExpr c \<Rightarrow> MCImm c | _ \<Rightarrow> MCExprOp Expr)"

definition add_operands :: "snes_operand \<Rightarrow> mcoperand list outcome" where
  "add_operands op = (case op of
     k_Register r \<Rightarrow> Inr [MCReg r]
   | k_Immediate e \<Rightarrow> Inr [addExpr e]
   | k_Memri r e \<Rightarrow> Inr [MCReg r, addExpr e]
   | k_Token t \<Rightarrow> Inl (Assertion ''Unexpected operand kind''))"

datatype match_result =
    Match_Success mcinst | Match_MissingFeature nat | Match_InvalidOperand u64 | Match_MnemonicFail | Match_Other

text \<open>Without operand information the error code is all ones, of which 32 bits are compared.\<close>

definition invalidOperand :: "snes_operand list \<Rightarrow> u64 \<Rightarrow> string" where
  "invalidOperand Ops ErrorInfo =
     (if ErrorInfo \<noteq> 0xffffffff \<and> of_nat (length Ops) \<le> ErrorInfo then ''too few operands for instruction.''
      else ''invalid operand for instruction'')"

definition MatchAndEmitInstruction ::
  "(snes_operand list \<Rightarrow> match_result) \<Rightarrow> (mcinst list \<Rightarrow> mcinst \<Rightarrow> mcinst list) \<Rightarrow> snes_operand list \<Rightarrow> mcinst list
   \<Rightarrow> (bool \<times> mcinst list) \<times> string list" where
  "MatchAndEmitInstruction match_impl EmitInstruction Ops Out = (case match_impl Ops of
     Match_Success Inst \<Rightarrow> ((False, EmitInstruction Out Inst), [])
   | Match_MissingFeature bits \<Rightarrow> ((True, Out), [''instruction requires a CPU feature not currently enabled''])
   | Match_InvalidOperand code \<Rightarrow> ((True, Out), [invalidOperand Ops code])
   | Match_MnemonicFail \<Rightarrow> ((True, Out), [''invalid instruction''])
   | Match_Other \<Rightarrow> ((True, Out), []))"

text \<open>
  The check of an operand whose class did not match; \<open>validate\<close> is the generated check and
  \<open>pair_class\<close> tells whether the expected class lies in the class of \<open>MainRegs\<close>.
\<close>

definition number_register :: "u64 \<Rightarrow> reg" where
  "number_register c = MatchRegisterName (''r'' @ to_string (sint c))"

definition validateTargetOperandClass ::
  "(snes_operand \<Rightarrow> bool) \<Rightarrow> bool \<Rightarrow> snes_operand \<Rightarrow> bool \<times> snes_operand" where
  "validateTargetOperandClass validate pair_class Op =
     (let Op' = (case Op of
            k_Immediate (MCConstantExpr c) \<Rightarrow>
              (if number_register c \<noteq> NoRegister then k_Register (number_register c) else Op)
          | _ \<Rightarrow> Op)
      in if Op' \<noteq> Op \<and> validate Op' then (True, Op')
         else case Op' of
           k_Register r \<Rightarrow> if pair_class \<and> toDREG r \<noteq> NoRegister
             then (validate (k_Register (toDREG r)), k_Register (toDREG r)) else (False, Op')
         | _ \<Rightarrow> (False, Op'))"

section \<open>Parsers only move on\<close>

text \<open>
  A later state has fewer tokens, and more operands and diagnostics. \<open>onward s r\<close> holds for a
  result whose state is later than \<open>s\<close>, whether it is a success or a failure.
\<close>

definition later :: "asm_state \<Rightarrow> asm_state \<Rightarrow> bool" where
  "later s s' \<longleftrightarrow> (\<exists>pre. toks s = pre @ toks s') \<and> (\<exists>ops. parsed s' = parsed s @ ops) \<and> (\<exists>ds. diags s' = diags s @ ds)"

definition onward :: "asm_state \<Rightarrow> ('a option \<times> asm_state) outcome option \<Rightarrow> bool" where
  "onward s res \<longleftrightarrow> (\<forall>r s'. res = Some (Inr (r, s')) \<longrightarrow> later s s')"

named_theorems parser_moves \<open>results of parsers are onward\<close>
named_theorems parser_defs \<open>basic parsers\<close>

lemmas [parser_defs] = preturn_def pfail_def pstop_def Lex_def Error_def push_operand_def

lemma later_refl [simp]: "later s s"
  by (simp add: later_def)

lemma later_trans: "later s s' \<Longrightarrow> later s' s'' \<Longrightarrow> later s s''"
  unfolding later_def by (metis append.assoc)

lemma later_length: "later s s' \<Longrightarrow> length (toks s') \<le> length (toks s)"
  by (auto simp: later_def)

lemma onward_basic [parser_moves]:
  "onward s None" "onward s (preturn x s)" "onward s (pfail s)" "onward s (pstop e s)" "onward s (Lex s)"
  "onward s (Error msg s)" "onward s (push_operand op s)"
proof -
  have "\<exists>pre. ts = pre @ tl ts" for ts :: "token list"
    by (cases ts) (simp, metis append_Cons append_Nil list.sel(3))
  then show "onward s None" "onward s (preturn x s)" "onward s (pfail s)" "onward s (pstop e s)" "onward s (Lex s)"
    "onward s (Error msg s)" "onward s (push_operand op s)"
    by (auto simp: onward_def parser_defs later_def)
qed

lemma onward_trans: "later s s' \<Longrightarrow> onward s' r \<Longrightarrow> onward s r"
  unfolding onward_def by (blast intro: later_trans)

lemma onward_pbind [parser_moves]:
  "onward s (m s) \<Longrightarrow> (\<And>x s'. onward s' (f x s')) \<Longrightarrow> onward s (pbind m f s)"
  unfolding pbind_def by (auto split: option.splits sum.splits prod.splits simp: onward_def) (meson later_trans)+

lemma onward_ptry [parser_moves]:
  "onward s (m s) \<Longrightarrow> (\<And>x s'. onward s' (f x s')) \<Longrightarrow> onward s (ptry m f s)"
  unfolding ptry_def by (auto split: option.splits sum.splits prod.splits simp: onward_def) (meson later_trans)+

lemma onward_if [parser_moves]: "onward s r \<Longrightarrow> onward s r' \<Longrightarrow> onward s (if b then r else r')"
  by simp

lemma onward_apply_if [parser_moves]: "onward s (m s) \<Longrightarrow> onward s (k s) \<Longrightarrow> onward s ((if b then m else k) s)"
  by simp

lemma parseIdentifier_moves [parser_moves]: "onward s (parseIdentifier env s)"
  unfolding parseIdentifier_def by (intro parser_moves)

lemma symbol_variant_moves [parser_moves]: "onward s (symbol_variant env K name s)"
  unfolding symbol_variant_def by (auto split: option.splits intro!: parser_moves)

lemma create_symbol_ref_moves [parser_moves]: "onward s (create_symbol_ref env name v s)"
  unfolding create_symbol_ref_def by (auto split: option.splits intro!: parser_moves)

lemma symbol_reference_moves [parser_moves]: "onward s (symbol_reference env K name s)"
  unfolding symbol_reference_def by (auto split: prod.splits option.splits intro!: parser_moves)

lemma parse_symbol_expr_moves [parser_moves]: "onward s (parse_symbol_expr env s)"
  unfolding parse_symbol_expr_def by (auto split: option.splits intro!: parser_moves)

lemma number_or_label_moves [parser_moves]: "onward s (number_or_label env v s)"
  unfolding number_or_label_def Let_def
  by (auto split: prod.splits option.splits intro!: parser_moves)

lemma onward_diags: "onward (s\<lparr>diags := diags s @ ds\<rparr>) r \<Longrightarrow> onward s r"
  by (rule onward_trans) (auto simp: later_def)

lemma variant_suffix_moves [parser_moves]: "onward s (variant_suffix env Res s)"
  unfolding variant_suffix_def Let_def
  by (auto split: prod.splits option.splits intro!: parser_moves intro: onward_diags [OF onward_basic(6)] onward_diags [OF onward_pbind])

lemma fold_constant_moves [parser_moves]: "onward s (fold_constant Res s)"
  unfolding fold_constant_def by (auto split: sum.splits option.splits intro!: parser_moves)

lemma expression_moves:
  "onward s (parsePrimaryExpr n env s)" "onward s (parseBinOpRHS n env prec Res s)" "onward s (parseExpression n env s)"
proof (induction n arbitrary: s prec Res)
  case (Suc n)
  have t: "onward s (preturn x (s\<lparr>temps := t\<rparr>))" for s t and x :: mcexpr
    by (simp add: onward_def parser_defs later_def)
  { case 1 show ?case
      by (simp only: parsePrimaryExpr.simps Let_def) (intro parser_moves Suc t impI; simp?) }
  { case 2 show ?case
      by (simp only: parseBinOpRHS.simps Let_def case_prod_beta) (intro parser_moves Suc) }
  { case 3 show ?case
      by (simp only: parseExpression.simps) (intro parser_moves Suc) }
qed (simp_all add: parser_moves)

lemmas [parser_moves] = expression_moves

lemma parseRegister_moves [parser_moves]: "onward s (parseRegister s)"
  unfolding parseRegister_def by (intro parser_moves)

lemma tryParseRegisterOperand_moves [parser_moves]: "onward s (tryParseRegisterOperand s)"
  unfolding tryParseRegisterOperand_def by (intro parser_moves)

lemma sign_of_modifier_moves [parser_moves]: "onward s (sign_of_modifier s)"
  unfolding sign_of_modifier_def by (intro parser_moves)

lemma tryParseRelocExpression_moves [parser_moves]: "onward s (tryParseRelocExpression n env s)"
  unfolding tryParseRelocExpression_def Let_def by (intro parser_moves)

lemma tryParseExpression_moves [parser_moves]: "onward s (tryParseExpression n env s)"
  unfolding tryParseExpression_def by (intro parser_moves)

lemma sign_as_token_moves [parser_moves]: "onward s (sign_as_token s)"
  unfolding sign_as_token_def by (intro parser_moves)

lemma parseOperand_moves [parser_moves]: "onward s (parseOperand n env s)"
  unfolding parseOperand_def Let_def by (intro parser_moves)

lemma parseMemriOperand_moves [parser_moves]: "onward s (parseMemriOperand n env s)"
  unfolding parseMemriOperand_def by (intro parser_moves)

lemma eatComma_moves [parser_moves]: "onward s (eatComma s)"
  unfolding eatComma_def by (intro parser_moves)

lemma later_eaten: "later s (s\<lparr>toks := tl (dropWhile P (toks s)), diags := diags s @ ds\<rparr>)"
  "later s (s\<lparr>toks := tl (dropWhile P (toks s))\<rparr>)"
proof -
  have "\<exists>pre. toks s = pre @ tl (dropWhile P (toks s))"
    using takeWhile_dropWhile_id [of P "toks s"] by (cases "dropWhile P (toks s)") (metis append_Nil2 list.sel(2), metis append.assoc append_Cons append_Nil list.sel(3))
  then show "later s (s\<lparr>toks := tl (dropWhile P (toks s)), diags := diags s @ ds\<rparr>)"
    "later s (s\<lparr>toks := tl (dropWhile P (toks s))\<rparr>)"
    by (simp_all add: later_def)
qed

lemma eatToEndOfStatement_moves [parser_moves]: "onward s (eatToEndOfStatement s)"
  by (simp add: eatToEndOfStatement_def onward_def parser_defs later_eaten)

lemma operand_loop_moves: "onward s (operand_loop k n env custom M first s)"
  by (induction k arbitrary: first s) (auto intro!: parser_moves)

section \<open>Successful parsers consume tokens\<close>

definition consumes :: "asm_state \<Rightarrow> ('a option \<times> asm_state) outcome option \<Rightarrow> bool" where
  "consumes s res \<longleftrightarrow> (\<forall>x s'. res = Some (Inr (Some x, s')) \<longrightarrow> length (toks s') < length (toks s))"

named_theorems parser_consumes \<open>successful results have consumed a token\<close>

lemma kind_tokens: "kind_at 0 s \<noteq> Tok_Eof \<Longrightarrow> toks s \<noteq> []"
  by (auto simp: kind_at_def tok_at_def eof_token_def plain_token_def split: if_splits)

lemma consumes_fail [parser_consumes]:
  "consumes s (pfail s)" "consumes s (Error msg s)" "consumes s (pstop e s)" "consumes s None"
  by (simp_all add: consumes_def parser_defs)

lemma consumes_Lex: "toks s \<noteq> [] \<Longrightarrow> (\<And>x s'. onward s' (f x s')) \<Longrightarrow> consumes s (pbind Lex f s)"
proof -
  assume ne: "toks s \<noteq> []" and f: "\<And>x s'. onward s' (f x s')"
  have "length (toks s') < length (toks s)" if "f () (s\<lparr>toks := tl (toks s)\<rparr>) = Some (Inr (Some x, s'))" for x s'
  proof -
    have "later (s\<lparr>toks := tl (toks s)\<rparr>) s'" using f that unfolding onward_def by blast
    then have "length (toks s') \<le> length (toks s) - 1" using later_length by fastforce
    then show ?thesis using ne by (cases "toks s") auto
  qed
  then show ?thesis by (simp add: consumes_def pbind_def parser_defs)
qed

lemma consumes_pbind [parser_consumes]:
  "consumes s (m s) \<Longrightarrow> (\<And>x s'. onward s' (f x s')) \<Longrightarrow> consumes s (pbind m f s)"
  unfolding consumes_def pbind_def onward_def
  by (auto split: option.splits sum.splits prod.splits) (meson later_length le_less_trans)

lemma consumes_later: "later s s' \<Longrightarrow> consumes s' r \<Longrightarrow> consumes s r"
  unfolding consumes_def using later_length [of s s'] by (auto dest: less_le_trans)

lemma consumes_after:
  assumes "onward s (m s)" "\<And>x s'. consumes s' (f x s')"
  shows "consumes s (pbind m f s)"
proof -
  have "consumes s (f x s')" if "m s = Some (Inr (Some x, s'))" for x s'
    using assms(1) that consumes_later [OF _ assms(2)] unfolding onward_def by blast
  then show ?thesis
    unfolding pbind_def by (auto split: option.splits sum.splits prod.splits simp: consumes_fail) (simp_all add: consumes_def)
qed

lemma consumes_if [parser_consumes]: "(b \<Longrightarrow> consumes s r) \<Longrightarrow> (\<not> b \<Longrightarrow> consumes s r') \<Longrightarrow> consumes s (if b then r else r')"
  by simp

lemma parseIdentifier_consumes: "consumes s (parseIdentifier env s)"
  using kind_tokens [of s] unfolding parseIdentifier_def
  by (intro consumes_if consumes_fail consumes_Lex parser_moves) auto

lemma parse_symbol_expr_consumes [parser_consumes]: "consumes s (parse_symbol_expr env s)"
proof -
  have "consumes s (pbind (parseIdentifier env) (symbol_reference env (kind_at 0 s)) s)"
    by (intro consumes_pbind parseIdentifier_consumes parser_moves)
  then show ?thesis
    by (auto simp: parse_symbol_expr_def ptry_def pbind_def consumes_def parser_defs split: option.splits sum.splits prod.splits if_splits)
qed

lemma parsePrimaryExpr_consumes [parser_consumes]: "consumes s (parsePrimaryExpr n env s)"
proof (cases n)
  case (Suc n)
  have t: "onward s (preturn x (s\<lparr>temps := t\<rparr>))" for s t and x :: mcexpr
    by (simp add: onward_def parser_defs later_def)
  show ?thesis
  proof (cases "kind_at 0 s = Tok_Eof")
    case True
    then show ?thesis by (simp add: Suc unary_operator_def consumes_fail)
  next
    case False
    then have ne: "toks s \<noteq> []" by (rule kind_tokens)
    show ?thesis
      unfolding Suc parsePrimaryExpr.simps Let_def
      by (intro consumes_if consumes_fail consumes_Lex [OF ne] parse_symbol_expr_consumes parser_moves t)
  qed
qed (simp add: parser_consumes)

lemma parseExpression_consumes [parser_consumes]: "consumes s (parseExpression n env s)"
  by (cases n) (auto intro!: parser_consumes parser_moves)

lemma tryParseRegisterOperand_consumes [parser_consumes]: "consumes s (tryParseRegisterOperand s)"
proof (cases "kind_at 0 s = Tok_Identifier")
  case False
  then show ?thesis
    by (simp add: tryParseRegisterOperand_def parseRegister_def pbind_def parser_defs consumes_def)
next
  case True
  then have ne: "toks s \<noteq> []" by (intro kind_tokens) simp
  show ?thesis
  proof (cases "kind_at 1 s = Tok_Colon")
    case col: True
    have "consumes s (parseRegister s)"
      unfolding parseRegister_def using True col ne by (auto intro!: consumes_Lex parser_moves)
    then show ?thesis unfolding tryParseRegisterOperand_def by (intro parser_consumes parser_moves)
  next
    case False
    with True ne show ?thesis
      by (auto simp: tryParseRegisterOperand_def parseRegister_def pbind_def parser_defs consumes_def)
  qed
qed

lemma tryParseRelocExpression_consumes [parser_consumes]: "consumes s (tryParseRelocExpression n env s)"
proof -
  have r: "consumes s (if kind_at 0 s \<noteq> Tok_Identifier \<or> kind_at 1 s \<noteq> Tok_LParen then pfail s
       else let ModifierKind = getKindByName (tk_string (tok_at 0 s))
            in if ModifierKind = VK_SNES_None then Error ''unknown modifier'' s
               else pbind Lex (\<lambda>_. pbind Lex (\<lambda>_. pbind (parseExpression n env) (\<lambda>InnerExpression s.
                 if kind_at 0 s \<noteq> Tok_RParen then pstop (Assertion ''Parser.getTok().getKind() == AsmToken::RParen'') s
                 else pbind Lex (\<lambda>_. push_operand (k_Immediate (SNESMCExpr ModifierKind InnerExpression neg))) s))) s)" for s neg
    using kind_tokens [of s] unfolding Let_def
    by (intro consumes_if consumes_Lex parser_moves parser_consumes) simp_all
  show ?thesis
    unfolding tryParseRelocExpression_def by (intro consumes_after parser_moves r)
qed

lemma ptry_consumes:
  assumes "consumes s (m s)" "onward s (m s)" "\<And>s'. m s = Some (Inr (None, s')) \<Longrightarrow> consumes s (k s')"
  shows "consumes s (ptry m (\<lambda>r. if r \<noteq> None then preturn () else k) s)"
  using assms unfolding ptry_def
  by (auto simp: consumes_def parser_defs split: option.splits sum.splits prod.splits)

lemma tryParseExpression_consumes [parser_consumes]: "consumes s (tryParseExpression n env s)"
  unfolding tryParseExpression_def
proof (rule ptry_consumes)
  fix s'
  assume "tryParseRelocExpression n env s = Some (Inr (None, s'))"
  with tryParseRelocExpression_moves [of s n env] have "later s s'" by (simp add: onward_def)
  then show "consumes s (if kind_at 0 s' \<in> {Tok_Plus, Tok_Minus} \<and> kind_at 1 s' = Tok_Identifier then pfail s'
       else pbind (parseExpression n env) (\<lambda>Expression. push_operand (k_Immediate Expression)) s')"
    by (rule consumes_later) (intro parser_consumes parser_moves)
qed (intro parser_consumes parser_moves)+

lemma sign_as_token_consumes: "later s s' \<Longrightarrow> toks s \<noteq> [] \<Longrightarrow> consumes s (sign_as_token s')"
proof -
  assume l: "later s s'" and ne: "toks s \<noteq> []"
  have "length (tl (toks s')) < length (toks s)"
    using later_length [OF l] ne by (cases "toks s'"; cases "toks s") auto
  then show ?thesis by (simp add: sign_as_token_def consumes_def pbind_def parser_defs)
qed

lemma parseOperand_consumes [parser_consumes]: "consumes s (parseOperand n env s)"
proof -
  have ne: "toks s \<noteq> []" if "kind_at 0 s \<in> {Tok_Plus, Tok_Minus}" using that by (intro kind_tokens) auto
  have 1: "consumes s (ptry tryParseRegisterOperand (\<lambda>r. if r \<noteq> None then preturn () else tryParseExpression n env) s)"
    using tryParseRegisterOperand_moves [of s]
    by (intro ptry_consumes parser_consumes parser_moves) (auto simp: onward_def intro: consumes_later parser_consumes)
  have 2: "consumes s (ptry (tryParseExpression n env) (\<lambda>r. if r \<noteq> None then preturn () else sign_as_token) s)"
    if "kind_at 0 s \<in> {Tok_Plus, Tok_Minus}"
    using tryParseExpression_moves [of s n env] ne [OF that]
    by (intro ptry_consumes parser_consumes parser_moves) (auto simp: onward_def intro: sign_as_token_consumes)
  show ?thesis
    unfolding parseOperand_def Let_def using 1 2 ne sign_as_token_consumes [of s s]
    by (intro consumes_if parser_consumes) auto
qed

lemma parseMemriOperand_consumes [parser_consumes]: "consumes s (parseMemriOperand n env s)"
proof -
  have "consumes s' ((if RegNo = NoRegister then pfail
       else pbind Lex (\<lambda>_. pbind (parseExpression n env) (\<lambda>Expression. push_operand (k_Memri RegNo Expression)))) s')"
    for s' RegNo
  proof -
    have "onward s' (Lex s')" by (intro parser_moves)
    have "consumes s' (pbind Lex (\<lambda>_. pbind (parseExpression n env) (\<lambda>Expression. push_operand (k_Memri RegNo Expression))) s')"
    proof (cases "toks s' = []")
      case True
      have "consumes (s'\<lparr>toks := tl (toks s')\<rparr>) (pbind (parseExpression n env) (\<lambda>Expression. push_operand (k_Memri RegNo Expression)) (s'\<lparr>toks := tl (toks s')\<rparr>))"
        by (intro parser_consumes parser_moves)
      with True show ?thesis by (simp add: pbind_def [of Lex] parser_defs consumes_def)
    qed (intro consumes_Lex parser_moves)
    then show ?thesis by (simp add: consumes_fail)
  qed
  then show ?thesis
    unfolding parseMemriOperand_def by (intro consumes_after parser_moves)
qed

section \<open>Bounds that are enough\<close>

named_theorems parser_ends \<open>parsers that do not use up a bound\<close>

lemma ends_basic [parser_ends]:
  "preturn x s \<noteq> None" "pfail s \<noteq> None" "pstop e s \<noteq> None" "Lex s \<noteq> None" "Error msg s \<noteq> None" "push_operand op s \<noteq> None"
  by (simp_all add: parser_defs)

lemma ends_pbind:
  "m s \<noteq> None \<Longrightarrow> (\<And>x s'. m s = Some (Inr (Some x, s')) \<Longrightarrow> f x s' \<noteq> None) \<Longrightarrow> pbind m f s \<noteq> None"
  by (auto simp: pbind_def split: option.splits sum.splits prod.splits)

lemma ends_ptry:
  "m s \<noteq> None \<Longrightarrow> (\<And>r s'. m s = Some (Inr (r, s')) \<Longrightarrow> f r s' \<noteq> None) \<Longrightarrow> ptry m f s \<noteq> None"
  by (auto simp: ptry_def split: option.splits sum.splits prod.splits)

lemma ends_Lex: "f () (s\<lparr>toks := tl (toks s)\<rparr>) \<noteq> None \<Longrightarrow> pbind Lex f s \<noteq> None"
  by (simp add: pbind_def parser_defs)

lemma ends_if [parser_ends]: "(b \<Longrightarrow> r \<noteq> None) \<Longrightarrow> (\<not> b \<Longrightarrow> r' \<noteq> None) \<Longrightarrow> (if b then r else r') \<noteq> None"
  by simp

lemma parse_symbol_expr_ends [parser_ends]: "parse_symbol_expr env s \<noteq> None"
proof -
  have i: "parseIdentifier env t \<noteq> None" for t
    by (simp add: parseIdentifier_def pbind_def parser_defs)
  have c: "create_symbol_ref env nm v t \<noteq> None" for nm v t
    by (auto simp: create_symbol_ref_def parser_defs split: option.splits)
  have v: "symbol_variant env K nm t \<noteq> None" for K nm t
    unfolding symbol_variant_def by (intro ends_if ends_Lex ends_ptry i parser_ends) (auto simp: parser_defs split: option.splits)
  have "symbol_reference env K nm t \<noteq> None" for K nm t
    unfolding symbol_reference_def by (intro ends_pbind v) (use c in \<open>auto simp: parser_defs split: prod.splits option.splits\<close>)
  then show ?thesis
    unfolding parse_symbol_expr_def by (intro ends_ptry i) (auto simp: parser_defs split: option.splits)
qed

lemma number_or_label_ends [parser_ends]: "number_or_label env v s \<noteq> None"
  by (auto simp: number_or_label_def Let_def pbind_def parser_defs split: prod.splits option.splits)

lemma variant_suffix_ends [parser_ends]: "variant_suffix env Res s \<noteq> None"
  by (auto simp: variant_suffix_def Let_def pbind_def parser_defs split: prod.splits option.splits)

lemma fold_constant_ends [parser_ends]: "fold_constant Res s \<noteq> None"
  by (auto simp: fold_constant_def parser_defs split: sum.splits option.splits)

lemma expression_ends:
  "(2 * length (toks s) + 1 \<le> n \<longrightarrow> parsePrimaryExpr n env s \<noteq> None)
   \<and> (2 * length (toks s) + 1 \<le> n \<longrightarrow> 1 \<le> prec \<longrightarrow> parseBinOpRHS n env prec Res s \<noteq> None)
   \<and> (2 * length (toks s) + 2 \<le> n \<longrightarrow> parseExpression n env s \<noteq> None)"
proof (induction n arbitrary: s prec Res)
  case (Suc n)
  note primary = Suc [THEN conjunct1, rule_format]
    and binop = Suc [THEN conjunct2, THEN conjunct1, rule_format]
    and expr = Suc [THEN conjunct2, THEN conjunct2, rule_format]
  have l: "length (tl (toks s)) = length (toks s) - 1" by simp
  have 1: "parsePrimaryExpr (Suc n) env s \<noteq> None" if b: "2 * length (toks s) + 1 \<le> Suc n"
  proof (cases "kind_at 0 s = Tok_Eof")
    case True
    then show ?thesis by (simp add: unary_operator_def parser_defs)
  next
    case False
    then have "0 < length (toks s)" using kind_tokens [of s] by auto
    then have t: "2 * length (toks (s\<lparr>toks := tl (toks s)\<rparr>)) + 1 \<le> n" "2 * length (toks (s\<lparr>toks := tl (toks s)\<rparr>)) + 2 \<le> n"
      using b by (cases "toks s"; simp)+
    show ?thesis
      unfolding parsePrimaryExpr.simps Let_def
      by (intro ends_if ends_Lex ends_pbind primary [OF t(1)] expr [OF t(2)] parser_ends)
  qed
  have 2: "parseBinOpRHS (Suc n) env prec Res s \<noteq> None" if b: "2 * length (toks s) + 1 \<le> Suc n" "1 \<le> prec"
  proof (cases "fst (getGNUBinOpPrecedence (kind_at 0 s)) < prec")
    case True
    then show ?thesis by (simp add: case_prod_beta Let_def parser_defs)
  next
    case False
    let ?s = "s\<lparr>toks := tl (toks s)\<rparr>"
    have "kind_at 0 s \<noteq> Tok_Eof" using False b(2) by (auto simp: getGNUBinOpPrecedence_def)
    then have pos: "0 < length (toks s)" using kind_tokens [of s] by auto
    have p: "parsePrimaryExpr n env ?s \<noteq> None" using b pos by (intro primary) (cases "toks s"; simp)
    have after: "2 * length (toks s') + 1 \<le> n" if "parsePrimaryExpr n env ?s = Some (Inr (Some x, s'))" for x s'
      using parsePrimaryExpr_consumes [of ?s n env] that b pos by (cases "toks s") (auto simp: consumes_def)
    have rest: "parseBinOpRHS n env q R s'' \<noteq> None" if "later s' s''" "2 * length (toks s') + 1 \<le> n" "1 \<le> q" for s' s'' q R
      using that later_length [of s' s''] by (intro binop) auto
    show ?thesis
      unfolding parseBinOpRHS.simps case_prod_beta Let_def using False
    proof (simp only: if_False, intro ends_Lex ends_pbind)
      show "parsePrimaryExpr n env ?s \<noteq> None" by (rule p)
    next
      fix x s'
      assume "parsePrimaryExpr n env ?s = Some (Inr (Some x, s'))"
      then have a: "2 * length (toks s') + 1 \<le> n" by (rule after)
      show "(if fst (getGNUBinOpPrecedence (kind_at 0 s)) < fst (getGNUBinOpPrecedence (kind_at 0 s'))
        then parseBinOpRHS n env (fst (getGNUBinOpPrecedence (kind_at 0 s)) + 1) x s' else preturn x s') \<noteq> None"
        using rest [OF later_refl a] by (auto simp: parser_defs)
      fix y s''
      assume "(if fst (getGNUBinOpPrecedence (kind_at 0 s)) < fst (getGNUBinOpPrecedence (kind_at 0 s'))
        then parseBinOpRHS n env (fst (getGNUBinOpPrecedence (kind_at 0 s)) + 1) x s' else preturn x s')
        = Some (Inr (Some y, s''))"
      then have "later s' s''"
        using expression_moves(2) [where s = s'] by (auto simp: onward_def parser_defs split: if_splits)
      then show "parseBinOpRHS n env prec (MCBinaryExpr (snd (getGNUBinOpPrecedence (kind_at 0 s))) Res y) s'' \<noteq> None"
        using a b(2) by (rule rest)
    qed
  qed
  have 3: "parseExpression (Suc n) env s \<noteq> None" if b: "2 * length (toks s) + 2 \<le> Suc n"
  proof -
    have "parsePrimaryExpr n env s \<noteq> None" using b by (intro primary) simp
    moreover have "parseBinOpRHS n env 1 x s' \<noteq> None" if "parsePrimaryExpr n env s = Some (Inr (Some x, s'))" for x s'
      using parsePrimaryExpr_consumes [of s n env] that b by (intro binop) (auto simp: consumes_def)
    ultimately show ?thesis
      unfolding parseExpression.simps by (intro ends_pbind parser_ends)
  qed
  from 1 2 3 show ?case by blast
qed simp

text \<open>A bound on the calls that is enough for the tokens of a state, and stays enough.\<close>

definition enough :: "nat \<Rightarrow> asm_state \<Rightarrow> bool" where
  "enough n s = (2 * length (toks s) + 2 \<le> n)"

lemma enough_later: "enough n s \<Longrightarrow> later s s' \<Longrightarrow> enough n s'"
  using later_length [of s s'] by (simp add: enough_def)

lemma enough_after: "enough n s \<Longrightarrow> onward s res \<Longrightarrow> res = Some (Inr (r, s')) \<Longrightarrow> enough n s'"
  unfolding onward_def using enough_later by blast

lemma parseExpression_ends: "enough n s \<Longrightarrow> parseExpression n env s \<noteq> None"
  using expression_ends [of s n env] by (simp add: enough_def)

lemma parseRegister_ends: "parseRegister s \<noteq> None"
  by (simp add: parseRegister_def pbind_def parser_defs)

lemma tryParseRegisterOperand_ends: "tryParseRegisterOperand s \<noteq> None"
  unfolding tryParseRegisterOperand_def
  by (intro ends_pbind parseRegister_ends) (simp add: pbind_def parser_defs)

lemma tryParseRelocExpression_ends:
  assumes "enough n s"
  shows "tryParseRelocExpression n env s \<noteq> None"
proof -
  have sg: "sign_of_modifier s \<noteq> None" by (simp add: sign_of_modifier_def pbind_def parser_defs)
  have L: "enough n (t\<lparr>toks := tl (toks t)\<rparr>)" if "enough n t" for t
    using that by (simp add: enough_def)
  show ?thesis
    unfolding tryParseRelocExpression_def Let_def
  proof (intro ends_Lex ends_pbind sg ends_if parser_ends)
    fix x s'
    assume "sign_of_modifier s = Some (Inr (Some x, s'))"
    with enough_after [OF assms sign_of_modifier_moves] have "enough n s'" by blast
    then show "parseExpression n env (s'\<lparr>toks := tl (toks s')\<rparr>\<lparr>toks := tl (toks (s'\<lparr>toks := tl (toks s')\<rparr>))\<rparr>) \<noteq> None"
      by (intro parseExpression_ends L)
  qed
qed

lemma tryParseExpression_ends:
  assumes "enough n s"
  shows "tryParseExpression n env s \<noteq> None"
  unfolding tryParseExpression_def
proof (intro ends_ptry tryParseRelocExpression_ends assms)
  fix r s'
  assume "tryParseRelocExpression n env s = Some (Inr (r, s'))"
  with enough_after [OF assms tryParseRelocExpression_moves] have "enough n s'" by blast
  then have "pbind (parseExpression n env) (\<lambda>Expression. push_operand (k_Immediate Expression)) s' \<noteq> None"
    by (intro ends_pbind parseExpression_ends parser_ends)
  then show "(if r \<noteq> None then preturn () else (\<lambda>s.
       if kind_at 0 s \<in> {Tok_Plus, Tok_Minus} \<and> kind_at 1 s = Tok_Identifier then pfail s
       else pbind (parseExpression n env) (\<lambda>Expression. push_operand (k_Immediate Expression)) s)) s' \<noteq> None"
    by (cases r) (simp_all add: parser_ends del: not_None_eq)
qed

lemma sign_as_token_ends: "sign_as_token s \<noteq> None"
  by (simp add: sign_as_token_def pbind_def parser_defs)

lemma parseOperand_ends:
  assumes "enough n s"
  shows "parseOperand n env s \<noteq> None"
proof -
  have "ptry tryParseRegisterOperand (\<lambda>r. if r \<noteq> None then preturn () else tryParseExpression n env) s \<noteq> None"
  proof (intro ends_ptry tryParseRegisterOperand_ends)
    fix r s'
    assume "tryParseRegisterOperand s = Some (Inr (r, s'))"
    with enough_after [OF assms tryParseRegisterOperand_moves] have "enough n s'" by blast
    then show "(if r \<noteq> None then preturn () else tryParseExpression n env) s' \<noteq> None"
      by (cases r) (auto simp: tryParseExpression_ends parser_ends simp del: not_None_eq)
  qed
  moreover have "ptry (tryParseExpression n env) (\<lambda>r. if r \<noteq> None then preturn () else sign_as_token) s \<noteq> None"
    by (intro ends_ptry tryParseExpression_ends assms) (auto simp: parser_ends sign_as_token_ends simp del: not_None_eq)
  ultimately show ?thesis
    unfolding parseOperand_def Let_def using assms
    by (auto simp: tryParseExpression_ends sign_as_token_ends parser_ends simp del: not_None_eq)
qed

lemma parseMemriOperand_ends:
  assumes "enough n s"
  shows "parseMemriOperand n env s \<noteq> None"
  unfolding parseMemriOperand_def
proof (intro ends_pbind parseRegister_ends)
  fix r s'
  assume "parseRegister s = Some (Inr (Some r, s'))"
  with enough_after [OF assms parseRegister_moves] have "enough n (s'\<lparr>toks := tl (toks s')\<rparr>)"
    by (force simp: enough_def)
  then have "pbind Lex (\<lambda>_. pbind (parseExpression n env) (\<lambda>Expression. push_operand (k_Memri r Expression))) s' \<noteq> None"
    by (intro ends_Lex ends_pbind parseExpression_ends parser_ends)
  then show "(if r = NoRegister then pfail
       else pbind Lex (\<lambda>_. pbind (parseExpression n env) (\<lambda>Expression. push_operand (k_Memri r Expression)))) s' \<noteq> None"
    by (simp add: parser_ends del: not_None_eq)
qed

text \<open>
  How the operand loop ends: just after the end of a statement. When it has failed, that may
  also be the end of the file.
\<close>

definition loop_messages :: "string list" where
  "loop_messages = [''failed to parse register and immediate pair'', ''unexpected token in argument list'']"

definition past_statement :: "asm_state \<Rightarrow> asm_state \<Rightarrow> bool" where
  "past_statement s s' = (\<exists>pre t. toks s = pre @ t # toks s' \<and> tk_kind t = Tok_EndOfStatement)"

definition loop_result :: "asm_state \<Rightarrow> (unit option \<times> asm_state) outcome option \<Rightarrow> bool" where
  "loop_result s res = (case res of
     None \<Rightarrow> False
   | Some (Inl e) \<Rightarrow> True
   | Some (Inr (r, s')) \<Rightarrow> later s s' \<and> (case r of
       Some u \<Rightarrow> past_statement s s'
     | None \<Rightarrow> (past_statement s s' \<or> toks s' = []) \<and> diags s' \<noteq> [] \<and> last (diags s') \<in> set loop_messages))"

lemma past_statement_later: "later s s' \<Longrightarrow> past_statement s' t \<Longrightarrow> past_statement s t"
  unfolding later_def past_statement_def by (metis append.assoc)

lemma loop_result_later: "later s s' \<Longrightarrow> loop_result s' r \<Longrightarrow> loop_result s r"
  by (auto simp: loop_result_def intro: later_trans past_statement_later split: option.splits sum.splits prod.splits)

lemma loop_result_eat:
  assumes "msg \<in> set loop_messages"
  shows "loop_result s (pbind eatToEndOfStatement (\<lambda>_. Error msg) s)"
proof -
  let ?ts = "dropWhile (\<lambda>t. tk_kind t \<noteq> Tok_EndOfStatement) (toks s)"
  let ?s = "s\<lparr>toks := tl ?ts, diags := diags s @ [msg]\<rparr>"
  have "past_statement s ?s \<or> tl ?ts = []"
  proof (cases ?ts)
    case (Cons t ts)
    then have "tk_kind t = Tok_EndOfStatement" using hd_dropWhile [of "\<lambda>t. tk_kind t \<noteq> Tok_EndOfStatement" "toks s"] by auto
    moreover have "toks s = takeWhile (\<lambda>t. tk_kind t \<noteq> Tok_EndOfStatement) (toks s) @ t # ts"
      using takeWhile_dropWhile_id [of "\<lambda>t. tk_kind t \<noteq> Tok_EndOfStatement" "toks s"] by (simp add: Cons)
    ultimately show ?thesis by (auto simp: past_statement_def Cons)
  next
    case Nil
    then show ?thesis by (simp only: list.sel(2))  simp
  qed
  moreover have "later s ?s" by (rule later_eaten)
  ultimately show ?thesis
    using assms by (simp add: loop_result_def pbind_def eatToEndOfStatement_def parser_defs)
qed

lemma operand_loop_result:
  "enough n s \<Longrightarrow> length (toks s) < k \<Longrightarrow> loop_result s (operand_loop k n env custom M first s)"
proof (induction k arbitrary: first s)
  case (Suc k)
  show ?case
  proof (cases "kind_at 0 s = Tok_EndOfStatement")
    case True
    then have "toks s \<noteq> []" by (intro kind_tokens) simp
    then obtain t ts where "toks s = t # ts" by (cases "toks s") auto
    with True have "past_statement s (s\<lparr>toks := tl (toks s)\<rparr>)"
      by (auto simp: past_statement_def kind_at_def tok_at_def intro: exI [of _ "[]"])
    with True show ?thesis using onward_basic(5) [of s] by (simp add: loop_result_def onward_def parser_defs)
  next
    case False
    let ?body = "\<lambda>s. if custom (parsed s) M
        then ptry (parseMemriOperand n env) (\<lambda>r. if r \<noteq> None then operand_loop k n env custom M False
               else pbind eatToEndOfStatement (\<lambda>_. Error ''failed to parse register and immediate pair'')) s
        else ptry (parseOperand n env) (\<lambda>r. if r \<noteq> None then operand_loop k n env custom M False
               else pbind eatToEndOfStatement (\<lambda>_. Error ''unexpected token in argument list'')) s"
    have step: "loop_result t (ptry m (\<lambda>r. if r \<noteq> None then operand_loop k n env custom M False
               else pbind eatToEndOfStatement (\<lambda>_. Error msg)) t)"
      if t: "later s t" and m: "m t \<noteq> None" "onward t (m t)" "consumes t (m t)" and msg: "msg \<in> set loop_messages"
      for t msg and m :: "unit parser"
    proof (cases "m t")
      case None
      with m(1) show ?thesis by simp
    next
      case (Some r)
      show ?thesis
      proof (cases r)
        case (Inl e)
        with Some show ?thesis by (simp add: ptry_def loop_result_def)
      next
        case (Inr q)
        obtain u t' where q: "q = (u, t')" by (cases q)
        have l: "later t t'" using m(2) Some Inr q by (simp add: onward_def)
        show ?thesis
        proof (cases u)
          case None
          have "loop_result t (pbind eatToEndOfStatement (\<lambda>_. Error msg) t')"
            using loop_result_later [OF l loop_result_eat [OF msg]] .
          with Some Inr q None show ?thesis by (simp add: ptry_def)
        next
          case (Some v)
          have "length (toks t') < length (toks t)" using m(3) \<open>m t = Some r\<close> Inr q Some by (simp add: consumes_def)
          then have "length (toks t') < k" using later_length [OF t] Suc.prems(2) by simp
          moreover have "enough n t'" using enough_later [OF Suc.prems(1) later_trans [OF t l]] .
          ultimately have "loop_result t (operand_loop k n env custom M False t')"
            using loop_result_later [OF l] Suc.IH by blast
          with \<open>m t = Some r\<close> Inr q Some show ?thesis by (simp add: ptry_def)
        qed
      qed
    qed
    have body: "loop_result t (?body t)" if "later s t" for t
      using step [of t "parseMemriOperand n env", OF that parseMemriOperand_ends [OF enough_later [OF Suc.prems(1) that]]
          parseMemriOperand_moves parseMemriOperand_consumes]
        step [of t "parseOperand n env", OF that parseOperand_ends [OF enough_later [OF Suc.prems(1) that]]
          parseOperand_moves parseOperand_consumes]
      by (simp add: loop_messages_def)
    have "eatComma s = Some (Inr (Some (), s)) \<or> eatComma s = Some (Inr (Some (), s\<lparr>toks := tl (toks s)\<rparr>))"
      by (simp add: eatComma_def parser_defs)
    moreover have "later s (s\<lparr>toks := tl (toks s)\<rparr>)" using onward_basic(5) [of s] by (simp add: onward_def parser_defs)
    ultimately show ?thesis
      using False body [OF later_refl] body [of "s\<lparr>toks := tl (toks s)\<rparr>"] loop_result_later [of s "s\<lparr>toks := tl (toks s)\<rparr>"]
      by (auto simp: pbind_def [of "if first then preturn () else eatComma"] pbind_def [of eatComma] pbind_def [of "preturn ()"] preturn_def)
  qed
qed simp

text \<open>
  Property C17. With bounds of twice the number of tokens, parsing the operands of an
  instruction always returns. It then stands just after the end of a statement: with the
  operands added after the name of the instruction when it succeeds, with one of its two
  messages reported last when it fails (then the text may also be used up). The other results
  are assertions of the code.
\<close>

theorem ParseInstruction_returns:
  assumes "2 * length (toks s) + 2 \<le> n" "length (toks s) < k"
  shows "case ParseInstruction k n env custom M s of
      None \<Rightarrow> False
    | Some (Inl e) \<Rightarrow> True
    | Some (Inr (None, s')) \<Rightarrow> (past_statement s s' \<or> toks s' = []) \<and> last (diags s') \<in> set loop_messages
    | Some (Inr (Some u, s')) \<Rightarrow> past_statement s s' \<and> (\<exists>ops. parsed s' = parsed s @ k_Token M # ops)"
proof -
  let ?s = "s\<lparr>parsed := parsed s @ [k_Token M]\<rparr>"
  have "loop_result ?s (operand_loop k n env custom M True ?s)"
    using assms by (intro operand_loop_result) (simp_all add: enough_def)
  moreover have "ParseInstruction k n env custom M s = operand_loop k n env custom M True ?s"
    by (simp add: ParseInstruction_def pbind_def parser_defs)
  ultimately show ?thesis
    by (auto simp: loop_result_def later_def past_statement_def split: option.splits sum.splits prod.splits)
qed

lemma ParseInstruction_returns_witness:
  "\<forall>env. \<exists>r. ParseInstruction 5 10 env (\<lambda>_ _. False) ''ldi'' \<lparr>toks = [plain_token Tok_Identifier ''al'', plain_token Tok_Comma '','',
     int_token ''5'' 5, end_token], parsed = [], diags = [], temps = 0\<rparr> = Some r"
proof
  fix env
  show "\<exists>r. ParseInstruction 5 10 env (\<lambda>_ _. False) ''ldi'' \<lparr>toks = [plain_token Tok_Identifier ''al'', plain_token Tok_Comma '','',
     int_token ''5'' 5, end_token], parsed = [], diags = [], temps = 0\<rparr> = Some r"
    using ParseInstruction_returns [where n = 10 and k = 5 and env = env and custom = "\<lambda>_ _. False" and M = "''ldi''"
      and s = "\<lparr>toks = [plain_token Tok_Identifier ''al'', plain_token Tok_Comma '','',
       int_token ''5'' 5, end_token], parsed = [], diags = [], temps = 0\<rparr>"]
    by (auto split: option.splits)
qed

end
