(* ===== verification/Asm_Roundtrip.thy ===== *)
theory Asm_Roundtrip
  imports Asm_Parser
begin

text \<open>
  Printing and parsing: what \<open>SNESInstPrinter.cpp\<close> and \<open>SNESMCExpr::printImpl\<close> write, cut
  into tokens by the lexer and read by \<open>SNESAsmParser.cpp\<close>. The texts are the operands of an
  instruction, so a comma or the end of the statement follows them.
\<close>

section \<open>Running the parser on given tokens\<close>

lemma tok_at_simps [simp]:
  "tok_at 0 (s\<lparr>toks := t # ts\<rparr>) = t"
  "tok_at (Suc i) (s\<lparr>toks := t # ts\<rparr>) = tok_at i (s\<lparr>toks := ts\<rparr>)"
  by (simp_all add: tok_at_def)

lemma kind_at_simps [simp]:
  "kind_at 0 (s\<lparr>toks := t # ts\<rparr>) = tk_kind t"
  "kind_at (Suc i) (s\<lparr>toks := t # ts\<rparr>) = kind_at i (s\<lparr>toks := ts\<rparr>)"
  "kind_at (Suc 0) (s\<lparr>toks := t # ts\<rparr>) = kind_at 0 (s\<lparr>toks := ts\<rparr>)"
  "kind_at 2 (s\<lparr>toks := t # ts\<rparr>) = kind_at 1 (s\<lparr>toks := ts\<rparr>)"
  by (simp_all add: kind_at_def numeral_2_eq_2)

lemma token_fields [simp]:
  "tk_kind (plain_token k x) = k" "tk_string (plain_token k x) = x"
  "tk_string (int_token x m) = x" "tk_int (int_token x m) = of_nat m"
  "m < 2 ^ 64 \<Longrightarrow> tk_kind (int_token x m) = Tok_Integer"
  by (simp_all add: plain_token_def int_token_def)

lemma pbind_simps [simp]:
  "pbind (preturn x) f s = f x s" "pbind pfail g s = pfail s"
  "pbind Lex h (s\<lparr>toks := t # ts\<rparr>) = h () (s\<lparr>toks := ts\<rparr>)"
  by (simp_all add: pbind_def parser_defs)

lemma pbind_Some: "m s = Some (Inr (Some x, s')) \<Longrightarrow> pbind m f s = f x s'"
  by (simp add: pbind_def)

text \<open>The kinds of the tokens that end an operand or an expression in parentheses.\<close>

definition closing :: "token \<Rightarrow> bool" where
  "closing t = (tk_kind t \<in> {Tok_EndOfStatement, Tok_Comma, Tok_RParen})"

lemma closing_stops:
  assumes "closing t"
  shows "tk_kind t \<noteq> Tok_Identifier" "tk_kind t \<noteq> Tok_At" "tk_kind t \<noteq> Tok_Colon" "tk_kind t \<noteq> Tok_LParen"
    "getGNUBinOpPrecedence (tk_kind t) = (0, Add)"
  using assms by (auto simp: closing_def getGNUBinOpPrecedence_def)

lemma parseExpression_primary:
  assumes "parsePrimaryExpr (Suc n) env s = Some (Inr (Some e, s'\<lparr>toks := t # rest\<rparr>))" "closing t"
  shows "parseExpression (Suc (Suc n)) env s = fold_constant e (s'\<lparr>toks := t # rest\<rparr>)"
proof -
  have "pbind (parsePrimaryExpr (Suc n) env) f s = f e (s'\<lparr>toks := t # rest\<rparr>)" for f :: "mcexpr \<Rightarrow> mcexpr parser"
    by (rule pbind_Some) (rule assms(1))
  moreover have "pbind (variant_suffix env e) fold_constant (s'\<lparr>toks := t # rest\<rparr>) = fold_constant e (s'\<lparr>toks := t # rest\<rparr>)"
    by (rule pbind_Some) (simp add: variant_suffix_def closing_stops [OF assms(2)] preturn_def)
  moreover have "pbind (parseBinOpRHS (Suc n) env 1 e) f (s'\<lparr>toks := t # rest\<rparr>) = f e (s'\<lparr>toks := t # rest\<rparr>)"
    for f :: "mcexpr \<Rightarrow> mcexpr parser"
    by (rule pbind_Some) (simp add: closing_stops [OF assms(2)] preturn_def)
  ultimately show ?thesis by (simp only: parseExpression.simps)
qed

lemma parse_number:
  assumes "closing t" "m < 2 ^ 64"
  shows "parsePrimaryExpr (Suc n) env (s\<lparr>toks := int_token x m # t # rest\<rparr>)
    = Some (Inr (Some (MCConstantExpr (of_nat m)), s\<lparr>toks := t # rest\<rparr>))"
  using closing_stops [OF assms(1)] assms(2)
  by (simp add: unary_operator_def number_or_label_def) (simp add: preturn_def)

text \<open>A number with or without a sign.\<close>

definition number_tokens :: "int \<Rightarrow> token list" where
  "number_tokens i = (if i < 0 then [plain_token Tok_Minus ''-''] else [])
     @ [int_token (nat_digits (nat \<bar>i\<bar>)) (nat \<bar>i\<bar>)]"

lemma abs_sint: "nat \<bar>sint (i :: u64)\<bar> < 2 ^ 64"
proof -
  have "- (2 ^ 63) \<le> sint i" "sint i < 2 ^ 63" using sint_range_size [of i] by (simp_all add: word_size)
  then show ?thesis by simp
qed

lemma parse_signed:
  assumes "closing t"
  shows "parseExpression (Suc (Suc (Suc n))) env (s\<lparr>toks := number_tokens (sint i) @ t # rest\<rparr>)
      = Some (Inr (Some (MCConstantExpr i), s\<lparr>toks := t # rest\<rparr>))"
    and "0 \<le> sint i \<Longrightarrow> parseExpression (Suc (Suc (Suc n))) env
           (s\<lparr>toks := plain_token Tok_Plus x # number_tokens (sint i) @ t # rest\<rparr>)
      = Some (Inr (Some (MCConstantExpr i), s\<lparr>toks := t # rest\<rparr>))"
proof -
  have w: "of_nat (nat \<bar>sint i\<bar>) = (if sint i < 0 then - i else i)"
    by (simp add: of_nat_nat)
  have f: "fold_constant (MCConstantExpr c) s' = Some (Inr (Some (MCConstantExpr c), s'))"
    "fold_constant (MCUnaryExpr Minus (MCConstantExpr c)) s' = Some (Inr (Some (MCConstantExpr (- c)), s'))"
    "fold_constant (MCUnaryExpr Plus (MCConstantExpr c)) s' = Some (Inr (Some (MCConstantExpr c), s'))" for c s'
    by (simp_all add: fold_constant_def eval_unary_def isAbsolute_def const_value_def obind_def preturn_def)
  note p = parse_number [OF assms abs_sint [of i]]
  show "parseExpression (Suc (Suc (Suc n))) env (s\<lparr>toks := number_tokens (sint i) @ t # rest\<rparr>)
      = Some (Inr (Some (MCConstantExpr i), s\<lparr>toks := t # rest\<rparr>))"
  proof (cases "sint i < 0")
    case True
    then have "parsePrimaryExpr (Suc (Suc n)) env (s\<lparr>toks := number_tokens (sint i) @ t # rest\<rparr>)
      = Some (Inr (Some (MCUnaryExpr Minus (MCConstantExpr (- i))), s\<lparr>toks := t # rest\<rparr>))"
      using p [where n = n] w
      by (simp only: number_tokens_def parsePrimaryExpr.simps(2) [of "Suc n"])
        (simp add: unary_operator_def pbind_def preturn_def Lex_def del: parsePrimaryExpr.simps)
    from parseExpression_primary [OF this assms] show ?thesis by (simp add: f)
  next
    case False
    with p [where n = "Suc n"] w have "parsePrimaryExpr (Suc (Suc n)) env (s\<lparr>toks := number_tokens (sint i) @ t # rest\<rparr>)
      = Some (Inr (Some (MCConstantExpr i), s\<lparr>toks := t # rest\<rparr>))"
      by (simp add: number_tokens_def del: parsePrimaryExpr.simps)
    from parseExpression_primary [OF this assms] show ?thesis by (simp add: f)
  qed
  assume "0 \<le> sint i"
  then have "parsePrimaryExpr (Suc (Suc n)) env (s\<lparr>toks := plain_token Tok_Plus x # number_tokens (sint i) @ t # rest\<rparr>)
      = Some (Inr (Some (MCUnaryExpr Plus (MCConstantExpr i)), s\<lparr>toks := t # rest\<rparr>))"
      using p [where n = n] w
      by (simp only: number_tokens_def parsePrimaryExpr.simps(2) [of "Suc n"])
        (simp add: unary_operator_def pbind_def preturn_def Lex_def del: parsePrimaryExpr.simps)
  from parseExpression_primary [OF this assms] show "parseExpression (Suc (Suc (Suc n))) env
           (s\<lparr>toks := plain_token Tok_Plus x # number_tokens (sint i) @ t # rest\<rparr>)
      = Some (Inr (Some (MCConstantExpr i), s\<lparr>toks := t # rest\<rparr>))"
    by (simp add: f)
qed

lemma parse_symbol:
  assumes "closing t" "CHR ''@'' \<notin> set nm" "variable_value env nm = None" "nm \<noteq> []"
  shows "parseExpression (Suc (Suc n)) env (s\<lparr>toks := plain_token Tok_Identifier nm # t # rest\<rparr>)
    = Some (Inr (Some (MCSymbolRefExpr \<lparr>sym_name = nm, sym_temporary = False\<rparr> VK_None), s\<lparr>toks := t # rest\<rparr>))"
proof -
  have "split_at nm = (nm, [])"
    using assms(2) by (induction nm) (auto simp: split_at_def)
  then have "parsePrimaryExpr (Suc n) env (s\<lparr>toks := plain_token Tok_Identifier nm # t # rest\<rparr>)
    = Some (Inr (Some (MCSymbolRefExpr \<lparr>sym_name = nm, sym_temporary = False\<rparr> VK_None), s\<lparr>toks := t # rest\<rparr>))"
    using assms(4)
    by (simp add: unary_operator_def parse_symbol_expr_def parseIdentifier_def symbol_reference_def symbol_variant_def
        create_symbol_ref_def getIdentifier_def ptry_def pbind_def preturn_def Lex_def assms(3))
  from parseExpression_primary [OF this assms(1)] show ?thesis
    by (simp add: fold_constant_def isAbsolute_def preturn_def)
qed

section \<open>Tokens of printed operands\<close>

lemma lex_to_string: "lex (to_string i) = Some (number_tokens i)"
  and lex_signed: "lex (CHR ''+'' # to_string i) = Some (plain_token Tok_Plus ''+'' # number_tokens i)"
proof -
  have d: "lex (nat_digits m) = Some [int_token (nat_digits m) m]" for m
    using lex_number [of "[]" m] by simp
  have "lex (CHR ''-'' # r) = map_option ((#) (plain_token Tok_Minus ''-'')) (lex r)"
    "lex (CHR ''+'' # r) = map_option ((#) (plain_token Tok_Plus ''+'')) (lex r)" for r
    by (rule lex_single; simp add: single_chars_def is_blank_def isalpha_def isdigit_def code_of_def)+
  then show "lex (to_string i) = Some (number_tokens i)"
    "lex (CHR ''+'' # to_string i) = Some (plain_token Tok_Plus ''+'' # number_tokens i)"
    by (simp_all add: to_string_def number_tokens_def d del: lex.simps)
qed

definition pretty_reg :: "reg \<Rightarrow> reg" where
  "pretty_reg r = (if getSubReg_lo r \<noteq> NoRegister then getSubReg_lo r else r)"

lemma pretty_reg_name: "getPrettyRegisterName r = reg_name (pretty_reg r)"
  by (simp add: getPrettyRegisterName_def pretty_reg_def Let_def)

lemma pretty_reg_known: "r \<noteq> NoRegister \<Longrightarrow> pretty_reg r \<noteq> NoRegister"
  by (simp add: pretty_reg_def)

lemma pretty_reg_main: "class_contains MainRegs r \<Longrightarrow> toDREG (pretty_reg r) = r \<and> r \<noteq> NoRegister"
  by (auto simp: pretty_reg_def getSubReg_lo_def toDREG_def class_members_def)

lemma pretty_reg_other: "\<not> class_contains MainRegs r \<Longrightarrow> pretty_reg r = r"
  by (cases r) (simp_all add: pretty_reg_def getSubReg_lo_def)

lemma reg_name_is_name: "r \<noteq> NoRegister \<Longrightarrow> is_name (reg_name r)"
  by (cases r) (simp_all add: reg_name_def is_name_def isalpha_def IsIdentifierChar_def code_of_def)

lemma MatchRegisterName_name: "r \<noteq> NoRegister \<Longrightarrow> MatchRegisterName (reg_name r) = r"
  by (cases r) (simp_all add: MatchRegisterName_def all_regs_def reg_name_def)

lemma parseRegister_name:
  assumes "r \<noteq> NoRegister" "kind_at 0 (s\<lparr>toks := ts\<rparr>) \<noteq> Tok_Colon"
  shows "parseRegister (s\<lparr>toks := plain_token Tok_Identifier (reg_name r) # ts\<rparr>)
    = Some (Inr (Some r, s\<lparr>toks := plain_token Tok_Identifier (reg_name r) # ts\<rparr>))"
  using assms
  by (simp add: parseRegister_def parseRegisterName_def parseRegisterName_with_def MatchRegisterName_name Let_def preturn_def)

lemma toks_update [simp]: "s\<lparr>toks := a, toks := b\<rparr> = s\<lparr>toks := b\<rparr>"
  by simp

lemma parse_printed_register:
  assumes "r \<noteq> NoRegister" "closing t"
  shows "parseOperand n env (s\<lparr>toks := plain_token Tok_Identifier (reg_name r) # t # rest\<rparr>)
    = Some (Inr (Some (), s\<lparr>toks := t # rest, parsed := parsed s @ [k_Register r]\<rparr>))"
proof -
  let ?s = "s\<lparr>toks := plain_token Tok_Identifier (reg_name r) # t # rest\<rparr>"
  have "parseRegister ?s = Some (Inr (Some r, ?s))"
    using closing_stops [OF assms(2)] by (intro parseRegister_name assms(1)) simp
  then have "tryParseRegisterOperand ?s = Some (Inr (Some (), s\<lparr>toks := t # rest, parsed := parsed s @ [k_Register r]\<rparr>))"
    by (simp add: tryParseRegisterOperand_def pbind_def parser_defs assms(1))
  then show ?thesis by (simp add: parseOperand_def ptry_def preturn_def)
qed

lemma number_kinds [simp]:
  "kind_at 0 (s\<lparr>toks := number_tokens (sint (i :: u64)) @ ts\<rparr>) = (if sint i < 0 then Tok_Minus else Tok_Integer)"
  "kind_at (Suc 0) (s\<lparr>toks := number_tokens (sint i) @ ts\<rparr>) = (if sint i < 0 then Tok_Integer else kind_at 0 (s\<lparr>toks := ts\<rparr>))"
  using token_fields(5) [OF abs_sint [of i]] by (auto simp: number_tokens_def)

lemma no_modifier:
  assumes "kind_at 0 s \<noteq> Tok_Identifier" "kind_at 1 s \<noteq> Tok_Identifier"
  shows "tryParseRelocExpression n env s = Some (Inr (None, s))"
proof -
  have "sign_of_modifier s = Some (Inr (Some False, s))" using assms by (simp add: sign_of_modifier_def preturn_def)
  then show ?thesis using assms(1) by (simp add: tryParseRelocExpression_def pbind_def pfail_def)
qed

lemma parse_printed_number:
  assumes "closing t" "3 \<le> n"
  shows "parseOperand n env (s\<lparr>toks := number_tokens (sint i) @ t # rest\<rparr>)
    = Some (Inr (Some (), s\<lparr>toks := t # rest, parsed := parsed s @ [k_Immediate (MCConstantExpr i)]\<rparr>))"
proof -
  obtain k where n: "n = Suc (Suc (Suc k))" using assms(2) by (auto simp: numeral_3_eq_3 Suc_le_eq dest!: less_imp_Suc_add)
  let ?s = "s\<lparr>toks := number_tokens (sint i) @ t # rest\<rparr>"
  note c = closing_stops [OF assms(1)]
  have "tryParseRelocExpression n env ?s = Some (Inr (None, ?s))"
    using c by (intro no_modifier) simp_all
  moreover have "\<not> (kind_at 0 ?s \<in> {Tok_Plus, Tok_Minus} \<and> kind_at 1 ?s = Tok_Identifier)"
    using c by simp
  moreover have "pbind (parseExpression n env) (\<lambda>Expression. push_operand (k_Immediate Expression)) ?s
      = Some (Inr (Some (), s\<lparr>toks := t # rest, parsed := parsed s @ [k_Immediate (MCConstantExpr i)]\<rparr>))"
    unfolding n pbind_def parse_signed(1) [OF assms(1)] by (simp add: parser_defs)
  ultimately have "tryParseExpression n env ?s
      = Some (Inr (Some (), s\<lparr>toks := t # rest, parsed := parsed s @ [k_Immediate (MCConstantExpr i)]\<rparr>))"
    by (simp add: tryParseExpression_def ptry_def)
  then show ?thesis
    by (simp add: parseOperand_def ptry_def preturn_def)
qed

text \<open>
  Property C18. A printed register or immediate operand is cut into tokens that the parser
  reads back: an immediate and an 8-bit register as they were, a 16-bit register as its low
  half, from which the check of the operand class recovers it where a register pair is
  expected.
\<close>

theorem printed_operand_parsed:
  assumes "case op of MCReg r \<Rightarrow> r \<noteq> NoRegister | MCImm i \<Rightarrow> True | _ \<Rightarrow> False"
    and "tk_kind t = Tok_Comma \<or> tk_kind t = Tok_EndOfStatement" "3 \<le> n"
  shows "\<exists>txt ts po. printOperand penv \<lparr>getOpcode = opc, mc_operands = [op]\<rparr> 0 '''' = Inr txt \<and> lex txt = Some ts
     \<and> parseOperand n env (s\<lparr>toks := ts @ t # rest\<rparr>) = Some (Inr (Some (), s\<lparr>toks := t # rest, parsed := parsed s @ [po]\<rparr>))
     \<and> (case op of MCReg r \<Rightarrow> (if class_contains MainRegs r
            then validateTargetOperandClass validate True po = (validate (k_Register r), k_Register r)
            else add_operands po = Inr [op])
        | _ \<Rightarrow> add_operands po = Inr [op])"
proof -
  have t: "closing t" using assms(2) by (auto simp: closing_def)
  show ?thesis
  proof (cases op)
    case (MCReg r)
    with assms(1) have r: "r \<noteq> NoRegister" by simp
    have "lex (reg_name (pretty_reg r)) = Some [plain_token Tok_Identifier (reg_name (pretty_reg r))]"
      using lex_name [OF reg_name_is_name [OF pretty_reg_known [OF r]], of "[]"] by simp
    moreover have "validateTargetOperandClass validate True (k_Register (pretty_reg r)) = (validate (k_Register r), k_Register r)"
      if "class_contains MainRegs r"
      using pretty_reg_main [OF that] by (simp add: validateTargetOperandClass_def)
    moreover have "printOperand penv \<lparr>getOpcode = opc, mc_operands = [op]\<rparr> 0 '''' = Inr (reg_name (pretty_reg r))"
      by (simp add: MCReg printOperand_def mc_getOperand_def pretty_reg_name)
    moreover note parse_printed_register [OF pretty_reg_known [OF r] t, where n = n and env = env and s = s and rest = rest]
    ultimately show ?thesis
      using pretty_reg_other [of r]
      by (intro exI [of _ "reg_name (pretty_reg r)"] exI [of _ "k_Register (pretty_reg r)"]
            exI [of _ "[plain_token Tok_Identifier (reg_name (pretty_reg r))]"])
        (simp add: MCReg add_operands_def del: class_contains_Main)
  next
    case (MCImm i)
    then have "printOperand penv \<lparr>getOpcode = opc, mc_operands = [op]\<rparr> 0 '''' = Inr (to_string (sint i))"
      by (simp add: printOperand_def mc_getOperand_def)
    with parse_printed_number [OF t assms(3), where env = env and s = s and i = i and rest = rest] show ?thesis
      by (intro exI [of _ "to_string (sint i)"] exI [of _ "number_tokens (sint i)"]
            exI [of _ "k_Immediate (MCConstantExpr i)"]) (simp add: MCImm lex_to_string add_operands_def addExpr_def)
  qed (use assms(1) in simp_all)
qed

lemma printed_operand_parsed_witness:
  "\<forall>penv opc env s. \<exists>txt ts po. printOperand penv \<lparr>getOpcode = opc, mc_operands = [MCReg SNES_X]\<rparr> 0 '''' = Inr txt \<and> lex txt = Some ts
     \<and> parseOperand 3 env (s\<lparr>toks := ts @ [end_token]\<rparr>) = Some (Inr (Some (), s\<lparr>toks := [end_token], parsed := parsed s @ [po]\<rparr>))
     \<and> validateTargetOperandClass (\<lambda>_. True) True po = (True, k_Register SNES_X)"
  using printed_operand_parsed [where op = "MCReg SNES_X" and t = end_token and n = 3 and validate = "\<lambda>_. True" and rest = "[]"]
  by (simp add: end_token_def)

text \<open>
  Property C20. A pointer register with displacement is printed with the low half of the
  register, the parser of such operands keeps that half, and the code emitter has no case
  for it: the printed text of every operand that the emitter encodes stops the emitter when it is assembled.
\<close>

theorem printed_memri_not_encodable:
  assumes "class_contains MainRegs r" "tk_kind t = Tok_Comma \<or> tk_kind t = Tok_EndOfStatement" "3 \<le> n"
  shows "\<exists>txt ts po ops. printMemri penv \<lparr>getOpcode = opc, mc_operands = [MCReg r, MCImm i]\<rparr> 0 '''' = Inr txt
     \<and> lex txt = Some ts
     \<and> parseMemriOperand n env (s\<lparr>toks := ts @ t # rest\<rparr>) = Some (Inr (Some (), s\<lparr>toks := t # rest, parsed := parsed s @ [po]\<rparr>))
     \<and> validateTargetOperandClass validate pair_class po = (False, po)
     \<and> add_operands po = Inr ops \<and> ops ! 1 = MCImm i
     \<and> encodeMemri \<lparr>getOpcode = opc, mc_operands = ops\<rparr> 0 Fs = Inl (Unreachable ''Expected either Y or Z register'')"
proof -
  have t: "closing t" using assms(2) by (auto simp: closing_def)
  obtain k where n: "n = Suc (Suc (Suc k))" using assms(3) by (auto simp: numeral_3_eq_3 Suc_le_eq dest!: less_imp_Suc_add)
  let ?p = "pretty_reg r" and ?nm = "plain_token Tok_Identifier (reg_name (pretty_reg r))"
  let ?num = "(if 0 \<le> sint i then [plain_token Tok_Plus ''+''] else []) @ number_tokens (sint i)"
  let ?txt = "(if 0 \<le> sint i then ''+'' else '''') @ to_string (sint i)"
  have r: "?p \<noteq> NoRegister" using pretty_reg_main [OF assms(1)] pretty_reg_known by simp
  have "?txt \<noteq> [] \<and> \<not> IsIdentifierChar (hd ?txt)"
    by (simp add: to_string_def IsIdentifierChar_def isalpha_def isdigit_def code_of_def)
  then have "lex (reg_name ?p @ ?txt) = map_option ((#) ?nm) (lex ?txt)"
    by (intro lex_name reg_name_is_name r) simp
  then have lx: "lex (reg_name ?p @ ?txt) = Some (?nm # ?num)"
    by (simp add: lex_to_string lex_signed del: lex.simps)
  have col: "kind_at 0 (s\<lparr>toks := ?num @ t # rest\<rparr>) \<noteq> Tok_Colon"
    by simp
  have e: "parseExpression n env (s\<lparr>toks := ?num @ t # rest\<rparr>) = Some (Inr (Some (MCConstantExpr i), s\<lparr>toks := t # rest\<rparr>))"
    using parse_signed [OF t] unfolding n by (cases "0 \<le> sint i") simp_all
  have "parseMemriOperand n env (s\<lparr>toks := (?nm # ?num) @ t # rest\<rparr>)
      = Some (Inr (Some (), s\<lparr>toks := t # rest, parsed := parsed s @ [k_Memri ?p (MCConstantExpr i)]\<rparr>))"
    using parseRegister_name [OF r col] r e by (simp add: parseMemriOperand_def pbind_def parser_defs)
  moreover have "encodeMemri \<lparr>getOpcode = opc, mc_operands = [MCReg ?p, MCImm i]\<rparr> 0 Fs = Inl (Unreachable ''Expected either Y or Z register'')"
    using assms(1) by (auto simp: encodeMemri_def mc_getOperand_def pretty_reg_def getSubReg_lo_def)
  moreover have "printMemri penv \<lparr>getOpcode = opc, mc_operands = [MCReg r, MCImm i]\<rparr> 0 '''' = Inr (reg_name ?p @ ?txt)"
    by (simp add: printMemri_def printOperand_def mc_getOperand_def pretty_reg_name)
  ultimately show ?thesis
    using lx by (intro exI [of _ "reg_name ?p @ ?txt"] exI [of _ "?nm # ?num"] exI [of _ "k_Memri ?p (MCConstantExpr i)"]
        exI [of _ "[MCReg ?p, MCImm i]"]) (simp add: validateTargetOperandClass_def add_operands_def addExpr_def)
qed

lemma printed_memri_not_encodable_witness:
  "\<forall>penv opc env s Fs. \<exists>txt ts po ops. printMemri penv \<lparr>getOpcode = opc, mc_operands = [MCReg SNES_X, MCImm 3]\<rparr> 0 [] = Inr txt
     \<and> lex txt = Some ts
     \<and> parseMemriOperand 3 env (s\<lparr>toks := ts @ [end_token]\<rparr>) = Some (Inr (Some (), s\<lparr>toks := [end_token], parsed := parsed s @ [po]\<rparr>))
     \<and> add_operands po = Inr ops
     \<and> encodeMemri \<lparr>getOpcode = opc, mc_operands = ops\<rparr> 0 Fs = Inl (Unreachable ''Expected either Y or Z register'')"
  using printed_memri_not_encodable [where r = SNES_X and t = end_token and n = 3 and rest = "[]" and i = 3 and validate = "\<lambda>_. True" and pair_class = True]
  by (simp add: end_token_def del: lex.simps) blast

section \<open>Modifiers\<close>

definition printed_kinds :: "VariantKind list" where
  "printed_kinds = [VK_SNES_HI8, VK_SNES_LO8, VK_SNES_HH8, VK_SNES_HHI8, VK_SNES_PM_LO8, VK_SNES_PM_HI8, VK_SNES_PM_HH8]"

text \<open>Every modifier ends in a digit, which no register name has.\<close>

lemma printed_kinds_names:
  "list_all (\<lambda>K. case getName K of None \<Rightarrow> False | Some nm \<Rightarrow> is_name nm \<and> CHR ''8'' \<in> set nm \<and> getKindByName nm = K) printed_kinds"
  by code_simp

lemma digit_not_register:
  assumes "CHR ''8'' \<in> set nm"
  shows "MatchRegisterName nm = NoRegister"
proof -
  have "CHR ''8'' \<notin> set (reg_name r)" for r by (cases r) (simp_all add: reg_name_def)
  with assms show ?thesis by (auto simp: MatchRegisterName_def find_Some_iff split: option.splits)
qed

lemma digit_case: "CHR ''8'' \<in> set nm \<Longrightarrow> CHR ''8'' \<in> set (lower nm) \<and> CHR ''8'' \<in> set (upper nm)"
  by (induction nm) (auto simp: lower_def upper_def code_of_def)

lemma modifier_names:
  assumes "Kind \<noteq> VK_SNES_None"
  obtains nm where "getName Kind = Some nm" "is_name nm" "getKindByName nm = Kind"
    "\<And>s ts. parseRegisterName (s\<lparr>toks := plain_token Tok_Identifier nm # ts\<rparr>) = NoRegister"
proof -
  have "Kind \<in> set printed_kinds" using assms by (cases Kind) (simp_all add: printed_kinds_def)
  then obtain nm where nm: "getName Kind = Some nm" "is_name nm" "getKindByName nm = Kind" "CHR ''8'' \<in> set nm"
    using printed_kinds_names by (fastforce simp: list_all_iff split: option.splits)
  then have "parseRegisterName (s\<lparr>toks := plain_token Tok_Identifier nm # ts\<rparr>) = NoRegister" for s ts
    using digit_case [of nm]
    by (simp add: parseRegisterName_def parseRegisterName_with_def MatchRegisterAltName_def digit_not_register)
  with nm show thesis by (intro that)
qed

text \<open>A modifier and the expression in its parentheses, after the optional sign.\<close>

lemma parse_modifier:
  fixes neg :: bool and nm smb :: string and s :: asm_state
  defines "ts \<equiv> [plain_token Tok_Identifier nm, plain_token Tok_LParen ''('', plain_token Tok_Identifier smb, plain_token Tok_RParen '')'']"
  assumes "getKindByName nm = Kind" "Kind \<noteq> VK_SNES_None" "CHR ''@'' \<notin> set smb" "variable_value env smb = None" "smb \<noteq> []"
  shows "tryParseExpression (Suc (Suc n)) env (s\<lparr>toks := (if neg then [plain_token Tok_Minus ''-''] else []) @ ts @ t # rest\<rparr>)
    = Some (Inr (Some (), s\<lparr>toks := t # rest, parsed := parsed s
        @ [k_Immediate (SNESMCExpr Kind (MCSymbolRefExpr \<lparr>sym_name = smb, sym_temporary = False\<rparr> VK_None) neg)]\<rparr>))"
proof -
  let ?s = "s\<lparr>toks := (if neg then [plain_token Tok_Minus ''-''] else []) @ ts @ t # rest\<rparr>"
  have "sign_of_modifier ?s = Some (Inr (Some neg, s\<lparr>toks := ts @ t # rest\<rparr>))"
    by (simp add: sign_of_modifier_def ts_def preturn_def)
  moreover have "parseExpression (Suc (Suc n)) env (s\<lparr>toks := plain_token Tok_Identifier smb # plain_token Tok_RParen '')'' # t # rest\<rparr>)
    = Some (Inr (Some (MCSymbolRefExpr \<lparr>sym_name = smb, sym_temporary = False\<rparr> VK_None), s\<lparr>toks := plain_token Tok_RParen '')'' # t # rest\<rparr>))"
    by (rule parse_symbol) (simp_all add: closing_def assms)
  ultimately have "tryParseRelocExpression (Suc (Suc n)) env ?s
    = Some (Inr (Some (), s\<lparr>toks := t # rest, parsed := parsed s
        @ [k_Immediate (SNESMCExpr Kind (MCSymbolRefExpr \<lparr>sym_name = smb, sym_temporary = False\<rparr> VK_None) neg)]\<rparr>))"
    using assms(2,3)
    by (simp add: tryParseRelocExpression_def ts_def pbind_def push_operand_def preturn_def Lex_def del: parseExpression.simps)
  then show ?thesis by (simp add: tryParseExpression_def ptry_def preturn_def)
qed

lemma lex_modifier:
  assumes "is_name nm" "is_name smb"
  shows "lex ((if neg then ''-'' else []) @ nm @ ''('' @ smb @ '')'')
    = Some ((if neg then [plain_token Tok_Minus ''-''] else []) @ [plain_token Tok_Identifier nm, plain_token Tok_LParen ''('',
        plain_token Tok_Identifier smb, plain_token Tok_RParen '')''])"
proof -
  have one: "lex (CHR ''-'' # r) = map_option ((#) (plain_token Tok_Minus ''-'')) (lex r)"
    "lex (CHR ''('' # r) = map_option ((#) (plain_token Tok_LParen ''('')) (lex r)"
    "lex (CHR '')'' # r) = map_option ((#) (plain_token Tok_RParen '')'')) (lex r)" for r
    by (rule lex_single; simp add: single_chars_def is_blank_def isalpha_def isdigit_def code_of_def)+
  have "lex (smb @ '')'') = Some [plain_token Tok_Identifier smb, plain_token Tok_RParen '')'']"
    by (subst lex_name [OF assms(2)]) (simp_all add: one IsIdentifierChar_def isalpha_def isdigit_def code_of_def del: lex.simps(2))
  moreover have "lex (nm @ ''('' @ r) = map_option (\<lambda>ts. plain_token Tok_Identifier nm # plain_token Tok_LParen ''('' # ts) (lex r)" for r
    by (subst lex_name [OF assms(1)])
      (simp_all add: one IsIdentifierChar_def isalpha_def isdigit_def code_of_def option.map_comp comp_def del: lex.simps(2))
  ultimately show ?thesis by (simp add: one del: lex.simps(2))
qed

text \<open>
  Property C19. A modifier with its symbol, as \<open>printImpl\<close> writes it, is read back as the same
  expression, with the same sign, whichever modifier it is.
\<close>

theorem printed_modifier_parsed:
  assumes "Kind \<noteq> VK_SNES_None" "is_name smb" "CHR ''@'' \<notin> set smb" "variable_value env smb = None" "2 \<le> n"
  shows "\<exists>txt ts. printImpl Kind neg smb = Inr txt \<and> lex txt = Some ts
     \<and> parseOperand n env (s\<lparr>toks := ts @ t # rest\<rparr>) = Some (Inr (Some (), s\<lparr>toks := t # rest, parsed := parsed s
          @ [k_Immediate (SNESMCExpr Kind (MCSymbolRefExpr \<lparr>sym_name = smb, sym_temporary = False\<rparr> VK_None) neg)]\<rparr>))"
proof -
  obtain k where n: "n = Suc (Suc k)" using assms(5) by (auto simp: numeral_2_eq_2 Suc_le_eq dest!: less_imp_Suc_add)
  obtain nm where nm: "getName Kind = Some nm" "is_name nm" "getKindByName nm = Kind"
    "\<And>s ts. parseRegisterName (s\<lparr>toks := plain_token Tok_Identifier nm # ts\<rparr>) = NoRegister"
    using modifier_names [OF assms(1)] by blast
  let ?txt = "(if neg then ''-'' else []) @ nm @ ''('' @ smb @ '')''"
  let ?ts = "(if neg then [plain_token Tok_Minus ''-''] else []) @ [plain_token Tok_Identifier nm, plain_token Tok_LParen ''('',
        plain_token Tok_Identifier smb, plain_token Tok_RParen '')'']"
  let ?s = "s\<lparr>toks := ?ts @ t # rest\<rparr>"
  have ne: "smb \<noteq> []" using assms(2) by (simp add: is_name_def)
  have e: "tryParseExpression n env ?s = Some (Inr (Some (), s\<lparr>toks := t # rest, parsed := parsed s
          @ [k_Immediate (SNESMCExpr Kind (MCSymbolRefExpr \<lparr>sym_name = smb, sym_temporary = False\<rparr> VK_None) neg)]\<rparr>))"
    using parse_modifier [OF nm(3) assms(1,3,4) ne, where n = k and s = s and neg = neg and t = t and rest = rest] unfolding n by simp
  have "tryParseRegisterOperand ?s = Some (Inr (None, ?s))" if "\<not> neg"
    using that nm(4) by (simp add: tryParseRegisterOperand_def parseRegister_def pbind_def preturn_def pfail_def)
  with e have "parseOperand n env ?s = Some (Inr (Some (), s\<lparr>toks := t # rest, parsed := parsed s
          @ [k_Immediate (SNESMCExpr Kind (MCSymbolRefExpr \<lparr>sym_name = smb, sym_temporary = False\<rparr> VK_None) neg)]\<rparr>))"
    by (cases neg) (simp_all add: parseOperand_def ptry_def preturn_def)
  moreover have "printImpl Kind neg smb = Inr ?txt" using assms(1) nm(1) by (simp add: printImpl_def)
  ultimately show ?thesis using lex_modifier [OF nm(2) assms(2), of neg] by blast
qed

lemma printed_modifier_parsed_witness:
  "\<forall>env s. \<exists>txt ts. printImpl VK_SNES_HI8 True ''main'' = Inr txt \<and> lex txt = Some ts
     \<and> parseOperand 2 (env\<lparr>variable_value := \<lambda>_. None\<rparr>) (s\<lparr>toks := ts @ [end_token]\<rparr>)
       = Some (Inr (Some (), s\<lparr>toks := [end_token], parsed := parsed s
          @ [k_Immediate (SNESMCExpr VK_SNES_HI8 (MCSymbolRefExpr \<lparr>sym_name = ''main'', sym_temporary = False\<rparr> VK_None) True)]\<rparr>))"
  by (intro allI, rule printed_modifier_parsed)
    (simp_all add: is_name_def isalpha_def isdigit_def code_of_def IsIdentifierChar_def)

section \<open>Parentheses before a modifier\<close>

text \<open>
  When a parenthesis, a number or a dot stands before a name and a parenthesis,
  as in \<open>(lo8(x))\<close>, the parser takes it for the sign of the modifier and stops at the
  assertion that it is one, instead of reporting a syntax error.
\<close>

theorem modifier_sign_assertion:
  assumes "kind_at 0 s \<in> {Tok_LParen, Tok_Integer, Tok_Dot}" "kind_at 1 s = Tok_Identifier" "kind_at 2 s = Tok_LParen"
    and "\<not> custom (parsed s @ [k_Token M]) M"
  shows "ParseInstruction (Suc k) n env custom M s = Some (Inl (Assertion ''CurTok == AsmToken::Plus''))"
proof -
  let ?s = "s\<lparr>parsed := parsed s @ [k_Token M]\<rparr>"
  have kinds: "kind_at i ?s = kind_at i s" for i by (simp add: kind_at_def tok_at_def)
  have "2 < length (toks ?s)"
    using assms(3) by (auto simp: kind_at_def tok_at_def eof_token_def split: if_splits)
  then have "sign_of_modifier ?s = Some (Inl (Assertion ''CurTok == AsmToken::Plus''))"
    using assms(1-3) by (auto simp: sign_of_modifier_def kinds pstop_def)
  then have "tryParseExpression n env ?s = Some (Inl (Assertion ''CurTok == AsmToken::Plus''))"
    by (simp add: tryParseExpression_def tryParseRelocExpression_def ptry_def pbind_def)
  then have "parseOperand n env ?s = Some (Inl (Assertion ''CurTok == AsmToken::Plus''))"
    using assms(1) by (auto simp: parseOperand_def kinds)
  then show ?thesis
    using assms(1,4) by (auto simp: ParseInstruction_def pbind_def push_operand_def preturn_def kinds ptry_def)
qed

lemma modifier_sign_assertion_witness:
  "\<forall>env. ParseInstruction 5 10 env (\<lambda>_ _. False) ''ldi''
     \<lparr>toks = the (lex ''(lo8(x))''), parsed = [], diags = [], temps = 0\<rparr>
   = Some (Inl (Assertion ''CurTok == AsmToken::Plus''))"
proof -
  have "lex ''(lo8(x))'' = Some [plain_token Tok_LParen ''('', plain_token Tok_Identifier ''lo8'', plain_token Tok_LParen ''('',
     plain_token Tok_Identifier ''x'', plain_token Tok_RParen '')'', plain_token Tok_RParen '')'']"
    by code_simp
  then show ?thesis
    using modifier_sign_assertion [where k = 4 and n = 10 and custom = "\<lambda>_ _. False" and M = "''ldi''"
      and s = "\<lparr>toks = the (lex ''(lo8(x))''), parsed = [], diags = [], temps = 0\<rparr>"]
    by (simp add: kind_at_def tok_at_def del: lex.simps)
qed

end
