(* ===== verification/Asm_Printer.thy ===== *)
theory Asm_Printer
  imports MC_Inst_Lower Asm_Roundtrip Inline_Asm
begin

unbundle bit_operations_syntax

text \<open>
  The assembly printer \<open>SNESAsmPrinter.cpp\<close>: operands of machine instructions, operands of
  inline assembly with their modifiers, and the hand-over of instructions to the streamer.
  The printing of symbols and of addresses of symbols, and the streamer, are parameters.
\<close>

record asm_printer_env =
  symbols :: symbol_names
  print_symbol :: "mcsymbol \<Rightarrow> string"
  print_pointer :: "mcsymbol \<Rightarrow> string"

text \<open>The symbol of a global is inserted as a pointer, the other symbols as symbols.\<close>

definition asm_printOperand :: "asm_printer_env \<Rightarrow> instr \<Rightarrow> nat \<Rightarrow> string \<Rightarrow> string outcome" where
  "asm_printOperand env MI OpNo Out =
     obind (getOperand MI OpNo) (\<lambda>MO. case MO of
       MO_Register r \<Rightarrow> Inr (Out @ getPrettyRegisterName (RegNo r))
     | MO_Immediate i \<Rightarrow> Inr (Out @ to_string (sint i))
     | MO_GlobalAddress g _ _ \<Rightarrow> Inr (Out @ print_pointer env (getSymbol (symbols env) g))
     | MO_ExternalSymbol nm _ _ \<Rightarrow> Inr (Out @ print_symbol env (GetExternalSymbolSymbol (symbols env) nm))
     | MO_MachineBasicBlock b \<Rightarrow> Inr (Out @ print_symbol env (mbb_symbol (symbols env) b))
     | _ \<Rightarrow> Inl (Unreachable ''Not implemented yet!''))"

section \<open>Modifiers of inline assembly operands\<close>

text \<open>A missing modifier is the empty string. The result tells whether there was an error.\<close>

definition generic_PrintAsmOperand :: "instr \<Rightarrow> nat \<Rightarrow> string \<Rightarrow> string \<Rightarrow> (bool \<times> string) outcome" where
  "generic_PrintAsmOperand MI OpNo ExtraCode Out =
     (if ExtraCode = [] \<or> length ExtraCode \<noteq> 1 then Inr (True, Out)
      else obind (getOperand MI OpNo) (\<lambda>MO. case MO of
        MO_Immediate i \<Rightarrow>
          if ExtraCode = ''c'' then Inr (False, Out @ to_string (sint i))
          else if ExtraCode = ''n'' then Inr (False, Out @ to_string (sint (- i)))
          else if ExtraCode = ''s'' then Inr (False, Out @ to_string (sint ((32 - i) AND 31)))
          else Inr (True, Out)
      | _ \<Rightarrow> Inr (True, Out)))"

definition getNumOperandRegisters :: "u32 \<Rightarrow> nat" where
  "getNumOperandRegisters Flag = unat (drop_bit 3 (Flag AND 0xffff))"

text \<open>The flag word of an operand group stands before its first register.\<close>

definition group_flags :: "instr \<Rightarrow> nat \<Rightarrow> u32 outcome" where
  "group_flags MI OpNum =
     (if OpNum = 0 then Inl (Assertion ''getOperand() out of range!'')
      else obind (getImm MI (OpNum - 1)) (\<lambda>i. Inr (ucast i)))"

definition all_classes :: "reg_class list" where
  "all_classes = [MainLoRegs, MainRegs, AccRegs, Acc8Regs, IndexRegs, IndexXRegs, IndexX8Regs, IndexYRegs,
     IndexY8Regs, DirectPageRegs, StackPointerRegs, ProgramCounterRegs, DataBankRegs, ProgramBankRegs, EFLAGSRegs]"

text \<open>The bytes of a register, by the smallest class; all classes of a register have one size.\<close>

definition reg_bytes :: "reg \<Rightarrow> nat outcome" where
  "reg_bytes Reg = (case find (\<lambda>RC. class_contains RC Reg) all_classes of
     None \<Rightarrow> Inl (Assertion ''Couldn't find the register class'')
   | Some RC \<Rightarrow> Inr (getStoreSize (class_type RC)))"

definition byte_register :: "instr \<Rightarrow> nat \<Rightarrow> nat \<Rightarrow> reg outcome" where
  "byte_register MI OpNum ByteNumber =
     obind (getOperand MI OpNum) (\<lambda>RegOp.
     asserting (case RegOp of MO_Register _ \<Rightarrow> True | _ \<Rightarrow> False)
       ''Operand must be a register when you're using 'A'..'Z' operand extracodes.''
     (obind (as_reg RegOp) (\<lambda>R. obind (group_flags MI OpNum) (\<lambda>OpFlags.
      obind (reg_bytes (RegNo R)) (\<lambda>BytesPerReg.
      asserting (BytesPerReg \<le> 2) ''Only 8 and 16 bit regs are supported.''
      (let RegIdx = ByteNumber div BytesPerReg in
       asserting (RegIdx < getNumOperandRegisters OpFlags) ''Multibyte index out of range.''
       (obind (getReg MI (OpNum + RegIdx)) (\<lambda>Reg.
        Inr (if BytesPerReg = 2
             then (if ByteNumber mod BytesPerReg \<noteq> 0 then getSubReg_hi Reg else getSubReg_lo Reg)
             else Reg)))))))))"

definition PrintAsmOperand :: "asm_printer_env \<Rightarrow> instr \<Rightarrow> nat \<Rightarrow> string \<Rightarrow> string \<Rightarrow> (bool \<times> string) outcome" where
  "PrintAsmOperand env MI OpNum ExtraCode Out =
     obind (generic_PrintAsmOperand MI OpNum ExtraCode Out) (\<lambda>(Error, Out).
       if Error \<and> 1 < length ExtraCode then Inr (True, Out)
       else if Error \<and> ExtraCode \<noteq> [] \<and> 65 \<le> code_of (hd ExtraCode) \<and> code_of (hd ExtraCode) \<le> 90
       then obind (byte_register MI OpNum (code_of (hd ExtraCode) - 65)) (\<lambda>Reg.
              asserting (Reg \<noteq> NoRegister) ''Invalid register number!''
                (Inr (False, Out @ getPrettyRegisterName Reg)))
       else if Error then obind (asm_printOperand env MI OpNum Out) (\<lambda>Out. Inr (False, Out))
       else Inr (False, Out))"

definition PrintAsmMemoryOperand :: "instr \<Rightarrow> nat \<Rightarrow> string \<Rightarrow> string \<Rightarrow> (bool \<times> string) outcome" where
  "PrintAsmMemoryOperand MI OpNum ExtraCode Out =
     (if ExtraCode \<noteq> [] then Inl (Unreachable ''This branch is not implemented yet'')
      else obind (getOperand MI OpNum) (\<lambda>MO.
        asserting (case MO of MO_Register _ \<Rightarrow> True | _ \<Rightarrow> False) ''Unexpected inline asm memory operand''
        (obind (getReg MI OpNum) (\<lambda>Reg.
         obind (if Reg = SNES_A then Inr (Out @ ''Z'')
                else asserting (Reg = SNES_X) ''Wrong register class for memory operand.'' (Inr (Out @ ''Y''))) (\<lambda>Out.
         obind (group_flags MI OpNum) (\<lambda>OpFlags.
         if getNumOperandRegisters OpFlags = 2
         then obind (getImm MI (OpNum + 1)) (\<lambda>i. Inr (False, Out @ ''+'' @ to_string (sint i)))
         else Inr (False, Out)))))))"

definition EmitInstruction :: "asm_printer_env \<Rightarrow> ('s \<Rightarrow> mcinst \<Rightarrow> 's) \<Rightarrow> instr \<Rightarrow> 's \<Rightarrow> 's outcome" where
  "EmitInstruction env EmitToStreamer MI Out =
     obind (lowerInstruction (symbols env) MI) (\<lambda>I. Inr (EmitToStreamer Out I))"

section \<open>Bytes of an operand\<close>

text \<open>
  An inline assembly instruction with an operand group: what stands before it, the flag word,
  the registers and what follows.
\<close>

definition asm_group :: "operand list \<Rightarrow> u32 \<Rightarrow> operand list \<Rightarrow> operand list \<Rightarrow> instr" where
  "asm_group before flags gops after =
     \<lparr>Opcode = Misc INLINEASM, Operands = before @ MO_Immediate (ucast flags) # gops @ after, Flags = 0\<rparr>"

lemma asm_group_operand:
  "i < length gops \<Longrightarrow> getOperand (asm_group before flags gops after) (Suc (length before) + i) = Inr (gops ! i)"
  by (simp add: getOperand_def asm_group_def nth_append)

lemma asm_group_flags [simp]: "group_flags (asm_group before flags gops after) (Suc (length before)) = Inr flags"
proof -
  have "(ucast (ucast flags :: u64) :: u32) = flags" by (rule bit_word_eqI) (simp add: bit_simps)
  then show ?thesis by (simp add: group_flags_def getImm_def getOperand_def asm_group_def nth_append)
qed

lemma asm_group_reg:
  "i < length rs \<Longrightarrow> getReg (asm_group before flags (List.map use rs) after) (Suc (length before + i)) = Inr (rs ! i)"
  using asm_group_operand [of i "List.map use rs" before flags after] by (simp add: getReg_def as_reg_def use_def)

text \<open>The byte \<open>k\<close> of the value that the registers hold together, lowest byte first.\<close>

definition group_bytes :: "reg list \<Rightarrow> reg list" where
  "group_bytes rs = concat (List.map (\<lambda>r. if class_contains MainRegs r then [getSubReg_lo r, getSubReg_hi r] else [r]) rs)"

lemma group_bytes_nth:
  assumes "\<forall>r \<in> set rs. class_contains MainRegs r"
  shows "length (group_bytes rs) = 2 * length rs"
    "k < 2 * length rs \<Longrightarrow> group_bytes rs ! k = (if k mod 2 \<noteq> 0 then getSubReg_hi (rs ! (k div 2)) else getSubReg_lo (rs ! (k div 2)))"
  using assms
proof (induction rs arbitrary: k)
  case (Cons r rs)
  have g: "group_bytes (r # rs) = getSubReg_lo r # getSubReg_hi r # group_bytes rs" if "class_contains MainRegs r"
    using that by (simp add: group_bytes_def del: class_contains_Main)
  { case 1 then show ?case using Cons.IH(1) by (simp add: g del: class_contains_Main) }
  { case 2
    then have g: "group_bytes (r # rs) = getSubReg_lo r # getSubReg_hi r # group_bytes rs" by (intro g) simp
    show ?case
    proof (cases "k < 2")
      case True
      then have "k = 0 \<or> k = 1" by auto
      then show ?thesis by (auto simp: g)
    next
      case False
      then obtain j where k: "k = Suc (Suc j)" by (metis add_2_eq_Suc le_Suc_ex not_less)
      show ?thesis using 2 Cons.IH(2) [of j] by (simp add: g k del: class_contains_Main)
    qed }
qed (simp_all add: group_bytes_def)

lemma group_bytes_narrow:
  "\<forall>r \<in> set rs. class_contains MainLoRegs r \<Longrightarrow> group_bytes rs = rs"
  by (induction rs) (auto simp: group_bytes_def class_contains_def class_members_def)

lemma reg_bytes_values:
  "class_contains MainRegs r \<Longrightarrow> reg_bytes r = Inr 2" "class_contains MainLoRegs r \<Longrightarrow> reg_bytes r = Inr 1"
  by (auto simp: reg_bytes_def all_classes_def class_contains_def class_members_def class_type_def getStoreSize_def)

lemma pretty_byte: "r \<in> {SNES_AL, SNES_AH, SNES_XL, SNES_XH, SNES_YL, SNES_YH} \<Longrightarrow> getPrettyRegisterName r = reg_name r"
  by (auto simp: getPrettyRegisterName_def getSubReg_lo_def)

lemma group_bytes_are_bytes:
  assumes "\<forall>r \<in> set rs. class_contains MainRegs r \<or> class_contains MainLoRegs r"
  shows "set (group_bytes rs) \<subseteq> {SNES_AL, SNES_AH, SNES_XL, SNES_XH, SNES_YL, SNES_YH}"
  using assms by (induction rs) (auto simp: group_bytes_def class_contains_def class_members_def getSubReg_lo_def getSubReg_hi_def)

text \<open>
  Property C31. In an inline assembly template the modifiers \<open>A\<close>, \<open>B\<close>, ... name the bytes of
  an operand from the lowest one on: they print the 8-bit register that holds the byte, for
  operands in 8-bit and in 16-bit registers, and a letter beyond the registers of the operand
  stops at the assertion on the index.
\<close>

theorem asm_byte_operand:
  assumes "(\<forall>r \<in> set rs. class_contains MainRegs r) \<or> (\<forall>r \<in> set rs. class_contains MainLoRegs r)" "rs \<noteq> []"
    and "getNumOperandRegisters flags = length rs" "k < 26"
  shows "PrintAsmOperand env (asm_group before flags (List.map use rs) after) (Suc (length before)) [char_of (65 + k)] Out
    = (if k < length (group_bytes rs) then Inr (False, Out @ reg_name (group_bytes rs ! k))
       else Inl (Assertion ''Multibyte index out of range.''))"
proof -
  let ?MI = "asm_group before flags (List.map use rs) after" and ?n = "Suc (length before)"
  have code: "code_of (char_of (65 + k)) = 65 + k" using assms(4) by (simp add: code_of_def)
  have ne: "[char_of (65 + k)] \<noteq> ''c''" "[char_of (65 + k)] \<noteq> ''n''" "[char_of (65 + k)] \<noteq> ''s''"
    using assms(4) by (auto simp flip: code_of_eq simp: code code_of_def)
  have r0: "getOperand ?MI ?n = Inr (use (rs ! 0))"
    using asm_group_operand [of 0 "List.map use rs" before flags after] assms(2) by simp
  have gen: "generic_PrintAsmOperand ?MI ?n [char_of (65 + k)] Out = Inr (True, Out)"
    by (simp add: generic_PrintAsmOperand_def r0 use_def)
  have byte: "byte_register ?MI ?n k = (if k < length (group_bytes rs) then Inr (group_bytes rs ! k)
       else Inl (Assertion ''Multibyte index out of range.''))"
  proof (cases "\<forall>r \<in> set rs. class_contains MainRegs r")
    case True
    then have b: "reg_bytes (rs ! 0) = Inr 2" using assms(2) by (intro reg_bytes_values) simp
    have "k < 2 * length rs \<longleftrightarrow> k div 2 < length rs" by auto
    then show ?thesis
      using group_bytes_nth(1) [OF True] group_bytes_nth(2) [OF True, of k]
      by (simp add: byte_register_def r0 use_def [of "rs ! 0"] as_reg_def b assms(3) asm_group_reg asserting_def del: class_contains_Main)
  next
    case False
    with assms(1) have lo: "\<forall>r \<in> set rs. class_contains MainLoRegs r" by blast
    then have b: "reg_bytes (rs ! 0) = Inr 1" using assms(2) by (intro reg_bytes_values) simp
    then show ?thesis
      by (simp add: byte_register_def r0 use_def [of "rs ! 0"] as_reg_def b assms(3) asm_group_reg asserting_def group_bytes_narrow [OF lo])
  qed
  have "group_bytes rs ! k \<in> {SNES_AL, SNES_AH, SNES_XL, SNES_XH, SNES_YL, SNES_YH}" if "k < length (group_bytes rs)"
    using group_bytes_are_bytes [of rs] nth_mem [OF that] assms(1) by blast
  then show ?thesis
    using assms(4) by (auto simp: PrintAsmOperand_def gen code byte pretty_byte)
qed

lemma asm_byte_operand_witness:
  "\<forall>env. PrintAsmOperand env (asm_group [] 18 [use SNES_X, use SNES_Y] []) 1 ''D'' '''' = Inr (False, ''YH'')"
proof
  fix env
  have "[char_of (65 + 3 :: nat)] = ''D''" by code_simp
  then show "PrintAsmOperand env (asm_group [] 18 [use SNES_X, use SNES_Y] []) 1 ''D'' '''' = Inr (False, ''YH'')"
    using asm_byte_operand [where rs = "[SNES_X, SNES_Y]" and flags = 18 and k = 3 and before = "[]" and after = "[]" and Out = "''''" and env = env]
    by (simp add: getNumOperandRegisters_def group_bytes_def getSubReg_lo_def getSubReg_hi_def reg_name_def)
qed

section \<open>Memory operands\<close>

lemma lex_displacement:
  "lex (x # CHR ''+'' # to_string i) = Some (plain_token Tok_Identifier [x] # plain_token Tok_Plus ''+'' # number_tokens i)"
  if "x = CHR ''Y'' \<or> x = CHR ''Z''" for i
proof -
  have "is_name ''Y''" "is_name ''Z''" by code_simp+
  with that have "is_name [x]" by blast
  moreover have "\<not> IsIdentifierChar CHR ''+''" by code_simp
  ultimately have "lex ([x] @ CHR ''+'' # to_string i) = map_option ((#) (plain_token Tok_Identifier [x])) (lex (CHR ''+'' # to_string i))"
    by (intro lex_name) (simp_all del: lex.simps)
  then show ?thesis by (simp add: lex_signed del: lex.simps)
qed

text \<open>
  A memory operand of an inline assembly template is printed with the AVR names
  of the pointers: register \<open>X\<close> as \<open>Y\<close> and register \<open>A\<close> as \<open>Z\<close>. Read back by the assembly
  parser, the first is an operand with the wrong register and the second is not a register.
  An operand in register \<open>Y\<close>, which its class allows, stops at an assertion.
\<close>

theorem asm_memory_operand:
  assumes "getNumOperandRegisters flags = 2" "0 \<le> sint d" "tk_kind t = Tok_Comma \<or> tk_kind t = Tok_EndOfStatement" "3 \<le> n"
  shows "let printed = (\<lambda>r. PrintAsmMemoryOperand (asm_group before flags [use r, MO_Immediate d] after) (Suc (length before)) [] []) in
    (\<exists>txt ts. printed SNES_X = Inr (False, txt) \<and> lex txt = Some ts
       \<and> parseMemriOperand n penv (s\<lparr>toks := ts @ t # rest\<rparr>)
         = Some (Inr (Some (), s\<lparr>toks := t # rest, parsed := parsed s @ [k_Memri SNES_Y (MCConstantExpr d)]\<rparr>)))
    \<and> (\<exists>txt ts s'. printed SNES_A = Inr (False, txt) \<and> lex txt = Some ts
       \<and> parseMemriOperand n penv (s\<lparr>toks := ts @ t # rest\<rparr>) = Some (Inr (None, s')))
    \<and> printed SNES_Y = Inl (Assertion ''Wrong register class for memory operand.'')"
proof -
  define printed where "printed r = PrintAsmMemoryOperand (asm_group before flags [use r, MO_Immediate d] after) (Suc (length before)) [] []" for r
  have t: "closing t" using assms(3) by (auto simp: closing_def)
  obtain k where n: "n = Suc (Suc (Suc k))" using assms(4) by (auto simp: numeral_3_eq_3 Suc_le_eq dest!: less_imp_Suc_add)
  have reg: "getOperand (asm_group before flags [use r, MO_Immediate d] after) (Suc (length before)) = Inr (use r)"
    and imm: "getOperand (asm_group before flags [use r, MO_Immediate d] after) (Suc (Suc (length before))) = Inr (MO_Immediate d)" for r
    using asm_group_operand [of 0 "[use r, MO_Immediate d]" before flags after] asm_group_operand [of 1 "[use r, MO_Immediate d]" before flags after]
    by simp_all
  have p: "printed r = (if r = SNES_A then Inr (False, CHR ''Z'' # CHR ''+'' # to_string (sint d))
      else if r = SNES_X then Inr (False, CHR ''Y'' # CHR ''+'' # to_string (sint d))
      else Inl (Assertion ''Wrong register class for memory operand.''))" for r
    using reg [of r] imm [of r]
    by (simp add: printed_def PrintAsmMemoryOperand_def getReg_def as_reg_def use_def getImm_def assms(1) asserting_def)
  let ?num = "plain_token Tok_Plus ''+'' # number_tokens (sint d)"
  have e: "parseExpression n penv (s\<lparr>toks := ?num @ t # rest\<rparr>) = Some (Inr (Some (MCConstantExpr d), s\<lparr>toks := t # rest\<rparr>))"
    using parse_signed(2) [OF t assms(2)] unfolding n by simp
  have "reg_name SNES_Y = ''Y''" by (simp add: reg_name_def)
  then have "parseRegister (s\<lparr>toks := plain_token Tok_Identifier ''Y'' # ?num @ t # rest\<rparr>)
      = Some (Inr (Some SNES_Y, s\<lparr>toks := plain_token Tok_Identifier ''Y'' # ?num @ t # rest\<rparr>))"
    using parseRegister_name [where r = SNES_Y and s = s and ts = "?num @ t # rest"] by simp
  then have "parseMemriOperand n penv (s\<lparr>toks := (plain_token Tok_Identifier ''Y'' # ?num) @ t # rest\<rparr>)
      = Some (Inr (Some (), s\<lparr>toks := t # rest, parsed := parsed s @ [k_Memri SNES_Y (MCConstantExpr d)]\<rparr>))"
    using e by (simp add: parseMemriOperand_def pbind_def parser_defs)
  moreover have "MatchRegisterName ''Z'' = NoRegister" "MatchRegisterName (lower ''Z'') = NoRegister" "MatchRegisterName (upper ''Z'') = NoRegister"
    by code_simp+
  then have "parseRegisterName (s\<lparr>toks := plain_token Tok_Identifier ''Z'' # ts\<rparr>) = NoRegister" for ts
    by (simp add: parseRegisterName_def parseRegisterName_with_def MatchRegisterAltName_def)
  then have "parseMemriOperand n penv (s\<lparr>toks := (plain_token Tok_Identifier ''Z'' # ?num) @ t # rest\<rparr>)
      = Some (Inr (None, s\<lparr>toks := (plain_token Tok_Identifier ''Z'' # ?num) @ t # rest\<rparr>))"
    by (simp add: parseMemriOperand_def parseRegister_def pbind_def parser_defs)
  moreover have "printed SNES_X = Inr (False, CHR ''Y'' # CHR ''+'' # to_string (sint d))"
    "printed SNES_A = Inr (False, CHR ''Z'' # CHR ''+'' # to_string (sint d))"
    "printed SNES_Y = Inl (Assertion ''Wrong register class for memory operand.'')"
    by (simp_all add: p)
  moreover have "lex (CHR ''Y'' # CHR ''+'' # to_string (sint d)) = Some (plain_token Tok_Identifier ''Y'' # ?num)"
    "lex (CHR ''Z'' # CHR ''+'' # to_string (sint d)) = Some (plain_token Tok_Identifier ''Z'' # ?num)"
    by (rule lex_displacement, simp)+
  ultimately show ?thesis unfolding Let_def printed_def [symmetric] by blast
qed

lemma asm_memory_operand_witness:
  "getNumOperandRegisters 22 = 2
   \<and> (\<exists>txt. PrintAsmMemoryOperand (asm_group [] 22 [use SNES_X, MO_Immediate 5] []) (Suc 0) [] [] = Inr (False, txt))
   \<and> PrintAsmMemoryOperand (asm_group [] 22 [use SNES_Y, MO_Immediate 5] []) (Suc 0) [] []
     = Inl (Assertion ''Wrong register class for memory operand.'')"
proof -
  have n: "getNumOperandRegisters 22 = 2" by (simp add: getNumOperandRegisters_def)
  show ?thesis
    using asm_memory_operand [where flags = 22 and d = 5 and t = end_token and n = 3 and before = "[]" and after = "[]" and rest = "[]"] n
    by (auto simp: end_token_def Let_def simp del: lex.simps)
qed

end
