(* ===== verification/Instrument_Functions.thy ===== *)
theory Instrument_Functions
  imports SNES_Prelude
begin

text \<open>
  The pass that instruments functions for tests (\<open>SNESInstrumentFunctions.cpp\<close>): it puts a
  block before the entry block that tells hook functions the name and the arguments of the
  function, and a hook call with the result before every return. A function of the IR is its
  blocks with their labels, the entry block first; instructions that the pass does not look
  at are opaque, and their meaning is a parameter of the execution.
\<close>

section \<open>Functions of the IR\<close>

datatype ir_type = IntegerType nat | FloatingPointType nat | VoidType | OtherType

text \<open>
  \<open>OpString\<close> is the pointer that a \<open>GetElementPtrInst\<close> makes to the private constant with
  that string, and \<open>OpValue\<close> the result of an opaque instruction.
\<close>

datatype ir_operand = OpArg nat ir_type | OpInt nat nat | OpString string | OpValue nat ir_type

definition operand_type :: "ir_operand \<Rightarrow> ir_type" where
  "operand_type v = (case v of
     OpArg i T \<Rightarrow> T | OpInt n k \<Rightarrow> IntegerType n | OpString s \<Rightarrow> OtherType | OpValue k T \<Rightarrow> T)"

datatype ir_inst =
    GetElementPtrInst string
  | CallInst string "ir_type list" "ir_operand list"
  | ReturnInst "ir_operand option"
  | BranchInst nat
  | CondBranchInst nat nat nat
  | OpaqueInst nat

record ir_argument =
  ir_arg_name :: string
  ir_arg_type :: ir_type

record ir_function =
  fn_name :: string
  fn_args :: "ir_argument list"
  fn_return :: ir_type
  fn_blocks :: "(nat \<times> ir_inst list) list"

section \<open>The pass\<close>

definition PREFIX :: string where "PREFIX = ''snes_instrumentation''"
definition BEGIN_FUNCTION_SIGNATURE :: string where "BEGIN_FUNCTION_SIGNATURE = PREFIX @ ''_begin_signature''"
definition END_FUNCTION_SIGNATURE :: string where "END_FUNCTION_SIGNATURE = PREFIX @ ''_end_signature''"

text \<open>The pointer to a string: the instruction, put at the end of the block, and its value.\<close>

definition CreateStringPtr :: "string \<Rightarrow> ir_inst \<times> ir_operand" where
  "CreateStringPtr Str = (GetElementPtrInst Str, OpString Str)"

definition GetTypeName :: "ir_type \<Rightarrow> string outcome" where
  "GetTypeName Ty = (case Ty of
     IntegerType n \<Rightarrow> Inr (''i'' @ to_string (int n))
   | FloatingPointType n \<Rightarrow> Inr (''f'' @ to_string (int n))
   | _ \<Rightarrow> Inl (Unreachable ''unknown return type''))"

text \<open>\<open>ConstantInt::get\<close> of an unsigned value keeps the bits that fit.\<close>

definition ConstantInt_get :: "nat \<Rightarrow> nat \<Rightarrow> ir_operand" where
  "ConstantInt_get bits V = OpInt bits (V mod 2 ^ bits)"

definition BuildSignatureCall :: "string \<Rightarrow> ir_function \<Rightarrow> ir_inst list" where
  "BuildSignatureCall SymName F =
     (let (gep, FunctionName) = CreateStringPtr (fn_name F)
      in [gep, CallInst SymName [OtherType, IntegerType 16] [FunctionName, ConstantInt_get 16 (length (fn_args F))]])"

definition BuildBeginSignature :: "ir_function \<Rightarrow> ir_inst list" where
  "BuildBeginSignature F = BuildSignatureCall BEGIN_FUNCTION_SIGNATURE F"

definition BuildEndSignature :: "ir_function \<Rightarrow> ir_inst list" where
  "BuildEndSignature F = BuildSignatureCall END_FUNCTION_SIGNATURE F"

definition GetArgumentSymbolName :: "ir_argument \<Rightarrow> string outcome" where
  "GetArgumentSymbolName Arg = obind (GetTypeName (ir_arg_type Arg)) (\<lambda>T. Inr (PREFIX @ ''_argument_'' @ T))"

definition BuildArgument :: "nat \<times> ir_argument \<Rightarrow> ir_inst list outcome" where
  "BuildArgument A = (case A of (ArgNo, Arg) \<Rightarrow>
     obind (GetArgumentSymbolName Arg) (\<lambda>Fn.
       let (gep, ArgName) = CreateStringPtr (ir_arg_name Arg); T = ir_arg_type Arg
       in Inr [gep, CallInst Fn [OtherType, IntegerType 8, T] [ArgName, ConstantInt_get 8 ArgNo, OpArg ArgNo T]]))"

definition BuildSignature :: "ir_function \<Rightarrow> ir_inst list outcome" where
  "BuildSignature F = obind (omap BuildArgument (List.enumerate 0 (fn_args F))) (\<lambda>args.
     Inr (BuildBeginSignature F @ concat args @ BuildEndSignature F))"

text \<open>The new block with the label \<open>fresh\<close> goes before the entry block and jumps to it.\<close>

definition BuildEntryBlock :: "nat \<Rightarrow> ir_function \<Rightarrow> ir_function outcome" where
  "BuildEntryBlock fresh F = (case fn_blocks F of
     [] \<Rightarrow> Inl (Undefined ''getEntryBlock of a declaration'')
   | (Entry, insts) # bs \<Rightarrow> obind (BuildSignature F) (\<lambda>sig.
       Inr (F\<lparr>fn_blocks := (fresh, sig @ [BranchInst Entry]) # fn_blocks F\<rparr>)))"

definition GetReturnSymbolName :: "ir_operand \<Rightarrow> string outcome" where
  "GetReturnSymbolName Val = obind (GetTypeName (operand_type Val)) (\<lambda>T. Inr (PREFIX @ ''_result_'' @ T))"

text \<open>What an instruction becomes.\<close>

definition BuildExitHook :: "ir_inst \<Rightarrow> ir_inst list outcome" where
  "BuildExitHook I = (case I of
     ReturnInst RetVal \<Rightarrow> (case RetVal of
         None \<Rightarrow> Inl (Assertion ''should only be instrumenting functions with return values'')
       | Some v \<Rightarrow> obind (GetReturnSymbolName v) (\<lambda>Fn. Inr [CallInst Fn [operand_type v] [v], I]))
   | _ \<Rightarrow> Inr [I])"

definition exit_hooks :: "ir_inst list \<Rightarrow> ir_inst list outcome" where
  "exit_hooks insts = obind (omap BuildExitHook insts) (\<lambda>hooked. Inr (concat hooked))"

definition BuildExitHooks :: "ir_function \<Rightarrow> ir_function outcome" where
  "BuildExitHooks F = obind (omap (\<lambda>(l, insts). obind (exit_hooks insts) (\<lambda>is. Inr (l, is))) (fn_blocks F))
     (\<lambda>bs. Inr (F\<lparr>fn_blocks := bs\<rparr>))"

definition ShouldInstrument :: "ir_function \<Rightarrow> bool" where
  "ShouldInstrument F \<longleftrightarrow> fn_return F \<noteq> VoidType"

text \<open>The pass says that it modified the function also when it left it alone.\<close>

definition runOnFunction :: "nat \<Rightarrow> ir_function \<Rightarrow> (ir_function \<times> bool) outcome" where
  "runOnFunction fresh F =
     (if ShouldInstrument F
      then obind (BuildEntryBlock fresh F) (\<lambda>F. obind (BuildExitHooks F) (\<lambda>F. Inr (F, True)))
      else Inr (F, True))"

section \<open>Execution\<close>

text \<open>
  The semantics of the opaque parts: the effect of an opaque instruction, the assignments of
  the phi nodes on an edge, the condition of a branch, the value of an opaque result and the
  arguments of the function. A call is an event with the values of its operands.
\<close>

datatype hook_value = VInt int | VString string

record 's ir_semantics =
  opaque_effect :: "nat \<Rightarrow> 's \<Rightarrow> 's"
  phi_effect :: "nat \<Rightarrow> nat \<Rightarrow> 's \<Rightarrow> 's"
  branch_cond :: "nat \<Rightarrow> 's \<Rightarrow> bool"
  opaque_value :: "nat \<Rightarrow> 's \<Rightarrow> hook_value"
  argument_value :: "nat \<Rightarrow> hook_value"

type_synonym ir_event = "string \<times> hook_value list"

definition operand_value :: "('s, 'z) ir_semantics_scheme \<Rightarrow> 's \<Rightarrow> ir_operand \<Rightarrow> hook_value" where
  "operand_value S s v = (case v of
     OpArg i T \<Rightarrow> argument_value S i | OpInt n k \<Rightarrow> VInt (int k) | OpString str \<Rightarrow> VString str
   | OpValue k T \<Rightarrow> opaque_value S k s)"

definition inst_events :: "('s, 'z) ir_semantics_scheme \<Rightarrow> 's \<Rightarrow> ir_inst \<Rightarrow> ir_event list" where
  "inst_events S s I = (case I of CallInst f Ts vs \<Rightarrow> [(f, List.map (operand_value S s) vs)] | _ \<Rightarrow> [])"

definition inst_effect :: "('s, 'z) ir_semantics_scheme \<Rightarrow> ir_inst \<Rightarrow> 's \<Rightarrow> 's" where
  "inst_effect S I s = (case I of OpaqueInst k \<Rightarrow> opaque_effect S k s | _ \<Rightarrow> s)"

definition branch_to :: "('s, 'z) ir_semantics_scheme \<Rightarrow> 's \<Rightarrow> ir_inst \<Rightarrow> nat option" where
  "branch_to S s I = (case I of
     BranchInst t \<Rightarrow> Some t | CondBranchInst c t u \<Rightarrow> Some (if branch_cond S c s then t else u) | _ \<Rightarrow> None)"

definition is_return :: "ir_inst \<Rightarrow> bool" where
  "is_return I = (case I of ReturnInst v \<Rightarrow> True | _ \<Rightarrow> False)"

definition returned :: "('s, 'z) ir_semantics_scheme \<Rightarrow> 's \<Rightarrow> ir_inst \<Rightarrow> hook_value option" where
  "returned S s I = (case I of ReturnInst v \<Rightarrow> map_option (operand_value S s) v | _ \<Rightarrow> None)"

text \<open>An execution of at most \<open>n\<close> instructions from the rest of a block, with the events so far.\<close>

fun run_fn :: "('s, 'z) ir_semantics_scheme \<Rightarrow> (nat \<times> ir_inst list) list \<Rightarrow> nat \<Rightarrow> nat \<Rightarrow> ir_inst list \<Rightarrow> 's \<Rightarrow> ir_event list \<Rightarrow>
    (hook_value option \<times> 's \<times> ir_event list) option" where
  "run_fn S bs 0 l insts s tr = None"
| "run_fn S bs (Suc n) l [] s tr = None"
| "run_fn S bs (Suc n) l (I # is) s tr =
     (if is_return I then Some (returned S s I, s, tr)
      else case branch_to S s I of
        Some t \<Rightarrow> (case map_of bs t of None \<Rightarrow> None | Some is' \<Rightarrow> run_fn S bs n t is' (phi_effect S l t s) tr)
      | None \<Rightarrow> run_fn S bs n l is (inst_effect S I s) (tr @ inst_events S s I))"

text \<open>A result of the function from its entry block.\<close>

definition fn_result :: "('s, 'z) ir_semantics_scheme \<Rightarrow> ir_function \<Rightarrow> 's \<Rightarrow> hook_value option \<times> 's \<times> ir_event list \<Rightarrow> bool" where
  "fn_result S F s r \<longleftrightarrow> (case fn_blocks F of [] \<Rightarrow> False
     | (l, insts) # bs \<Rightarrow> \<exists>n. run_fn S (fn_blocks F) n l insts s [] = Some r)"

section \<open>What the hooks are told\<close>

definition type_letter :: "ir_type \<Rightarrow> string" where
  "type_letter T = (case T of IntegerType n \<Rightarrow> ''i'' @ to_string (int n) | FloatingPointType n \<Rightarrow> ''f'' @ to_string (int n) | _ \<Rightarrow> [])"

definition entry_events :: "('s, 'z) ir_semantics_scheme \<Rightarrow> ir_function \<Rightarrow> ir_event list" where
  "entry_events S F =
     (let n = length (fn_args F); sig = [VString (fn_name F), VInt (int n mod 65536)] in
      [(''snes_instrumentation_begin_signature'', sig)]
      @ List.map (\<lambda>i. let A = fn_args F ! i in
          (''snes_instrumentation_argument_'' @ type_letter (ir_arg_type A),
           [VString (ir_arg_name A), VInt (int i mod 256), argument_value S i])) [0..<n]
      @ [(''snes_instrumentation_end_signature'', sig)])"

definition result_event :: "ir_type \<Rightarrow> hook_value \<Rightarrow> ir_event" where
  "result_event T v = (''snes_instrumentation_result_'' @ type_letter T, [v])"


section \<open>The hooks of a block\<close>

text \<open>The new label is no target, and the returned values have the type of the function.\<close>

definition inst_ok :: "nat \<Rightarrow> ir_type \<Rightarrow> ir_inst \<Rightarrow> bool" where
  "inst_ok fresh R I = (case I of
     ReturnInst (Some v) \<Rightarrow> operand_type v = R
   | BranchInst t \<Rightarrow> t \<noteq> fresh
   | CondBranchInst c t u \<Rightarrow> t \<noteq> fresh \<and> u \<noteq> fresh
   | _ \<Rightarrow> True)"

definition well_labelled :: "nat \<Rightarrow> ir_function \<Rightarrow> bool" where
  "well_labelled fresh F \<longleftrightarrow> fresh \<notin> fst ` set (fn_blocks F)
     \<and> list_all (\<lambda>(l, insts). list_all (inst_ok fresh (fn_return F)) insts) (fn_blocks F)"

definition hooked :: "nat \<Rightarrow> ir_type \<Rightarrow> (nat \<times> ir_inst list) list \<Rightarrow> (nat \<times> ir_inst list) list \<Rightarrow> bool" where
  "hooked fresh R bs bs' \<longleftrightarrow> (\<forall>t. t \<noteq> fresh \<longrightarrow> (case map_of bs t of
     None \<Rightarrow> map_of bs' t = None
   | Some is \<Rightarrow> list_all (inst_ok fresh R) is \<and> (\<exists>is'. map_of bs' t = Some is' \<and> exit_hooks is = Inr is')))"

lemma exit_hooks_simps:
  "exit_hooks [] = Inr []"
  "exit_hooks (x # xs) = obind (BuildExitHook x) (\<lambda>h. obind (exit_hooks xs) (\<lambda>t. Inr (h @ t)))"
  by (cases "BuildExitHook x"; cases "omap BuildExitHook xs"; simp add: exit_hooks_def)+

lemma type_name: "GetTypeName T = Inr x \<Longrightarrow> x = type_letter T"
  by (auto simp: GetTypeName_def type_letter_def split: ir_type.splits)

lemma hooked_target:
  assumes H: "hooked fresh R bs bs'" and t: "branch_to S s I = Some t" "inst_ok fresh R I"
  shows "map_of bs t = None \<and> map_of bs' t = None
    \<or> (\<exists>is is'. map_of bs t = Some is \<and> map_of bs' t = Some is' \<and> exit_hooks is = Inr is' \<and> list_all (inst_ok fresh R) is)"
proof -
  have "t \<noteq> fresh" using t by (auto simp: branch_to_def inst_ok_def split: ir_inst.splits if_splits)
  then show ?thesis using spec [OF H [unfolded hooked_def], of t] by (cases "map_of bs t") auto
qed

text \<open>A hooked return tells the result and returns it; any other instruction stays.\<close>

lemma hooked_return:
  assumes "exit_hooks (x # is) = Inr is'" "inst_ok fresh R x" "is_return x"
  shows "\<exists>w f v t. returned S s x = Some w \<and> is' = CallInst f [R] [v] # x # t
    \<and> inst_events S s (CallInst f [R] [v]) = [result_event R w]"
  using assms
  by (auto simp: exit_hooks_simps BuildExitHook_def GetReturnSymbolName_def outcome_inv inst_ok_def result_event_def
      PREFIX_def is_return_def returned_def inst_events_def dest!: type_name split: option.splits ir_inst.splits)

lemma hooked_other:
  assumes "exit_hooks (x # is) = Inr is'" "\<not> is_return x"
  shows "\<exists>t. is' = x # t \<and> exit_hooks is = Inr t"
  using assms by (auto simp: exit_hooks_simps BuildExitHook_def outcome_inv is_return_def split: ir_inst.splits)


lemma plain_insts [simp]:
  "\<not> is_return (CallInst f Ts vs)" "branch_to S s (CallInst f Ts vs) = None" "inst_effect S (CallInst f Ts vs) s = s"
  "\<not> is_return (GetElementPtrInst g)" "branch_to S s (GetElementPtrInst g) = None"
  "inst_effect S (GetElementPtrInst g) s = s" "inst_events S s (GetElementPtrInst g) = []"
  by (simp_all add: is_return_def branch_to_def inst_effect_def inst_events_def)

lemma hooks_forward:
  assumes H: "hooked fresh R bs bs'"
  shows "run_fn S bs n l is s tr = Some r \<Longrightarrow> exit_hooks is = Inr is' \<Longrightarrow> list_all (inst_ok fresh R) is \<Longrightarrow>
    \<exists>m v s' tr'. r = (Some v, s', tr') \<and> run_fn S bs' m l is' s (pre @ tr) = Some (Some v, s', pre @ tr' @ [result_event R v])"
proof (induction n arbitrary: l "is" s tr is')
  case 0
  then show ?case by simp
next
  case (Suc n)
  then obtain x xs where x: "is = x # xs" "inst_ok fresh R x" "list_all (inst_ok fresh R) xs" by (cases "is") auto
  note pr = Suc.prems(1,2) [unfolded x(1)]
  consider "is_return x" | "\<not> is_return x" "branch_to S s x = None" | t where "\<not> is_return x" "branch_to S s x = Some t"
    by (cases "is_return x"; cases "branch_to S s x") auto
  then show ?case
  proof cases
    case 1
    then show ?thesis using pr hooked_return [OF pr(2) x(2) 1, of S s]
      by (elim exE conjE) (intro exI [of _ "Suc (Suc 0)"], auto)
  next
    case 2
    then obtain t where t: "is' = x # t" "exit_hooks xs = Inr t" using hooked_other [OF pr(2)] by auto
    have "run_fn S bs n l xs (inst_effect S x s) (tr @ inst_events S s x) = Some r" using pr(1) 2 by simp
    from Suc.IH [OF this t(2) x(3)] show ?thesis
      by (elim exE conjE) (intro exI [of _ "Suc _"], auto simp: t 2)
  next
    case 3
    then obtain rest where t: "is' = x # rest" using hooked_other [OF pr(2)] by auto
    obtain ys ys' where y: "map_of bs t = Some ys" "map_of bs' t = Some ys'" "exit_hooks ys = Inr ys'" "list_all (inst_ok fresh R) ys"
      using hooked_target [OF H 3(2) x(2)] pr(1) 3 by auto
    have "run_fn S bs n t ys (phi_effect S l t s) tr = Some r" using pr(1) 3 y(1) by simp
    from Suc.IH [OF this y(3,4)] show ?thesis
      by (elim exE conjE) (intro exI [of _ "Suc _"], auto simp: t 3 y(2))
  qed
qed

lemma hooks_backward:
  assumes H: "hooked fresh R bs bs'"
  shows "run_fn S bs' m l is' s (pre @ tr) = Some r \<Longrightarrow> exit_hooks is = Inr is' \<Longrightarrow> list_all (inst_ok fresh R) is \<Longrightarrow>
    \<exists>n v s' tr'. run_fn S bs n l is s tr = Some (Some v, s', tr') \<and> r = (Some v, s', pre @ tr' @ [result_event R v])"
proof (induction m arbitrary: l "is" s tr is')
  case 0
  then show ?case by simp
next
  case (Suc m)
  show ?case
  proof (cases "is")
    case Nil
    then show ?thesis using Suc.prems by (simp add: exit_hooks_simps)
  next
    case (Cons x xs)
    note pr = Suc.prems(2,3) [unfolded Cons]
    have x: "inst_ok fresh R x" "list_all (inst_ok fresh R) xs" using pr(2) by simp_all
    consider "is_return x" | "\<not> is_return x" "branch_to S s x = None" | t where "\<not> is_return x" "branch_to S s x = Some t"
      by (cases "is_return x"; cases "branch_to S s x") auto
    then show ?thesis
    proof cases
      case 1
      obtain w f v t where r: "returned S s x = Some w" "is' = CallInst f [R] [v] # x # t"
        "inst_events S s (CallInst f [R] [v]) = [result_event R w]"
        using hooked_return [OF pr(1) x(1) 1, of S s] by blast
      then have "r = (Some w, s, pre @ tr @ [result_event R w])" using Suc.prems(1) 1 by (cases m) simp_all
      then show ?thesis using 1 r(1) Cons by (intro exI [of _ "Suc 0"]) simp
    next
      case 2
      then obtain t where t: "is' = x # t" "exit_hooks xs = Inr t" using hooked_other [OF pr(1)] by auto
      have "run_fn S bs' m l t (inst_effect S x s) (pre @ (tr @ inst_events S s x)) = Some r"
        using Suc.prems(1) 2 by (simp add: t)
      from Suc.IH [OF this t(2) x(2)] show ?thesis
        by (elim exE conjE) (intro exI [of _ "Suc _"], auto simp: Cons 2)
    next
      case 3
      then obtain rest where t: "is' = x # rest" using hooked_other [OF pr(1)] by auto
      obtain ys ys' where y: "map_of bs t = Some ys" "map_of bs' t = Some ys'" "exit_hooks ys = Inr ys'" "list_all (inst_ok fresh R) ys"
        using hooked_target [OF H 3(2) x(1)] Suc.prems(1) 3 by (auto simp: t)
      have "run_fn S bs' m t ys' (phi_effect S l t s) (pre @ tr) = Some r" using Suc.prems(1) 3 y(2) by (simp add: t)
      from Suc.IH [OF this y(3,4)] show ?thesis
        by (elim exE conjE) (intro exI [of _ "Suc _"], auto simp: Cons 3 y(1))
    qed
  qed
qed


section \<open>The new entry block\<close>

definition is_plain :: "ir_inst \<Rightarrow> bool" where
  "is_plain I = (case I of GetElementPtrInst g \<Rightarrow> True | CallInst f Ts vs \<Rightarrow> True | _ \<Rightarrow> False)"

lemma plain_cases: "is_plain I \<Longrightarrow> (\<exists>g. I = GetElementPtrInst g) \<or> (\<exists>f Ts vs. I = CallInst f Ts vs)"
  by (cases I) (simp_all add: is_plain_def)

lemma run_plain:
  "list_all is_plain sig \<Longrightarrow>
   run_fn S bs (length sig + m) l (sig @ rest) s tr = run_fn S bs m l rest s (tr @ concat (map (inst_events S s) sig))"
  by (induction sig arbitrary: tr) (auto dest!: plain_cases)

lemma exit_hooks_plain: "list_all is_plain sig \<Longrightarrow> exit_hooks (sig @ [BranchInst t]) = Inr (sig @ [BranchInst t])"
  by (induction sig) (auto simp: exit_hooks_simps BuildExitHook_def dest!: plain_cases)

lemma run_more: "run_fn S bs n l is s tr = Some r \<Longrightarrow> run_fn S bs (n + k) l is s tr = Some r"
proof (induction n arbitrary: l "is" s tr)
  case 0
  then show ?case by simp
next
  case (Suc n)
  then show ?case by (cases "is") (auto split: option.splits if_splits)
qed

definition argument_event :: "('s, 'z) ir_semantics_scheme \<Rightarrow> nat \<times> ir_argument \<Rightarrow> ir_event" where
  "argument_event S = (\<lambda>(i, A). (''snes_instrumentation_argument_'' @ type_letter (ir_arg_type A),
     [VString (ir_arg_name A), VInt (int i mod 256), argument_value S i]))"

lemma BuildArgument_events:
  "BuildArgument (i, A) = Inr is \<Longrightarrow> list_all is_plain is \<and> concat (map (inst_events S s) is) = [argument_event S (i, A)]"
  by (auto simp: BuildArgument_def GetArgumentSymbolName_def CreateStringPtr_def ConstantInt_get_def outcome_inv
      is_plain_def inst_events_def operand_value_def argument_event_def PREFIX_def zmod_int Let_def dest!: type_name)

lemma arguments_events:
  "omap BuildArgument As = Inr iss \<Longrightarrow>
   list_all is_plain (concat iss) \<and> concat (map (inst_events S s) (concat iss)) = map (argument_event S) As"
proof (induction As arbitrary: iss)
  case Nil
  then show ?case by simp
next
  case (Cons A As)
  then obtain x xs where "BuildArgument A = Inr x" "omap BuildArgument As = Inr xs" "iss = x # xs"
    by (auto simp: outcome_inv)
  then show ?case using Cons.IH [of xs] BuildArgument_events [of "fst A" "snd A" x S s] by simp
qed

lemma signature_events:
  assumes "BuildSignature F = Inr sig"
  shows "list_all is_plain sig \<and> concat (map (inst_events S s) sig) = entry_events S F"
proof -
  obtain iss where i: "omap BuildArgument (List.enumerate 0 (fn_args F)) = Inr iss"
    and sig: "sig = BuildBeginSignature F @ concat iss @ BuildEndSignature F"
    using assms by (auto simp: BuildSignature_def outcome_inv)
  have "map (argument_event S) (List.enumerate 0 (fn_args F)) = map (\<lambda>i. argument_event S (i, fn_args F ! i)) [0..<length (fn_args F)]"
    by (rule nth_equalityI) (simp_all add: nth_enumerate_eq)
  then show ?thesis using arguments_events [OF i, of S s] unfolding sig
    by (simp add: BuildBeginSignature_def BuildEndSignature_def BuildSignatureCall_def CreateStringPtr_def ConstantInt_get_def
        BEGIN_FUNCTION_SIGNATURE_def END_FUNCTION_SIGNATURE_def PREFIX_def entry_events_def argument_event_def
        is_plain_def inst_events_def operand_value_def zmod_int Let_def)
qed

lemma hooked_at:
  assumes "hooked fresh R bs bs'" "t \<noteq> fresh" "map_of cs t = map_of bs t" "map_of cs' t = map_of bs' t"
  shows "case map_of cs t of None \<Rightarrow> map_of cs' t = None
    | Some is \<Rightarrow> list_all (inst_ok fresh R) is \<and> (\<exists>is'. map_of cs' t = Some is' \<and> exit_hooks is = Inr is')"
  using assms(1,2) unfolding assms(3,4) hooked_def by blast

lemma exit_hooked:
  "omap (\<lambda>(l, insts). obind (exit_hooks insts) (\<lambda>is. Inr (l, is))) bs = Inr bs' \<Longrightarrow>
   list_all (\<lambda>(l, insts). list_all (inst_ok fresh R) insts) bs \<Longrightarrow> hooked fresh R bs bs'"
proof (induction bs arbitrary: bs')
  case Nil
  then show ?case by (simp add: hooked_def)
next
  case (Cons b bs)
  then obtain l insts is' bs2 where b: "b = (l, insts)" "exit_hooks insts = Inr is'" "bs' = (l, is') # bs2"
    "omap (\<lambda>(l, insts). obind (exit_hooks insts) (\<lambda>is. Inr (l, is))) bs = Inr bs2"
    by (cases b) (auto simp: outcome_inv)
  have H: "hooked fresh R bs bs2" using Cons.IH [OF b(4)] Cons.prems(2) by simp
  show ?case unfolding hooked_def
  proof (intro allI impI)
    fix t assume t: "t \<noteq> fresh"
    show "case map_of (b # bs) t of None \<Rightarrow> map_of bs' t = None
      | Some is \<Rightarrow> list_all (inst_ok fresh R) is \<and> (\<exists>is'. map_of bs' t = Some is' \<and> exit_hooks is = Inr is')"
    proof (cases "t = l")
      case True
      then show ?thesis using Cons.prems(2) b(1-3) by simp
    next
      case False
      then show ?thesis by (intro hooked_at [OF H t]) (simp_all add: b(1,3))
    qed
  qed
qed

lemma hooked_new: "hooked fresh R bs bs' \<Longrightarrow> hooked fresh R bs ((fresh, is) # bs')"
  unfolding hooked_def by (intro allI impI hooked_at [of fresh R bs bs']) (simp_all add: hooked_def)

text \<open>
  Property C23. The instrumented function returns exactly when the function does, with the same value in the
  same state. Its calls are those of the function between the hooks: the signature begins, one
  hook for each argument in order, the signature ends, and at the end the result. The hooks
  are told the number of arguments modulo 65536 and their positions modulo 256.
\<close>

theorem instrumented_execution:
  fixes S :: "('s, 'z) ir_semantics_scheme"
  assumes "runOnFunction fresh F = Inr (F', m)" "ShouldInstrument F" "well_labelled fresh F"
    and "\<And>Entry s. phi_effect S fresh Entry s = s"
  shows "fn_result S F' s r \<longleftrightarrow> (\<exists>v s' tr. fn_result S F s (Some v, s', tr)
    \<and> r = (Some v, s', entry_events S F @ tr @ [result_event (fn_return F) v]))"
proof -
  obtain F1 where F1: "BuildEntryBlock fresh F = Inr F1" "BuildExitHooks F1 = Inr F'"
    using assms(1,2) by (auto simp: runOnFunction_def outcome_inv)
  obtain Entry insts bs sig where F: "fn_blocks F = (Entry, insts) # bs" "BuildSignature F = Inr sig"
    "F1 = F\<lparr>fn_blocks := (fresh, sig @ [BranchInst Entry]) # fn_blocks F\<rparr>"
    using F1(1) by (auto simp: BuildEntryBlock_def outcome_inv split: list.splits)
  have sig: "list_all is_plain sig" "concat (map (inst_events S s) sig) = entry_events S F" for s :: 's
    using signature_events [OF F(2), of S s] by simp_all
  obtain bs2 where b: "omap (\<lambda>(l, insts). obind (exit_hooks insts) (\<lambda>is. Inr (l, is))) (fn_blocks F) = Inr bs2"
    "fn_blocks F' = (fresh, sig @ [BranchInst Entry]) # bs2"
    using F1(2) by (auto simp: F(3) BuildExitHooks_def exit_hooks_plain [OF sig(1)] outcome_inv)
  have H: "hooked fresh (fn_return F) (fn_blocks F) (fn_blocks F')"
    using hooked_new [OF exit_hooked [OF b(1)]] assms(3) by (simp add: b(2) well_labelled_def)
  obtain insts' where i: "exit_hooks insts = Inr insts'" "map_of (fn_blocks F') Entry = Some insts'" "list_all (inst_ok fresh (fn_return F)) insts"
    using b assms(3) F(1) by (auto simp: well_labelled_def outcome_inv)
  have entry: "run_fn S (fn_blocks F') (length sig + Suc n) fresh (sig @ [BranchInst Entry]) s []
      = run_fn S (fn_blocks F') n Entry insts' s (entry_events S F @ [])" for n
    using run_plain [OF sig(1), of S "fn_blocks F'" "Suc n" fresh "[BranchInst Entry]" s "[]"]
    by (simp add: sig(2) is_return_def branch_to_def i(2) assms(4))
  show ?thesis
  proof
    assume "fn_result S F' s r"
    then obtain n where "run_fn S (fn_blocks F') n fresh (sig @ [BranchInst Entry]) s [] = Some r"
      by (auto simp: fn_result_def b(2))
    from run_more [OF this, of "length sig + Suc 0"]
    have "run_fn S (fn_blocks F') n Entry insts' s (entry_events S F @ []) = Some r"
      using entry [of n] by (simp add: add.commute add.left_commute)
    from hooks_backward [OF H this i(1,3)] show "\<exists>v s' tr. fn_result S F s (Some v, s', tr)
        \<and> r = (Some v, s', entry_events S F @ tr @ [result_event (fn_return F) v])"
      by (auto simp: fn_result_def F(1))
  next
    assume "\<exists>v s' tr. fn_result S F s (Some v, s', tr) \<and> r = (Some v, s', entry_events S F @ tr @ [result_event (fn_return F) v])"
    then obtain v s' tr n where r: "run_fn S (fn_blocks F) n Entry insts s [] = Some (Some v, s', tr)"
      "r = (Some v, s', entry_events S F @ tr @ [result_event (fn_return F) v])"
      by (auto simp: fn_result_def F(1))
    obtain k where "run_fn S (fn_blocks F') k Entry insts' s (entry_events S F @ []) = Some r"
      using hooks_forward [OF H r(1) i(1,3), of "entry_events S F"] r(2) by auto
    then show "fn_result S F' s r" unfolding fn_result_def b(2) using entry [of k] b(2) by auto
  qed
qed

lemma instrumented_execution_witness:
  "\<exists>F'. runOnFunction 7 \<lparr>fn_name = ''f'', fn_args = [\<lparr>ir_arg_name = ''x'', ir_arg_type = IntegerType 8\<rparr>], fn_return = IntegerType 8,
        fn_blocks = [(0, [OpaqueInst 0, ReturnInst (Some (OpArg 0 (IntegerType 8)))])]\<rparr> = Inr (F', True)
    \<and> fn_result \<lparr>opaque_effect = \<lambda>_ s. s + 1, phi_effect = \<lambda>_ _ s. s, branch_cond = \<lambda>_ _. True,
        opaque_value = \<lambda>_ _. VInt 0, argument_value = \<lambda>_. VInt 5\<rparr> F' (0 :: int)
      (Some (VInt 5), 1,
       [(''snes_instrumentation_begin_signature'', [VString ''f'', VInt 1]),
        (''snes_instrumentation_argument_i8'', [VString ''x'', VInt 0, VInt 5]),
        (''snes_instrumentation_end_signature'', [VString ''f'', VInt 1]),
        (''snes_instrumentation_result_i8'', [VInt 5])])"
  (is "\<exists>F'. runOnFunction 7 ?F = _ \<and> fn_result ?S F' 0 ?r")
proof -
  define F where "F = ?F"
  define S where "S = ?S"
  have "\<exists>F'. runOnFunction 7 F = Inr (F', True)"
    by (simp add: F_def runOnFunction_def ShouldInstrument_def BuildEntryBlock_def BuildSignature_def BuildBeginSignature_def
        BuildEndSignature_def BuildSignatureCall_def CreateStringPtr_def BuildArgument_def GetArgumentSymbolName_def
        GetTypeName_def BuildExitHooks_def exit_hooks_simps BuildExitHook_def GetReturnSymbolName_def operand_type_def Let_def)
  then obtain F' where F': "runOnFunction 7 F = Inr (F', True)" by blast
  have w: "well_labelled 7 F" by (simp add: F_def well_labelled_def inst_ok_def operand_type_def)
  have "run_fn S (fn_blocks F) 2 0 [OpaqueInst 0, ReturnInst (Some (OpArg 0 (IntegerType 8)))] 0 [] = Some (Some (VInt 5), 1, [])"
    by (simp add: S_def numeral_2_eq_2 is_return_def branch_to_def inst_effect_def inst_events_def returned_def operand_value_def)
  then have r: "fn_result S F 0 (Some (VInt 5), 1, [])" by (auto simp: fn_result_def F_def)
  have eight: "to_string 8 = ''8''" by code_simp
  have e: "entry_events S F @ [] @ [result_event (fn_return F) (VInt 5)] = snd (snd ?r)"
    by (simp add: S_def F_def entry_events_def result_event_def type_letter_def eight Let_def)
  have p: "phi_effect S 7 Entry s = s" for Entry s by (simp add: S_def)
  have i: "ShouldInstrument F" by (simp add: F_def ShouldInstrument_def)
  have "fn_result S F' 0 (Some (VInt 5), 1, entry_events S F @ [] @ [result_event (fn_return F) (VInt 5)])"
    unfolding instrumented_execution [OF F' i w p] using r by blast
  then have "fn_result S F' 0 (Some (VInt 5), 1, snd (snd ?r))" unfolding e .
  with F' show ?thesis unfolding F_def [symmetric] S_def [symmetric] by (intro exI [of _ F']) simp
qed

text \<open>A function that returns a value and has an argument of another type than integer or floating point stops the pass.\<close>

theorem instrument_other_argument:
  assumes "ShouldInstrument F" "fn_blocks F \<noteq> []" "\<exists>A \<in> set (fn_args F). ir_arg_type A \<in> {VoidType, OtherType}"
  shows "runOnFunction fresh F = Inl (Unreachable ''unknown return type'')"
proof -
  have "omap BuildArgument As = Inl (Unreachable ''unknown return type'')"
    if "\<exists>A \<in> set As. ir_arg_type (snd A) \<in> {VoidType, OtherType}" for As
    using that
  proof (induction As)
    case Nil
    then show ?case by simp
  next
    case (Cons A As)
    obtain i a where A: "A = (i, a)" by (cases A)
    show ?case using Cons
      by (cases "ir_arg_type a") (auto simp: A BuildArgument_def GetArgumentSymbolName_def GetTypeName_def CreateStringPtr_def Let_def)
  qed
  moreover have "\<exists>A \<in> set (List.enumerate 0 (fn_args F)). ir_arg_type (snd A) \<in> {VoidType, OtherType}"
  proof -
    obtain i where "i < length (fn_args F)" "ir_arg_type (fn_args F ! i) \<in> {VoidType, OtherType}"
      using assms(3) by (auto simp: in_set_conv_nth)
    then show ?thesis by (intro bexI [of _ "(i, fn_args F ! i)"]) (simp_all add: in_set_enumerate_eq)
  qed
  ultimately show ?thesis using assms(1,2)
    by (auto simp: runOnFunction_def BuildEntryBlock_def BuildSignature_def split: list.splits)
qed

lemma instrument_other_argument_witness:
  "\<forall>fresh. runOnFunction fresh \<lparr>fn_name = ''f'', fn_args = [\<lparr>ir_arg_name = ''p'', ir_arg_type = OtherType\<rparr>], fn_return = IntegerType 8,
        fn_blocks = [(0, [ReturnInst (Some (OpInt 8 1))])]\<rparr> = Inl (Unreachable ''unknown return type'')"
  by (intro allI instrument_other_argument) (simp_all add: ShouldInstrument_def)

end
