(* ===== verification/Spec2Isabelle.thy ===== *)
theory Spec2Isabelle
  imports Disassembler MC_Inst_Lower Inst_Printer Branch_Analysis Expand_Termination ISel_Lower ISel_Insert
    Stack_Arguments Asm_Roundtrip Asm_Printer Instrument_Functions
begin

text \<open>
  The SNES backend of this LLVM tree, \<open>lib/Target/SNES\<close>: a code generator, assembler and
  disassembler for the processor of the Super Nintendo, derived from the AVR backend. File
  names below are relative to that directory unless they start with \<open>lib\<close> or \<open>include\<close>.

  The program. A function reaches the backend as a DAG. Custom lowering replaces the nodes
  that the target has no instruction for and the calls, returns and arguments
  (\<open>SNESISelLowering.cpp\<close>); selection turns nodes into machine nodes
  (\<open>SNESISelDAGToDAG.cpp\<close> and a generated matcher); custom inserters replace shifts by
  variable amounts and selections by new blocks. On machine instructions work the branch
  operations (\<open>SNESInstrInfo.cpp\<close>), the frame code (\<open>SNESFrameLowering.cpp\<close>,
  \<open>SNESRegisterInfo.cpp\<close>), the relaxation of stores and the expansion of 16-bit pseudo
  instructions into byte instructions (\<open>SNESRelaxMemOperations.cpp\<close>,
  \<open>SNESExpandPseudoInsts.cpp\<close>). The result is lowered to assembler instructions
  (\<open>SNESMCInstLower.cpp\<close>, \<open>SNESAsmPrinter.cpp\<close>), which are printed, parsed, encoded with
  fixups, patched when addresses are known, and disassembled (\<open>InstPrinter\<close>, \<open>AsmParser\<close>,
  \<open>MCTargetDesc\<close>, \<open>Disassembler\<close>). A separate pass instruments functions for tests
  (\<open>SNESInstrumentFunctions.cpp\<close>).

  Conventions. Integers of the C++ code are words of their width, and unbounded where the code
  cannot overflow. An operation that may stop is of type \<open>'a outcome\<close>: its errors are failed
  assertions, \<open>llvm_unreachable\<close>, fatal errors and undefined behaviour, with the message of
  the code. Objects that C++ changes in place are values that are returned changed. Nodes of
  the DAG, instructions and operands are datatypes and records with the fields that the
  backend reads; locations in the source, debug information and memory operands, which
  carry alias information only, are left out.

  The theories, from the bottom up:

  \<^item> \<open>SNES_Prelude\<close>: machine words, outcomes and their sequencing, decimal printing.
    \<open>Math_Extras\<close>: the width tests of \<open>include/llvm/Support/MathExtras.h\<close>.
  \<^item> \<open>Registers\<close> (\<open>SNESRegisterInfo\<close>): registers, an instance of \<open>enum\<close>, classes, halves.
    \<open>Machine_IR\<close>: opcodes with their sizes, flags and implicit registers from
    \<open>SNESInstrInfo.td\<close>, operands, \<open>BuildMI\<close>, the function information.
  \<^item> Assembler: \<open>Fixup_Kinds\<close>, \<open>MC_Expr\<close> (\<open>SNESMCExpr.cpp\<close> and the evaluation of
    \<open>lib/MC/MCExpr.cpp\<close>), \<open>Asm_Backend\<close> (\<open>SNESAsmBackend.cpp\<close>: adjusting and applying
    fixups), \<open>Code_Emitter\<close> (\<open>SNESMCCodeEmitter.cpp\<close>), \<open>Disassembler\<close>, \<open>MC_Inst_Lower\<close>.
    The lemmas show which bytes a fixup changes and to what, which displacements and call
    targets are rejected and what the field of the others holds, for which values a modifier
    evaluated early and its fixup adjusted late give the same byte and how much of it applying
    the fixup stores, and that the disassembler reads back the words that the emitter writes
    except those of 32 bits.
  \<^item> Text: \<open>Inst_Printer\<close>, \<open>Asm_Lexer\<close> (the tokens of operands, \<open>lib/MC/MCParser/AsmLexer.cpp\<close>),
    \<open>Asm_Parser\<close> (\<open>SNESAsmParser.cpp\<close> with the expression parser of
    \<open>lib/MC/MCParser/AsmParser.cpp\<close>), \<open>Asm_Roundtrip\<close>. Parsers take a bound: every
    recursive descent of the expression parser consumes a token or goes down one of two
    levels, so \<open>2 * tokens + 2\<close> calls and more rounds of the operand loop than there are
    tokens suffice, and with them the statement parser returns. Printed registers,
    immediates and modifiers are parsed back; pointers with displacements are not.
  \<^item> Branches: \<open>Cond_Codes\<close>, \<open>Instr_Info\<close> (\<open>SNESInstrInfo.cpp\<close>), \<open>Branch_Analysis\<close>. The
    meaning of a block is the exit it takes under the conditions that hold; the locale
    \<open>branch_conditions\<close> asks of these what the branch operations rely on, and is interpreted
    on every state of the flags. Analysing, inserting, removing and reversing branches keep
    the exit.
  \<^item> Pseudo instructions: \<open>Expand_Pseudo\<close> has one definition for each expansion and the walk
    of the pass, \<open>Expand_Termination\<close> shows that a rank falls in each round, so the limit of
    ten rounds is not reached, no instruction that the pass dispatches is left, and the others
    stay in their order. \<open>Byte_Machine\<close> executes byte instructions; the arithmetic unit of the
    processor is a parameter with its documented behaviour, the locale \<open>documented_alu\<close>,
    interpreted on a reference unit. Displacements and ports have the six bits of their fields,
    and larger ones no execution; immediates of \<open>AND\<close> and \<open>ORA\<close> work on the whole accumulator,
    as their encodings have no register. \<open>Expand_Refinement\<close> shows that the expansions of
    register arithmetic, comparisons, loads and stores compute the 16-bit operation, for which
    displacements and pointers, and what the expansions of the logic with an immediate compute
    instead. A load through the very register it loads goes through a scavenged register of
    16 bits; its expansion is translated but not executed.
  \<^item> Lowering: \<open>ISel_Compare\<close> (comparisons and the nodes of the DAG with their values),
    \<open>ISel_Lower\<close> (shifts, division, addresses, variable arguments, indexed addressing, the
    dispatch and the replacement of results, for every node that the constructor marks), \<open>ISel_Insert\<close> (the custom inserters on functions in SSA form, executed by the
    step relation \<open>ssa_step\<close>), \<open>ISel_Select\<close> (\<open>SNESISelDAGToDAG.cpp\<close>).
  \<^item> Calls: \<open>Calling_Conv\<close> (where arguments and results go, the lowering of calls, returns and
    formal arguments), \<open>Call_Passing\<close> (a call executed up to its callee; the locale \<open>storage\<close>
    is what the order of its stores rests on), \<open>Call_Returns\<close>, \<open>Frame_Lowering\<close> (spills,
    where \<open>PHA\<close> pushes \<open>A\<close> whatever its operand, call frames, frame indices, the relaxation of
    stores, and the definitions of the analyzer), \<open>Stack_Arguments\<close> (a
    stack argument through lowering, selection, frame code and expansion).
  \<^item> \<open>Inline_Asm\<close> (constraints of inline assembly) and \<open>Asm_Printer\<close> (\<open>SNESAsmPrinter.cpp\<close>).
    \<open>Instrument_Functions\<close>: the instrumented function is executed and compared with the
    function, in both directions.

  Other bounds. \<open>run_fn\<close> executes at most the given number of instructions; its lemmas are
  equivalences over all numbers. The walk over the pieces of variable arguments, which does
  not end for every list, is a partial function that is proved to return on the lists that
  the splitting of arguments makes.

  Parameters, standing for code that is generated, belongs to another layer or is the
  processor: the arithmetic unit; the matcher of instruction patterns and of parsed
  operands; the analysis of known bits; the callbacks that lower library calls (\<open>call_typed\<close>:
  the value has the type that the call asked for) and select virtual registers; names of symbols, the streamer and the order of register classes.

  What does not work as intended is stated as it is, in theorems about the code: among others,
  both halves of a product are read from one register, an indirect call overwrites its first
  argument, stores of arguments are relative to A without A being set, inline assembly adds
  an offset that should be subtracted, a constant comparison wraps at the largest value, the
  halves of a logic immediate act on the whole accumulator, spills push \<open>A\<close> for every register,
  the second byte of a displaced access at 63 has no encoding, the lowest displacements of a
  branch wrap, fixups of modifiers store half of their byte, and 32-bit encodings are read
  back with their halves exchanged.

  Not modelled: registration and construction of the target, object files and target
  streamers (delegation to base classes, and bodies that are commented out), the tables and
  the matcher that TableGen generates from the target descriptions, register allocation and
  scheduling, and the rest of LLVM, of which the functions that the backend calls are
  modelled where they are used.
\<close>

end
